(* ===== verification/Prelude.thy ===== *)
theory Prelude
  imports Main "HOL-Library.Sublist" "HOL-Library.Multiset"
begin

text \<open>
  What every other theory of the development shares: the types that stand for Go's strings and
  byte slices, the functions of Go's \<^verbatim>\<open>strings\<close> package the module calls, the collections of
  rewrite rules, and the generic facts about lists they need.

  A Go string is a sequence of bytes, and so is a \<^verbatim>\<open>[]byte\<close>; both are HOL's \<^typ>\<open>string\<close>, whose
  characters are exactly the 256 byte values. A length is therefore a number of bytes, as
  \<^verbatim>\<open>len\<close> is in Go.
\<close>

type_synonym bytes = string

abbreviation NL :: char where "NL \<equiv> CHR 0x0A"
abbreviation CR :: char where "CR \<equiv> CHR 0x0D"
abbreviation TAB :: char where "TAB \<equiv> CHR 0x09"
abbreviation SLASH :: char where "SLASH \<equiv> CHR ''/''"
abbreviation BSLASH :: char where "BSLASH \<equiv> CHR 0x5C"
abbreviation QUOTE :: char where "QUOTE \<equiv> CHR 0x22"

text \<open>The rules that reduce the string functions, the path functions and the in-memory volume.\<close>

named_theorems str_simps
named_theorems path_simps
named_theorems mem_simps

section \<open>Go's strings package\<close>

text \<open>\<^verbatim>\<open>strings.HasPrefix(s, p)\<close> and \<^verbatim>\<open>strings.HasSuffix(s, p)\<close>.\<close>

fun has_prefix :: "'a list \<Rightarrow> 'a list \<Rightarrow> bool" where
  "has_prefix s [] = True"
| "has_prefix [] (p # ps) = False"
| "has_prefix (c # s) (p # ps) = (c = p \<and> has_prefix s ps)"

definition has_suffix :: "'a list \<Rightarrow> 'a list \<Rightarrow> bool" where
  "has_suffix s p = has_prefix (rev s) (rev p)"

text \<open>\<^verbatim>\<open>strings.Index(s, sub)\<close>: the first offset at which \<open>sub\<close> occurs; None is Go's -1.\<close>

fun str_index :: "'a list \<Rightarrow> 'a list \<Rightarrow> nat option" where
  "str_index s sub =
     (if has_prefix s sub then Some 0
      else (case s of [] \<Rightarrow> None | c # t \<Rightarrow> map_option Suc (str_index t sub)))"

declare str_index.simps [simp del]

definition str_contains :: "'a list \<Rightarrow> 'a list \<Rightarrow> bool" where
  "str_contains s sub = (str_index s sub \<noteq> None)"

text \<open>\<^verbatim>\<open>strings.Split(s, sep)\<close> for a separator of one byte, and \<^verbatim>\<open>strings.FieldsFunc\<close>.\<close>

fun split_by :: "('a \<Rightarrow> bool) \<Rightarrow> 'a list \<Rightarrow> 'a list list" where
  "split_by p [] = [[]]"
| "split_by p (c # s) =
     (if p c then [] # split_by p s
      else (case split_by p s of [] \<Rightarrow> [[c]] | w # ws \<Rightarrow> (c # w) # ws))"

definition fields_func :: "('a \<Rightarrow> bool) \<Rightarrow> 'a list \<Rightarrow> 'a list list" where
  "fields_func p s = filter (\<lambda>w. w \<noteq> []) (split_by p s)"

text \<open>\<^verbatim>\<open>strings.Join(parts, sep)\<close>.\<close>

fun join_with :: "'a list \<Rightarrow> 'a list list \<Rightarrow> 'a list" where
  "join_with sep [] = []"
| "join_with sep [w] = w"
| "join_with sep (w # v # ws) = w @ sep @ join_with sep (v # ws)"

text \<open>\<^verbatim>\<open>strings.TrimLeft(s, c)\<close> and \<^verbatim>\<open>strings.TrimRight(s, c)\<close> for a cutset of one byte.\<close>

definition trim_left :: "'a \<Rightarrow> 'a list \<Rightarrow> 'a list" where
  "trim_left c s = dropWhile (\<lambda>x. x = c) s"

definition trim_right :: "'a \<Rightarrow> 'a list \<Rightarrow> 'a list" where
  "trim_right c s = rev (dropWhile (\<lambda>x. x = c) (rev s))"

text \<open>\<^verbatim>\<open>strings.LastIndex(s, c)\<close> for one byte, as the text before and after that byte.\<close>

fun cut_last :: "'a \<Rightarrow> 'a list \<Rightarrow> ('a list \<times> 'a list) option" where
  "cut_last c [] = None"
| "cut_last c (x # s) =
     (case cut_last c s of
        Some (l, r) \<Rightarrow> Some (x # l, r)
      | None \<Rightarrow> (if x = c then Some ([], s) else None))"

section \<open>Facts about these functions\<close>

lemma has_prefix_iff: "has_prefix s p \<longleftrightarrow> (\<exists>r. s = p @ r)"
  by (induction s p rule: has_prefix.induct) auto

lemma has_prefix_append [simp]: "has_prefix (p @ r) p"
  by (auto simp: has_prefix_iff)

lemma has_prefix_self [simp]: "has_prefix p p"
  by (auto simp: has_prefix_iff)

lemma has_prefix_take: "has_prefix s p \<longleftrightarrow> take (length p) s = p"
  by (metis append_take_drop_id has_prefix_iff append_eq_conv_conj)

lemma has_prefix_trans: "has_prefix s p \<Longrightarrow> has_prefix p q \<Longrightarrow> has_prefix s q"
  by (auto simp: has_prefix_iff)

lemma has_prefix_drop: "has_prefix s p \<Longrightarrow> s = p @ drop (length p) s"
  by (auto simp: has_prefix_iff)

lemma has_prefix_appendI: "has_prefix s p \<Longrightarrow> has_prefix (s @ t) p"
  by (auto simp: has_prefix_iff)

lemma has_suffix_iff: "has_suffix s p \<longleftrightarrow> (\<exists>r. s = r @ p)"
  by (auto simp: has_suffix_def has_prefix_iff) (metis rev_append rev_rev_ident)+

lemma has_suffix_last: "has_suffix s [c] \<longleftrightarrow> s \<noteq> [] \<and> last s = c"
  by (cases s rule: rev_cases) (auto simp: has_suffix_iff)

lemma str_index_SomeD:
  "str_index s sub = Some i \<Longrightarrow> i + length sub \<le> length s \<and> has_prefix (drop i s) sub"
proof (induction s arbitrary: i)
  case Nil
  then show ?case by (auto simp: str_index.simps split: if_splits) (auto simp: has_prefix_iff)
next
  case (Cons c t)
  show ?case
  proof (cases "has_prefix (c # t) sub")
    case True
    with Cons.prems have "i = 0" by (simp add: str_index.simps)
    with True show ?thesis by (auto simp: has_prefix_iff) (metis le_add1 length_append length_Cons)
  next
    case False
    with Cons.prems obtain j where "str_index t sub = Some j" "i = Suc j"
      by (auto simp: str_index.simps [of "c # t"])
    with Cons.IH show ?thesis by simp
  qed
qed

lemma str_index_Some_split:
  assumes "str_index s sub = Some i"
  shows "s = take i s @ sub @ drop (i + length sub) s"
proof -
  from str_index_SomeD [OF assms] have "drop i s = sub @ drop (length sub) (drop i s)"
    by (blast dest: has_prefix_drop)
  then show ?thesis by (metis append_take_drop_id drop_drop add.commute)
qed

lemma str_index_hit: "str_index (u @ sub @ v) sub \<noteq> None"
proof (induction u)
  case Nil
  then show ?case by (simp add: str_index.simps)
next
  case (Cons c u)
  then show ?case by (auto simp: str_index.simps [of "c # _"])
qed

lemma str_contains_iff: "str_contains s sub \<longleftrightarrow> (\<exists>u v. s = u @ sub @ v)"
proof
  assume "str_contains s sub"
  then obtain i where "str_index s sub = Some i" by (auto simp: str_contains_def)
  from str_index_Some_split [OF this] show "\<exists>u v. s = u @ sub @ v" by blast
next
  assume "\<exists>u v. s = u @ sub @ v"
  then show "str_contains s sub" using str_index_hit by (auto simp: str_contains_def)
qed

lemma split_by_not_Nil [simp]: "split_by p s \<noteq> []"
  by (induction s) (auto split: list.splits)

lemma split_by_parts: "w \<in> set (split_by p s) \<Longrightarrow> c \<in> set w \<Longrightarrow> \<not> p c"
proof (induction s arbitrary: w)
  case (Cons a s)
  then show ?case by (cases "split_by p s") (force split: if_splits)+
qed simp

lemma split_by_sep:
  "(\<forall>c \<in> set w. \<not> p c) \<Longrightarrow> p d \<Longrightarrow> split_by p (w @ d # s) = w # split_by p s"
  by (induction w) auto

lemma split_by_plain: "(\<forall>c \<in> set w. \<not> p c) \<Longrightarrow> split_by p w = [w]"
  by (induction w) auto

text \<open>Joining non-empty lists of separator-free words and splitting again gives the words back.\<close>

lemma split_join:
  assumes "ws \<noteq> []" and "\<forall>w \<in> set ws. c \<notin> set w"
  shows "split_by (\<lambda>x. x = c) (join_with [c] ws) = ws"
  using assms
proof (induction "[c]" ws rule: join_with.induct)
  case 1
  then show ?case by simp
next
  case (2 w)
  then show ?case by (auto intro: split_by_plain)
next
  case (3 w v ws)
  then have "\<forall>d \<in> set w. \<not> d = c" by auto
  then show ?case using 3 by (simp add: split_by_sep)
qed

lemma join_split: "join_with [c] (split_by (\<lambda>x. x = c) s) = s"
proof (induction s)
  case (Cons d s)
  obtain w ws where "split_by (\<lambda>x. x = c) s = w # ws"
    by (meson split_by_not_Nil list.exhaust)
  with Cons show ?case by (cases ws) auto
qed simp

lemma cut_last_Some: "cut_last c s = Some (l, r) \<Longrightarrow> s = l @ c # r \<and> c \<notin> set r"
proof (induction s arbitrary: l r)
  case (Cons x s)
  show ?case
  proof (cases "cut_last c s")
    case None
    then have "c \<notin> set s"
    proof (induction s)
      case (Cons y s)
      then show ?case by (auto split: option.splits if_splits)
    qed simp
    with None Cons.prems show ?thesis by (auto split: if_splits)
  next
    case (Some q)
    with Cons show ?thesis by (cases q) auto
  qed
qed simp

lemma cut_last_None: "cut_last c s = None \<longleftrightarrow> c \<notin> set s"
  by (induction s) (auto split: option.splits)

lemma cut_last_append: "c \<notin> set r \<Longrightarrow> cut_last c (l @ c # r) = Some (l, r)"
  by (induction l) (auto simp: cut_last_None [THEN iffD2] split: option.splits)

lemma trim_left_no_head: "trim_left c s = [] \<or> hd (trim_left c s) \<noteq> c"
  unfolding trim_left_def by (induction s) auto

lemma trim_left_id: "s = [] \<or> hd s \<noteq> c \<Longrightarrow> trim_left c s = s"
  by (cases s) (auto simp: trim_left_def)

lemmas str_basic = has_prefix_iff has_suffix_iff str_contains_iff

section \<open>Sorting\<close>

text \<open>\<^verbatim>\<open>sort.SliceStable\<close> with a strict weak order, for which any stable sort gives one result.\<close>

fun insert_by :: "('a \<Rightarrow> 'a \<Rightarrow> bool) \<Rightarrow> 'a \<Rightarrow> 'a list \<Rightarrow> 'a list" where
  "insert_by before x [] = [x]"
| "insert_by before x (y # ys) = (if before y x then y # insert_by before x ys else x # y # ys)"

definition sort_by :: "('a \<Rightarrow> 'a \<Rightarrow> bool) \<Rightarrow> 'a list \<Rightarrow> 'a list" where
  "sort_by before xs = foldr (insert_by before) xs []"

text \<open>Under a strict total order the result does not depend on the order of the input.\<close>

locale strict_total =
  fixes before :: "'a \<Rightarrow> 'a \<Rightarrow> bool"
  assumes before_irrefl: "\<not> before x x"
    and before_trans: "before x y \<Longrightarrow> before y z \<Longrightarrow> before x z"
    and before_total: "before x y \<or> x = y \<or> before y x"
begin

lemma insert_perm [simp]: "mset (insert_by before x ys) = add_mset x (mset ys)"
  by (induction ys) auto

lemma insert_set [simp]: "set (insert_by before x ys) = insert x (set ys)"
  by (induction ys) auto

lemma sort_perm [simp]: "mset (sort_by before xs) = mset xs"
  unfolding sort_by_def by (induction xs) auto

lemma insert_sorted:
  "sorted_wrt (\<lambda>x y. \<not> before y x) ys \<Longrightarrow> sorted_wrt (\<lambda>x y. \<not> before y x) (insert_by before x ys)"
proof (induction ys)
  case (Cons y ys)
  show ?case
  proof (cases "before y x")
    case True
    then show ?thesis using Cons before_trans before_irrefl by auto
  next
    case False
    then have "\<not> before z x" if "z \<in> set ys" for z
      using that Cons.prems before_trans before_total by (metis list.set_intros(1) sorted_wrt.simps(2))
    then show ?thesis using False Cons.prems by auto
  qed
qed simp

lemma sort_sorted: "sorted_wrt (\<lambda>x y. \<not> before y x) (sort_by before xs)"
  unfolding sort_by_def by (induction xs) (simp_all add: insert_sorted)

lemma sorted_unique:
  "sorted_wrt (\<lambda>x y. \<not> before y x) xs \<Longrightarrow> sorted_wrt (\<lambda>x y. \<not> before y x) ys \<Longrightarrow>
   mset xs = mset ys \<Longrightarrow> xs = ys"
proof (induction xs arbitrary: ys)
  case (Cons x xs)
  then obtain y zs where ys: "ys = y # zs" by (cases ys) auto
  have sets: "set (x # xs) = set ys" using Cons.prems(3) by (metis set_mset_mset)
  have "x = y"
  proof (rule ccontr)
    assume "x \<noteq> y"
    then have "y \<in> set xs" "x \<in> set zs" using sets ys by auto
    then show False using Cons.prems(1,2) ys before_total [of x y] \<open>x \<noteq> y\<close> by auto
  qed
  then show ?case using Cons ys by auto
qed simp

lemma sort_canonical: "mset xs = mset ys \<Longrightarrow> sort_by before xs = sort_by before ys"
  by (rule sorted_unique) (simp_all add: sort_sorted)

end

end
