(* ===== verification/LcsOptimal.thy ===== *)
theory LcsOptimal
  imports Lcs
begin

text \<open>
  The specification of \<^verbatim>\<open>LCS\<close> and its proof: \<open>opt a b\<close> is the greatest length of a common
  subsequence, the rows of the length table hold it for every prefix (suffix), the chosen split
  is optimal, so Hirschberg's result attains it; and the anchor map places exactly that many
  lines, in order.
\<close>

section \<open>Common subsequences\<close>

definition is_common :: "'a list \<Rightarrow> 'a list \<Rightarrow> 'a list \<Rightarrow> bool" where
  "is_common zs a b = (subseq zs a \<and> subseq zs b)"

definition opt :: "'a list \<Rightarrow> 'a list \<Rightarrow> nat" where
  "opt a b = Max (length ` {zs. is_common zs a b})"

lemma finite_common: "finite {zs. is_common zs a b}"
proof (rule finite_subset)
  show "{zs. is_common zs a b} \<subseteq> set (subseqs a)" by (auto simp: is_common_def)
qed simp

lemma common_Nil [simp]: "is_common [] a b"
  by (simp add: is_common_def)

lemma opt_ge: "is_common zs a b \<Longrightarrow> length zs \<le> opt a b"
  unfolding opt_def by (rule Max_ge) (auto simp: finite_common)

lemma opt_attained: "\<exists>zs. is_common zs a b \<and> length zs = opt a b"
proof -
  have "opt a b \<in> length ` {zs. is_common zs a b}"
    unfolding opt_def by (rule Max_in) (auto simp: finite_common intro: common_Nil)
  then show ?thesis by auto
qed

lemma opt_leI: "(\<And>zs. is_common zs a b \<Longrightarrow> length zs \<le> n) \<Longrightarrow> opt a b \<le> n"
  using opt_attained [of a b] by metis

lemma opt_Nil [simp]: "opt [] b = 0" "opt a [] = 0"
proof -
  have "opt [] b \<le> 0" by (rule opt_leI) (auto simp: is_common_def)
  moreover have "opt a [] \<le> 0" by (rule opt_leI) (auto simp: is_common_def)
  ultimately show "opt [] b = 0" "opt a [] = 0" by simp_all
qed

lemma subseq_single: "subseq zs [x] \<Longrightarrow> zs = [] \<or> zs = [x]"
  by (cases zs) (auto split: if_splits)

lemma subseq_snocD:
  assumes "subseq zs (a @ [x])"
  shows "subseq zs a \<or> (\<exists>ws. zs = ws @ [x] \<and> subseq ws a)"
proof -
  from assms obtain y z where "zs = y @ z" "subseq y a" "subseq z [x]"
    by (auto simp: subseq_append_iff)
  then show ?thesis by (auto dest: subseq_single)
qed

lemma subseq_butlastD: "subseq (ws @ [x]) a \<Longrightarrow> subseq ws a"
  by (meson prefixI prefix_imp_subseq subseq_order.trans)

lemma subseq_rev_mono: "subseq xs ys \<Longrightarrow> subseq (rev xs) (rev ys)"
  by (induction xs ys rule: list_emb.induct) (auto intro: list_emb_append_mono)

lemma opt_snoc_eq: "opt (a @ [x]) (b @ [x]) = opt a b + 1"
proof (rule antisym)
  show "opt (a @ [x]) (b @ [x]) \<le> opt a b + 1"
  proof (rule opt_leI)
    fix zs assume "is_common zs (a @ [x]) (b @ [x])"
    then have "(subseq zs a \<or> (\<exists>ws. zs = ws @ [x] \<and> subseq ws a)) \<and>
               (subseq zs b \<or> (\<exists>ws. zs = ws @ [x] \<and> subseq ws b))"
      by (auto simp: is_common_def dest: subseq_snocD)
    then have "\<exists>ws. is_common ws a b \<and> length zs \<le> length ws + 1"
      by (auto simp: is_common_def intro: exI [of _ zs] dest: subseq_butlastD)
    then obtain ws where "is_common ws a b" "length zs \<le> length ws + 1" by blast
    then show "length zs \<le> opt a b + 1" using opt_ge [of ws a b] by simp
  qed
next
  obtain zs where "is_common zs a b" "length zs = opt a b" using opt_attained by blast
  then have "is_common (zs @ [x]) (a @ [x]) (b @ [x])"
    by (simp add: is_common_def list_emb_append_mono)
  from opt_ge [OF this] show "opt a b + 1 \<le> opt (a @ [x]) (b @ [x])"
    using \<open>length zs = opt a b\<close> by simp
qed

lemma common_mono: "is_common zs a b \<Longrightarrow> subseq a a' \<Longrightarrow> subseq b b' \<Longrightarrow> is_common zs a' b'"
  by (auto simp: is_common_def intro: subseq_order.trans)

lemma opt_mono: "subseq a a' \<Longrightarrow> subseq b b' \<Longrightarrow> opt a b \<le> opt a' b'"
  by (rule opt_leI) (blast intro: opt_ge common_mono)

lemma opt_snoc_neq:
  assumes "x \<noteq> y"
  shows "opt (a @ [x]) (b @ [y]) = max (opt a (b @ [y])) (opt (a @ [x]) b)"
proof (rule antisym)
  show "opt (a @ [x]) (b @ [y]) \<le> max (opt a (b @ [y])) (opt (a @ [x]) b)"
  proof (rule opt_leI)
    fix zs assume z: "is_common zs (a @ [x]) (b @ [y])"
    then have "is_common zs a (b @ [y]) \<or> is_common zs (a @ [x]) b"
      using assms by (auto simp: is_common_def dest!: subseq_snocD)
    then show "length zs \<le> max (opt a (b @ [y])) (opt (a @ [x]) b)"
      by (auto simp: le_max_iff_disj dest: opt_ge)
  qed
next
  show "max (opt a (b @ [y])) (opt (a @ [x]) b) \<le> opt (a @ [x]) (b @ [y])"
    by (auto intro!: opt_mono)
qed

lemma opt_rev: "opt (rev a) (rev b) = opt a b"
proof -
  have "opt a b \<le> opt (rev a) (rev b)" for a b :: "'a list"
  proof (rule opt_leI)
    fix zs assume "is_common zs a b"
    then have "is_common (rev zs) (rev a) (rev b)" by (simp add: is_common_def subseq_rev_mono)
    from opt_ge [OF this] show "length zs \<le> opt (rev a) (rev b)" by simp
  qed
  from this [of a b] this [of "rev a" "rev b"] show ?thesis by simp
qed

lemma opt_cons_eq: "opt (x # a) (x # b) = opt a b + 1"
  using opt_snoc_eq [of "rev a" x "rev b"] opt_rev [of "x # a" "x # b"] opt_rev [of a b] by simp

lemma opt_prefix: "opt (p @ a) (p @ b) = length p + opt a b"
  by (induction p) (simp_all add: opt_cons_eq)

lemma opt_suffix: "opt (a @ p) (b @ p) = length p + opt a b"
  using opt_prefix [of "rev p" "rev a" "rev b"] opt_rev [of "a @ p" "b @ p"] opt_rev [of a b]
  by simp

text \<open>Every split of the second argument gives a lower bound, and some split attains it.\<close>

lemma opt_split_le: "opt a (take k b) + opt a' (drop k b) \<le> opt (a @ a') b"
proof -
  obtain y z where "is_common y a (take k b)" "length y = opt a (take k b)"
    "is_common z a' (drop k b)" "length z = opt a' (drop k b)"
    using opt_attained by metis
  moreover from this have "is_common (y @ z) (a @ a') (take k b @ drop k b)"
    unfolding is_common_def by (blast intro: list_emb_append_mono)
  ultimately show ?thesis using opt_ge [of "y @ z" "a @ a'" b] by simp
qed

lemma opt_split_attained: "\<exists>k \<le> length b. opt (a @ a') b \<le> opt a (take k b) + opt a' (drop k b)"
proof -
  obtain zs where z: "is_common zs (a @ a') b" "length zs = opt (a @ a') b"
    using opt_attained by blast
  then obtain y y' where zs: "zs = y @ y'" "subseq y a" "subseq y' a'"
    by (auto simp: is_common_def subseq_append_iff)
  with z obtain c c' where c: "b = c @ c'" "subseq y c" "subseq y' c'"
    by (auto simp: is_common_def dest: list_emb_appendD)
  with zs have "is_common y a c" "is_common y' a' c'" by (simp_all add: is_common_def)
  from this [THEN opt_ge] have "length zs \<le> opt a c + opt a' c'" using zs(1) by simp
  with z c show ?thesis by (intro exI [of _ "length c"]) simp
qed

section \<open>The rows hold the optimum of every prefix\<close>

definition row_spec :: "'a list \<Rightarrow> 'a list \<Rightarrow> nat list" where
  "row_spec a b = map (\<lambda>j. opt a (take j b)) [0..<Suc (length b)]"

lemma lcs_cells_spec:
  assumes "k \<le> length b"
  shows "lcs_cells x (drop k b) (map (\<lambda>j. opt a (take j b)) [k..<Suc (length b)])
           (opt (a @ [x]) (take k b))
         = map (\<lambda>j. opt (a @ [x]) (take j b)) [Suc k..<Suc (length b)]"
  using assms
proof (induction "length b - k" arbitrary: k)
  case 0
  then show ?case by simp
next
  case (Suc n)
  then have k: "k < length b" by simp
  then have d: "drop k b = b ! k # drop (Suc k) b" by (simp add: Cons_nth_drop_Suc)
  from k have u: "[k..<Suc (length b)] = k # Suc k # [Suc (Suc k)..<Suc (length b)]"
    by (simp add: upt_conv_Cons)
  from k have t: "take (Suc k) b = take k b @ [b ! k]" by (simp add: take_Suc_conv_app_nth)
  have v: "(if x = b ! k then opt a (take k b) + 1
            else if opt a (take (Suc k) b) \<ge> opt (a @ [x]) (take k b)
                 then opt a (take (Suc k) b) else opt (a @ [x]) (take k b))
           = opt (a @ [x]) (take (Suc k) b)"
    by (auto simp: t opt_snoc_eq opt_snoc_neq)
  have "lcs_cells x (drop (Suc k) b) (map (\<lambda>j. opt a (take j b)) [Suc k..<Suc (length b)])
          (opt (a @ [x]) (take (Suc k) b))
        = map (\<lambda>j. opt (a @ [x]) (take j b)) [Suc (Suc k)..<Suc (length b)]"
    by (rule Suc.hyps(1)) (use Suc.hyps(2) k in auto)
  then have "lcs_cells x (drop k b) (map (\<lambda>j. opt a (take j b)) [k..<Suc (length b)])
      (opt (a @ [x]) (take k b))
    = opt (a @ [x]) (take (Suc k) b)
      # map (\<lambda>j. opt (a @ [x]) (take j b)) [Suc (Suc k)..<Suc (length b)]"
    unfolding d u list.map lcs_cells.simps Let_def v
    using k by (simp add: upt_conv_Cons del: upt_Suc)
  then show ?case using k by (simp add: upt_conv_Cons del: upt_Suc)
qed

lemma lcs_step_spec: "lcs_step b (row_spec a b) x = row_spec (a @ [x]) b"
  using lcs_cells_spec [of 0 b x a]
  by (simp add: lcs_step_def row_spec_def upt_conv_Cons del: upt_Suc)

lemma foldl_lcs_step: "foldl (lcs_step b) (row_spec a0 b) a = row_spec (a0 @ a) b"
  by (induction a arbitrary: a0) (simp_all add: lcs_step_spec)

lemma row_spec_Nil: "row_spec [] b = replicate (Suc (length b)) 0"
  by (simp add: row_spec_def map_replicate_const del: upt_Suc)

lemma lcsRow_forward: "j \<le> length b \<Longrightarrow> lcsRow a b False ! j = opt a (take j b)"
  using foldl_lcs_step [of b "[]" a]
  by (simp add: lcsRow_def row_spec_Nil) (simp add: row_spec_def del: upt_Suc)

lemma lcsRow_backward:
  assumes "j \<le> length b"
  shows "lcsRow a b True ! j = opt a (drop (length b - j) b)"
proof -
  have "lcsRow a b True ! j = opt (rev a) (take j (rev b))"
    using foldl_lcs_step [of "rev b" "[]" "rev a"] assms
    by (simp add: lcsRow_def row_spec_Nil) (simp add: row_spec_def del: upt_Suc)
  also have "take j (rev b) = rev (drop (length b - j) b)" by (simp add: take_rev)
  finally show ?thesis by (simp add: opt_rev)
qed

lemma length_lcsRow: "length (lcsRow a b r) = Suc (length b)"
  using foldl_lcs_step [of "rev b" "[]" "rev a"] foldl_lcs_step [of b "[]" a]
  by (cases r) (simp_all add: lcsRow_def row_spec_Nil, simp_all add: row_spec_def)

section \<open>The split\<close>

lemma split_fold:
  fixes H T :: "nat list" and n :: nat
  defines "f \<equiv> \<lambda>k. H ! k + T ! (n - k)"
  assumes "(s, k) = foldl (split_step H T n) (-1, 0) [0..<Suc m]"
  shows "k \<le> m \<and> s = int (f k) \<and> (\<forall>j \<le> m. f j \<le> f k) \<and> (\<forall>j \<le> m. k < j \<longrightarrow> f j < f k)"
  using assms(2)
proof (induction m arbitrary: s k)
  case 0
  then show ?case by (simp add: split_step_def f_def)
next
  case (Suc m)
  obtain s' k' where r: "(s', k') = foldl (split_step H T n) (-1, 0) [0..<Suc m]"
    by (metis surj_pair)
  note IH = Suc.IH [OF r]
  have e: "(s, k) = split_step H T n (s', k') (Suc m)"
    using Suc.prems r by simp
  show ?case
  proof (cases "f (Suc m) \<ge> f k'")
    case True
    with e IH have "k = Suc m" "s = int (f (Suc m))"
      by (auto simp: split_step_def f_def Let_def)
    with True IH show ?thesis by (auto simp: le_Suc_eq intro: le_trans)
  next
    case False
    with e IH have "k = k'" "s = s'" by (auto simp: split_step_def f_def Let_def)
    with False IH show ?thesis by (auto simp: le_Suc_eq)
  qed
qed

lemma best_split_max:
  "best_split H T n \<le> n"
  "j \<le> n \<Longrightarrow> H ! j + T ! (n - j) \<le> H ! (best_split H T n) + T ! (n - best_split H T n)"
  "j \<le> n \<Longrightarrow> best_split H T n < j \<Longrightarrow>
     H ! j + T ! (n - j) < H ! (best_split H T n) + T ! (n - best_split H T n)"
proof -
  have "(fst (foldl (split_step H T n) (-1, 0) [0..<Suc n]), best_split H T n)
        = foldl (split_step H T n) (-1, 0) [0..<Suc n]"
    by (simp add: best_split_def)
  from split_fold [OF this] show "best_split H T n \<le> n"
    "j \<le> n \<Longrightarrow> H ! j + T ! (n - j) \<le> H ! (best_split H T n) + T ! (n - best_split H T n)"
    "j \<le> n \<Longrightarrow> best_split H T n < j \<Longrightarrow>
     H ! j + T ! (n - j) < H ! (best_split H T n) + T ! (n - best_split H T n)"
    by auto
qed

text \<open>The split point Hirschberg's algorithm takes at \<open>mid\<close>.\<close>

definition hsplit :: "'a list \<Rightarrow> nat \<Rightarrow> 'a list \<Rightarrow> nat" where
  "hsplit a mid b =
     best_split (lcsRow (take mid a) b False) (lcsRow (drop mid a) b True) (length b)"

lemma hsplit_rows:
  assumes "k \<le> length b"
  shows "lcsRow (take mid a) b False ! k + lcsRow (drop mid a) b True ! (length b - k)
         = opt (take mid a) (take k b) + opt (drop mid a) (drop k b)"
  using assms by (simp add: lcsRow_forward lcsRow_backward)

lemma hsplit_optimal:
  "hsplit a mid b \<le> length b"
  "opt (take mid a) (take (hsplit a mid b) b) + opt (drop mid a) (drop (hsplit a mid b) b)
     = opt a b"
proof -
  let ?H = "lcsRow (take mid a) b False" and ?T = "lcsRow (drop mid a) b True"
  let ?s = "hsplit a mid b"
  show s: "?s \<le> length b" by (simp add: hsplit_def best_split_max)
  obtain k where k: "k \<le> length b"
    "opt (take mid a @ drop mid a) b \<le> opt (take mid a) (take k b) + opt (drop mid a) (drop k b)"
    using opt_split_attained by blast
  from best_split_max(2) [OF k(1), of ?H ?T] have
    "opt (take mid a) (take k b) + opt (drop mid a) (drop k b)
     \<le> opt (take mid a) (take ?s b) + opt (drop mid a) (drop ?s b)"
    using hsplit_rows [OF k(1), of mid a] hsplit_rows [OF s, of mid a] by (simp add: hsplit_def)
  moreover have "opt (take mid a) (take ?s b) + opt (drop mid a) (drop ?s b) \<le> opt a b"
    using opt_split_le [of "take mid a" ?s b "drop mid a"] by simp
  ultimately show "opt (take mid a) (take ?s b) + opt (drop mid a) (drop ?s b) = opt a b"
    using k(2) by simp
qed

section \<open>Hirschberg and LCS attain the optimum\<close>

lemma opt_single: "opt [x] b = (if x \<in> set b then 1 else 0)"
proof (cases "x \<in> set b")
  case True
  then have "is_common [x] [x] b" by (auto simp: is_common_def subseq_singleton_left)
  from opt_ge [OF this] have "1 \<le> opt [x] b" by simp
  moreover have "opt [x] b \<le> 1"
    by (rule opt_leI) (auto simp: is_common_def dest: list_emb_length)
  ultimately show ?thesis using True by simp
next
  case False
  have "opt [x] b \<le> 0"
  proof (rule opt_leI)
    fix zs assume "is_common zs [x] b"
    then have "subseq zs [x]" "subseq zs b" by (simp_all add: is_common_def)
    then show "length zs \<le> 0"
      using False by (cases zs) (auto dest: list_emb_set split: if_splits)
  qed
  with False show ?thesis by simp
qed

lemma hirschberg_correct:
  "\<exists>zs. hirschberg a b out = out @ zs \<and> is_common zs a b \<and> length zs = opt a b"
proof (induction a b out rule: hirschberg.induct)
  case (1 a b out)
  consider "a = [] \<or> b = []" | "a \<noteq> []" "b \<noteq> []" "length a = 1"
    | "a \<noteq> []" "b \<noteq> []" "length a \<noteq> 1" by blast
  then show ?case
  proof cases
    case 1
    then show ?thesis by (subst hirschberg.simps) auto
  next
    case 2
    then obtain x where a: "a = [x]" by (auto simp: length_Suc_conv)
    show ?thesis
    proof (cases "x \<in> set b")
      case True
      with 2 a show ?thesis
        by (subst hirschberg.simps) (auto simp: opt_single is_common_def subseq_singleton_left)
    next
      case False
      with 2 a show ?thesis by (subst hirschberg.simps) (auto simp: opt_single)
    qed
  next
    case 3
    let ?m = "length a div 2" and ?s = "hsplit a (length a div 2) b"
    have neq: "\<not> (a = [] \<or> b = [])" using 3 by simp
    note IH = "1.IH" [OF neq 3(3) refl refl refl refl, folded hsplit_def]
    from IH(1) obtain y where y: "hirschberg (take ?m a) (take ?s b) out = out @ y"
      "is_common y (take ?m a) (take ?s b)" "length y = opt (take ?m a) (take ?s b)" by blast
    from IH(2) [OF refl] obtain z where z:
      "hirschberg (drop ?m a) (drop ?s b) (out @ y) = (out @ y) @ z"
      "is_common z (drop ?m a) (drop ?s b)" "length z = opt (drop ?m a) (drop ?s b)"
      using y(1) by auto
    have "hirschberg a b out = out @ (y @ z)"
      using 3 y(1) z(1) by (subst hirschberg.simps) (simp add: Let_def hsplit_def)
    moreover have "is_common (y @ z) (take ?m a @ drop ?m a) (take ?s b @ drop ?s b)"
      using y(2) z(2) unfolding is_common_def by (blast intro: list_emb_append_mono)
    moreover have "length (y @ z) = opt a b" using y(3) z(3) hsplit_optimal(2) by simp
    ultimately show ?thesis by (metis append_take_drop_id)
  qed
qed

lemma common_head_prefix:
  "common_head a b \<le> length a \<and> common_head a b \<le> length b \<and>
   take (common_head a b) a = take (common_head a b) b"
  by (induction a b rule: common_head.induct) auto

lemma LCS_shape:
  assumes "a \<noteq> []" and "b \<noteq> []"
  shows "\<exists>p a' b' q. a = p @ a' @ q \<and> b = p @ b' @ q \<and> LCS a b = hirschberg a' b' p @ q"
proof -
  let ?h = "common_head a b"
  let ?t = "common_head (rev (drop ?h a)) (rev (drop ?h b))"
  let ?q = "drop (length a - ?t) a"
  have h: "?h \<le> length a" "?h \<le> length b" "take ?h a = take ?h b"
    using common_head_prefix [of a b] by auto
  have t: "?t \<le> length a - ?h" "?t \<le> length b - ?h"
    "take ?t (rev (drop ?h a)) = take ?t (rev (drop ?h b))"
    using common_head_prefix [of "rev (drop ?h a)" "rev (drop ?h b)"] by auto
  have split: "xs = take ?h xs @ take (length xs - ?t - ?h) (drop ?h xs) @ drop (length xs - ?t) xs"
    if "?h \<le> length xs" "?t \<le> length xs - ?h" for xs :: "'a list"
  proof -
    have "drop (length xs - ?t) xs = drop (length xs - ?t - ?h) (drop ?h xs)" using that by simp
    then show ?thesis by (metis append_take_drop_id)
  qed
  have "drop (length b - ?t) b = ?q"
  proof -
    have "rev (drop (length xs - ?h - ?t) (drop ?h xs)) = take ?t (rev (drop ?h xs))"
      for xs :: "'a list" by (simp add: take_rev)
    then have "drop (length a - ?h - ?t) (drop ?h a) = drop (length b - ?h - ?t) (drop ?h b)"
      using t(3) by (metis rev_rev_ident)
    then show ?thesis using h t by (simp add: algebra_simps)
  qed
  then have "a = take ?h a @ take (length a - ?t - ?h) (drop ?h a) @ ?q"
    "b = take ?h a @ take (length b - ?t - ?h) (drop ?h b) @ ?q"
    using split [OF h(1) t(1)] split [OF h(2) t(2)] h(3) by metis+
  moreover have "LCS a b = hirschberg (take (length a - ?t - ?h) (drop ?h a))
      (take (length b - ?t - ?h) (drop ?h b)) (take ?h a) @ ?q"
    using assms by (simp add: LCS_def Let_def)
  ultimately show ?thesis by blast
qed

lemma LCS_common: "is_common (LCS a b) a b" and LCS_length: "length (LCS a b) = opt a b"
proof -
  have "is_common (LCS a b) a b \<and> length (LCS a b) = opt a b"
  proof (cases "a = [] \<or> b = []")
    case True
    then show ?thesis by (auto simp: LCS_def)
  next
    case False
    then have "\<exists>p a' b' q. a = p @ a' @ q \<and> b = p @ b' @ q \<and> LCS a b = hirschberg a' b' p @ q"
      by (intro LCS_shape) auto
    then obtain p a' b' q where s: "a = p @ a' @ q" "b = p @ b' @ q"
      "LCS a b = hirschberg a' b' p @ q" by (elim exE conjE)
    obtain zs where z: "hirschberg a' b' p = p @ zs" "is_common zs a' b'" "length zs = opt a' b'"
      using hirschberg_correct by blast
    from z(2) have "is_common (p @ zs @ q) a b"
      unfolding s is_common_def by (simp add: list_emb_append_mono)
    moreover have "length (p @ zs @ q) = opt a b"
      unfolding s using z(3) by (simp add: opt_prefix opt_suffix)
    ultimately show ?thesis using s(3) z(1) by simp
  qed
  then show "is_common (LCS a b) a b" "length (LCS a b) = opt a b" by auto
qed

lemma LCS_same [simp]: "LCS a a = a"
proof -
  have "length (LCS a a) = length a" using opt_prefix [of a "[]" "[]"] by (simp add: LCS_length)
  moreover have "subseq (LCS a a) a" using LCS_common [of a a] by (simp add: is_common_def)
  ultimately show ?thesis by (rule subseq_same_length [rotated])
qed

end
