(* ===== verification/Anchors.thy ===== *)
theory Anchors
  imports LcsOptimal
begin

text \<open>
  What \<^verbatim>\<open>AlignLCS\<close> promises to the three-way merge: an anchor map pairs equal lines, in
  increasing order on both sides, and pairs as many as any common subsequence could.
\<close>

definition anchor_map :: "'a list \<Rightarrow> 'a list \<Rightarrow> int list \<Rightarrow> bool" where
  "anchor_map base target m =
     (length m = length base \<and>
      (\<forall>i < length base. m ! i = -1 \<or>
         0 \<le> m ! i \<and> nat (m ! i) < length target \<and> target ! nat (m ! i) = base ! i) \<and>
      (\<forall>j < length base. \<forall>i < j. 0 \<le> m ! i \<longrightarrow> 0 \<le> m ! j \<longrightarrow> m ! i < m ! j))"

definition anchor_count :: "int list \<Rightarrow> nat" where
  "anchor_count m = length (filter (\<lambda>v. 0 \<le> v) m)"

section \<open>The scans\<close>

lemma scan_to_ge: "i \<le> scan_to xs x i"
proof (induction xs x i rule: scan_to.induct)
  case (1 xs x i)
  then show ?case by (subst scan_to.simps) (auto dest: Suc_leD)
qed

lemma scan_to_hit: "scan_to xs x i < length xs \<Longrightarrow> xs ! scan_to xs x i = x"
proof (induction xs x i rule: scan_to.induct)
  case (1 xs x i)
  show ?case
  proof (cases "i < length xs \<and> xs ! i \<noteq> x")
    case True
    then have "scan_to xs x i = scan_to xs x (Suc i)" by (subst scan_to.simps) simp
    with 1 True show ?thesis by simp
  next
    case False
    then have "scan_to xs x i = i" by (subst scan_to.simps) auto
    with 1(2) False show ?thesis by simp
  qed
qed

lemma scan_to_subseq:
  "subseq (c # cs) (drop i xs) \<Longrightarrow>
     scan_to xs c i < length xs \<and> subseq cs (drop (Suc (scan_to xs c i)) xs)"
proof (induction xs c i rule: scan_to.induct)
  case (1 xs c i)
  then have i: "i < length xs" by (metis drop_eq_Nil list_emb_Cons_Nil not_le)
  then have d: "drop i xs = xs ! i # drop (Suc i) xs" by (simp add: Cons_nth_drop_Suc)
  show ?case
  proof (cases "xs ! i = c")
    case True
    then have "scan_to xs c i = i" by (subst scan_to.simps) simp
    with 1(2) True i d show ?thesis by simp
  next
    case False
    with i have "scan_to xs c i = scan_to xs c (Suc i)" by (subst scan_to.simps) simp
    with 1 False i d show ?thesis by (auto split: if_splits)
  qed
qed

section \<open>The loop\<close>

text \<open>What holds between two rounds: the map is complete below \<open>bi\<close> and untouched above.\<close>

definition align_inv :: "'a list \<Rightarrow> 'a list \<Rightarrow> nat \<Rightarrow> nat \<Rightarrow> int list \<Rightarrow> bool" where
  "align_inv base target bi ti m =
     (anchor_map base target m \<and>
      (\<forall>i < length base. bi \<le> i \<longrightarrow> m ! i = -1) \<and>
      (\<forall>i < length base. m ! i < int ti))"

lemma align_inv_step:
  assumes "align_inv base target bi ti m"
    and "bi \<le> b" "b < length base" "ti \<le> t" "t < length target" "base ! b = target ! t"
  shows "align_inv base target (Suc b) (Suc t) (m[b := int t])"
proof -
  have lt: "m ! i < int t" if "i < length base" for i
    using that assms(1,4) by (fastforce simp: align_inv_def)
  have above: "m ! i = -1" if "i < length base" "b \<le> i" for i
    using that assms(1,2) by (auto simp: align_inv_def)
  have len: "length m = length base" using assms(1) by (simp add: align_inv_def anchor_map_def)
  have "m[b := int t] ! i < m[b := int t] ! j"
    if "j < length base" "i < j" "0 \<le> m[b := int t] ! i" "0 \<le> m[b := int t] ! j" for i j
  proof (cases "j = b")
    case True
    with that len lt [of i] show ?thesis by simp
  next
    case False
    then have "m[b := int t] ! j = m ! j" by simp
    with that above [of j] have "j < b" by (cases "j < b") auto
    with that assms(1) len show ?thesis by (auto simp: align_inv_def anchor_map_def)
  qed
  moreover have "m[b := int t] ! i = -1 \<or> 0 \<le> m[b := int t] ! i \<and>
      nat (m[b := int t] ! i) < length target \<and> target ! nat (m[b := int t] ! i) = base ! i"
    if "i < length base" for i
    using that assms len by (cases "i = b") (auto simp: align_inv_def anchor_map_def)
  ultimately have "anchor_map base target (m[b := int t])"
    using len by (simp add: anchor_map_def)
  moreover have "m[b := int t] ! i < int (Suc t)" if "i < length base" for i
    using that lt [of i] len by (cases "i = b") auto
  ultimately show ?thesis using above len by (auto simp: align_inv_def)
qed

lemma align_loop_anchor:
  "align_inv base target bi ti m \<Longrightarrow> anchor_map base target (align_loop base target cs bi ti m)"
proof (induction base target cs bi ti m rule: align_loop.induct)
  case (1 base target bi ti m)
  then show ?case by (simp add: align_inv_def)
next
  case (2 base target c cs bi ti m)
  let ?b = "scan_to base c bi" and ?t = "scan_to target c ti"
  show ?case
  proof (cases "bi < length base \<and> ti < length target \<and> ?b < length base \<and> ?t < length target")
    case True
    then have "align_inv base target (Suc ?b) (Suc ?t) (m[?b := int ?t])"
      using 2(2) by (intro align_inv_step) (auto simp: scan_to_ge scan_to_hit)
    with 2(1) True show ?thesis by (simp add: Let_def)
  next
    case False
    with 2(2) show ?thesis by (auto simp: Let_def align_inv_def)
  qed
qed

lemma anchor_count_set:
  "i < length m \<Longrightarrow> m ! i = -1 \<Longrightarrow> anchor_count (m[i := int t]) = Suc (anchor_count m)"
proof (induction m arbitrary: i)
  case (Cons a m)
  then show ?case by (cases i) (auto simp: anchor_count_def)
qed simp

lemma align_loop_count:
  assumes "align_inv base target bi ti m"
    and "subseq cs (drop bi base)" and "subseq cs (drop ti target)"
  shows "anchor_count (align_loop base target cs bi ti m) = anchor_count m + length cs"
  using assms
proof (induction base target cs bi ti m rule: align_loop.induct)
  case (1 base target bi ti m)
  then show ?case by simp
next
  case (2 base target c cs bi ti m)
  let ?b = "scan_to base c bi" and ?t = "scan_to target c ti"
  have b: "?b < length base" "subseq cs (drop (Suc ?b) base)"
    using scan_to_subseq [OF 2(3)] by auto
  have t: "?t < length target" "subseq cs (drop (Suc ?t) target)"
    using scan_to_subseq [OF 2(4)] by auto
  have inv: "align_inv base target (Suc ?b) (Suc ?t) (m[?b := int ?t])"
    using 2(2) b t by (intro align_inv_step) (auto simp: scan_to_ge scan_to_hit)
  have bt: "bi < length base" "ti < length target"
    using b(1) t(1) scan_to_ge [of bi base c] scan_to_ge [of ti target c] by auto
  have "m ! ?b = -1" "?b < length m"
    using 2(2) b(1) scan_to_ge [of bi base c] by (auto simp: align_inv_def anchor_map_def)
  from anchor_count_set [OF this(2) this(1)]
  have "anchor_count (m[?b := int ?t]) = Suc (anchor_count m)" .
  moreover have "anchor_count (align_loop base target cs (Suc ?b) (Suc ?t) (m[?b := int ?t]))
      = anchor_count (m[?b := int ?t]) + length cs"
    using "2.IH" [OF _ refl refl] bt b t inv by simp
  ultimately show ?case using bt b(1) t(1) by (simp add: Let_def)
qed

section \<open>AlignLCS\<close>

lemma align_inv_start: "align_inv base target 0 0 (replicate (length base) (-1))"
  by (simp add: align_inv_def anchor_map_def)

lemma anchor_map_AlignLCS: "anchor_map base target (AlignLCS base target)"
  using align_loop_anchor [OF align_inv_start, of base target "LCS base target"] align_inv_start
  by (auto simp: AlignLCS_def Let_def align_inv_def) (simp add: anchor_map_def)

lemma length_AlignLCS [simp]: "length (AlignLCS base target) = length base"
  using anchor_map_AlignLCS [of base target] by (simp add: anchor_map_def)

lemma anchor_count_AlignLCS: "anchor_count (AlignLCS base target) = opt base target"
proof -
  have "anchor_count (replicate n (-1)) = 0" for n by (simp add: anchor_count_def)
  moreover have "subseq (LCS base target) base" "subseq (LCS base target) target"
    using LCS_common [of base target] by (simp_all add: is_common_def)
  ultimately show ?thesis
    using align_loop_count [OF align_inv_start, of "LCS base target" base target]
    by (auto simp: AlignLCS_def Let_def LCS_length)
qed

lemma AlignLCS_nth:
  assumes "i < length base" and "AlignLCS base target ! i \<noteq> -1"
  shows "0 \<le> AlignLCS base target ! i" "nat (AlignLCS base target ! i) < length target"
    "target ! nat (AlignLCS base target ! i) = base ! i"
  using assms anchor_map_AlignLCS [of base target] by (auto simp: anchor_map_def)

text \<open>A text aligned with itself anchors every line to itself.\<close>

lemma align_loop_self:
  "k \<le> length xs \<Longrightarrow>
     align_loop xs xs (drop k xs) k k (map int [0..<k] @ replicate (length xs - k) (-1))
     = map int [0..<length xs]"
proof (induction "length xs - k" arbitrary: k)
  case 0
  then show ?case by simp
next
  case (Suc n)
  then have k: "k < length xs" by simp
  then have d: "drop k xs = xs ! k # drop (Suc k) xs" by (simp add: Cons_nth_drop_Suc)
  have s: "scan_to xs (xs ! k) k = k" by (subst scan_to.simps) simp
  have u: "(map int [0..<k] @ replicate (length xs - k) (-1))[k := int k]
      = map int [0..<Suc k] @ replicate (length xs - Suc k) (-1)"
    using k by (auto simp: list_update_append Suc_diff_Suc [symmetric])
  have "align_loop xs xs (drop (Suc k) xs) (Suc k) (Suc k)
      (map int [0..<Suc k] @ replicate (length xs - Suc k) (-1)) = map int [0..<length xs]"
    by (rule Suc.hyps(1)) (use Suc.hyps(2) k in auto)
  then show ?case unfolding d using k by (simp add: s u Let_def del: upt_Suc)
qed

lemma AlignLCS_self: "AlignLCS xs xs = map int [0..<length xs]"
  using align_loop_self [of 0 xs] by (simp add: AlignLCS_def Let_def)

end
