(* ===== verification/TimeFmt.thy ===== *)
theory TimeFmt
  imports Prelude
begin

text \<open>
  The two timestamp renderings: \<^verbatim>\<open>isoOf\<close> of \<^verbatim>\<open>go/diff.go\<close>, which dates a conflict marker, and
  \<^verbatim>\<open>Humanify\<close> of \<^verbatim>\<open>go/util.go\<close>, which the audit and the meta log record. Both format
  \<^verbatim>\<open>time.UnixMilli(when).UTC()\<close>; the calendar of Go's \<^verbatim>\<open>time\<close> package (proleptic Gregorian,
  UTC) is computed here with floor division, so instants before 1970 come out right.
\<close>

section \<open>Decimal numerals\<close>

fun show_nat :: "nat \<Rightarrow> string" where
  "show_nat n = (if n < 10 then [char_of (n + 48)] else show_nat (n div 10) @ [char_of (n mod 10 + 48)])"

declare show_nat.simps [simp del]

definition show_int :: "int \<Rightarrow> string" where
  "show_int i = (if i < 0 then ''-'' @ show_nat (nat (- i)) else show_nat (nat i))"

text \<open>A value printed with at least \<open>w\<close> digits, as \<^verbatim>\<open>%0wd\<close> and Go's date layouts pad it.\<close>

definition pad :: "nat \<Rightarrow> int \<Rightarrow> string" where
  "pad w i = replicate (w - length (show_nat (nat i))) (CHR ''0'') @ show_nat (nat i)"

definition is_digit :: "char \<Rightarrow> bool" where
  "is_digit c = (48 \<le> (of_char c :: nat) \<and> (of_char c :: nat) \<le> 57)"

definition digits_value :: "string \<Rightarrow> int" where
  "digits_value s = foldl (\<lambda>n c. 10 * n + int (of_char c - 48)) 0 s"

section \<open>The calendar\<close>

record datetime =
  dt_year :: int
  dt_month :: int
  dt_day :: int
  dt_hour :: int
  dt_minute :: int
  dt_second :: int
  dt_milli :: int

text \<open>Year, month and day of a day number counted from 1970-01-01.\<close>

definition civil :: "int \<Rightarrow> int \<times> int \<times> int" where
  "civil days =
     (let z = days + 719468;
          era = z div 146097;
          doe = z mod 146097;
          yoe = (doe - doe div 1460 + doe div 36524 - doe div 146096) div 365;
          doy = doe - (365 * yoe + yoe div 4 - yoe div 100);
          mp = (5 * doy + 2) div 153;
          d = doy - (153 * mp + 2) div 5 + 1;
          m = (if mp < 10 then mp + 3 else mp - 9);
          y = yoe + era * 400
      in (if m \<le> 2 then y + 1 else y, m, d))"

definition utc_of :: "int \<Rightarrow> datetime" where
  "utc_of when =
     (let (y, m, d) = civil (when div 86400000);
          r = when mod 86400000
      in \<lparr>dt_year = y, dt_month = m, dt_day = d,
          dt_hour = r div 3600000, dt_minute = r div 60000 mod 60,
          dt_second = r div 1000 mod 60, dt_milli = r mod 1000\<rparr>)"

text \<open>The layout \<^verbatim>\<open>-01-02T15:04:05.000Z\<close>.\<close>

definition after_year :: "datetime \<Rightarrow> string" where
  "after_year t =
     ''-'' @ pad 2 (dt_month t) @ ''-'' @ pad 2 (dt_day t) @ ''T'' @
     pad 2 (dt_hour t) @ '':'' @ pad 2 (dt_minute t) @ '':'' @ pad 2 (dt_second t) @
     ''.'' @ pad 3 (dt_milli t) @ ''Z''"

section \<open>isoOf\<close>

definition maxDateMs :: int where "maxDateMs = 8640000000000000"

definition isoOf :: "int \<Rightarrow> string" where
  "isoOf when =
     (let t = utc_of (min (max when (- maxDateMs)) maxDateMs);
          y = dt_year t;
          year = (if y < 0 then ''-'' @ pad 6 (- y)
                  else if 9999 < y then ''+'' @ pad 6 y
                  else pad 4 y)
      in year @ after_year t)"

section \<open>Humanify\<close>

text \<open>
  The default form: the digits of the ISO text without the last one, read back as an \<^verbatim>\<open>int64\<close>.
  The year of the layout \<^verbatim>\<open>2006\<close> is at least four digits with a sign only when negative;
  \<^verbatim>\<open>strconv.ParseInt\<close> answers the largest \<^verbatim>\<open>int64\<close> when the digits exceed it.
\<close>

definition max_int64 :: int where "max_int64 = 9223372036854775807"

definition iso_layout :: "int \<Rightarrow> string" where
  "iso_layout when =
     (let t = utc_of when; y = dt_year t
      in (if y < 0 then ''-'' @ pad 4 (- y) else pad 4 y) @ after_year t)"

definition HumanifyDigits :: "int \<Rightarrow> int" where
  "HumanifyDigits when =
     min (digits_value (butlast (filter is_digit (iso_layout when)))) max_int64"

text \<open>The parts form, which reads the fields of the ISO text back.\<close>

definition HumanifyParts :: "int \<Rightarrow> datetime" where
  "HumanifyParts when =
     (let parts = fields_func (\<lambda>c. c \<in> set ''-:T.Z'') (iso_layout when);
          toI = digits_value
      in \<lparr>dt_year = toI (parts ! 0), dt_month = toI (parts ! 1), dt_day = toI (parts ! 2),
          dt_hour = toI (parts ! 3), dt_minute = toI (parts ! 4),
          dt_second = toI (parts ! 5), dt_milli = toI (parts ! 6)\<rparr>)"

section \<open>Numerals are digits\<close>

lemma show_nat_digits: "\<forall>c \<in> set (show_nat n). is_digit c"
proof (induction n rule: show_nat.induct)
  case (1 n)
  have d: "is_digit (char_of (m + 48))" if "m < 10" for m :: nat
    using that by (simp add: is_digit_def)
  show ?case
  proof (cases "n < 10")
    case True
    then show ?thesis using d by (subst show_nat.simps) simp
  next
    case False
    with 1 d [of "n mod 10"] show ?thesis by (subst show_nat.simps) auto
  qed
qed

lemma show_nat_not_Nil [simp]: "show_nat n \<noteq> []"
  by (subst show_nat.simps) simp

lemma digits_value_append: "digits_value (s @ t) = digits_value s * 10 ^ length t + digits_value t"
proof (induction t rule: rev_induct)
  case (snoc c t)
  then show ?case by (simp add: digits_value_def algebra_simps)
qed (simp add: digits_value_def)

text \<open>Reading a printed number back gives the number.\<close>

lemma digits_value_show_nat: "digits_value (show_nat n) = int n"
proof (induction n rule: show_nat.induct)
  case (1 n)
  show ?case
  proof (cases "n < 10")
    case True
    then show ?thesis by (subst show_nat.simps) (simp add: digits_value_def)
  next
    case False
    then have "digits_value (show_nat n)
        = digits_value (show_nat (n div 10)) * 10 + digits_value [char_of (n mod 10 + 48)]"
      by (subst show_nat.simps) (simp add: digits_value_append)
    also have "\<dots> = int n" using 1 False by (simp add: digits_value_def zdiv_int zmod_int)
    finally show ?thesis .
  qed
qed

lemma digits_value_zeros: "digits_value (replicate k (CHR ''0'') @ s) = digits_value s"
proof -
  have "foldl (\<lambda>n c. 10 * n + int (of_char c - 48)) 0 (replicate k (CHR ''0'')) = 0"
    by (induction k) simp_all
  then show ?thesis by (simp add: digits_value_def)
qed

lemma digits_value_pad: "0 \<le> i \<Longrightarrow> digits_value (pad w i) = i"
  by (simp add: pad_def digits_value_zeros digits_value_show_nat)

lemma pad_digits: "\<forall>c \<in> set (pad w i). is_digit c"
  using show_nat_digits [of "nat i"] by (auto simp: pad_def is_digit_def)

lemma isoOf_epoch: "isoOf 0 = ''1970-01-01T00:00:00.000Z''"
  by code_simp

lemma isoOf_sample: "isoOf 1700000000123 = ''2023-11-14T22:13:20.123Z''"
  by code_simp

lemma isoOf_before_epoch: "isoOf (-1) = ''1969-12-31T23:59:59.999Z''"
  by code_simp

end
