(* ===== verification/Merge.thy ===== *)
theory Merge
  imports Anchors TimeFmt
begin

text \<open>
  The rest of \<^verbatim>\<open>go/diff.go\<close>: conflict markers and their recognition, the labels, the three-way
  \<^verbatim>\<open>Merge\<close>, and the two-way \<^verbatim>\<open>Hunks\<close> and \<^verbatim>\<open>Diff\<close>. A slice expression that Go would panic on is
  \<open>None\<close>, so that \<^verbatim>\<open>Merge\<close> and \<^verbatim>\<open>Hunks\<close> return an option; that they always return \<open>Some\<close> is
  proved below.
\<close>

section \<open>Types\<close>

record DiffLabels =
  lb_generated :: string
  lb_existing :: string

record DiffSpec =
  ds_when :: int
  ds_last :: int
  ds_kind :: string
  ds_labels :: "DiffLabels option"

datatype MergeOutcome = MergeSame | MergeClean | MergeUnresolved | MergeMerged

record MergeResult =
  mr_content :: string
  mr_conflict :: bool
  mr_outcome :: MergeOutcome

datatype DiffOutcome = DiffSame | DiffChanged

record DiffResult =
  dr_content :: string
  dr_conflict :: bool
  dr_outcome :: DiffOutcome

section \<open>Markers\<close>

definition markStart :: string where "markStart = ''<<<<<<< ''"
definition markMid :: string where "markMid = ''======='' @ [NL]"
definition markEnd :: string where "markEnd = ''>>>>>>> ''"
definition labelGenerated :: string where "labelGenerated = ''GENERATED''"
definition labelExisting :: string where "labelExisting = ''EXISTING''"

definition defaultMarks :: "string list" where
  "defaultMarks =
     [markStart @ labelExisting @ '':'', markEnd @ labelExisting @ '':'',
      markStart @ labelGenerated @ '':'', markEnd @ labelGenerated @ '':'']"

definition hasLine :: "string \<Rightarrow> string \<Rightarrow> bool" where
  "hasLine text mark = (has_prefix text mark \<or> str_contains text (NL # mark))"

definition HasConflictsLabels :: "string \<Rightarrow> DiffLabels \<Rightarrow> bool" where
  "HasConflictsLabels text labels =
     ((\<exists>mark \<in> set defaultMarks. hasLine text mark) \<or>
      (\<exists>label \<in> set [lb_existing labels, lb_generated labels]. label \<noteq> [] \<and>
         (hasLine text (markStart @ label @ [NL]) \<or> hasLine text (markEnd @ label @ [NL]))))"

definition noLabels :: DiffLabels where
  "noLabels = \<lparr>lb_generated = [], lb_existing = []\<rparr>"

definition HasConflictsLabel :: "string \<Rightarrow> string \<Rightarrow> bool" where
  "HasConflictsLabel text existingLabel =
     HasConflictsLabels text \<lparr>lb_generated = [], lb_existing = existingLabel\<rparr>"

definition HasConflicts :: "string \<Rightarrow> bool" where
  "HasConflicts text = HasConflictsLabels text noLabels"

definition labelsOf :: "DiffSpec \<Rightarrow> string \<Rightarrow> DiffLabels" where
  "labelsOf spec defaultKind =
     (let kind = (if ds_kind spec = [] then defaultKind else ds_kind spec);
          gen = labelGenerated @ '': '' @ isoOf (ds_when spec) @ ''/'' @ kind;
          ext = labelExisting @ '': '' @ isoOf (ds_last spec) @ ''/'' @ kind
      in (case ds_labels spec of
            None \<Rightarrow> \<lparr>lb_generated = gen, lb_existing = ext\<rparr>
          | Some l \<Rightarrow>
              \<lparr>lb_generated = (if lb_generated l \<noteq> [] then lb_generated l else gen),
               lb_existing = (if lb_existing l \<noteq> [] then lb_existing l else ext)\<rparr>))"

section \<open>Writing a conflict\<close>

text \<open>\<^verbatim>\<open>out[i:j]\<close>: None is the run-time panic.\<close>

definition slice :: "'a list \<Rightarrow> nat \<Rightarrow> nat \<Rightarrow> 'a list option" where
  "slice xs i j = (if i \<le> j \<and> j \<le> length xs then Some (take (j - i) (drop i xs)) else None)"

definition endsWithNewline :: "string list \<Rightarrow> bool" where
  "endsWithNewline out = has_suffix (last out) [NL]"

definition writeConflict ::
  "string list \<Rightarrow> string list \<Rightarrow> string list \<Rightarrow> DiffLabels \<Rightarrow> string list" where
  "writeConflict out generated existing labels =
     (let out1 = out @ [markStart @ lb_existing labels @ [NL]] @ existing;
          out2 = (if endsWithNewline out1 then out1 else out1 @ [[NL]]);
          out3 = out2 @ [markMid] @ generated;
          out4 = (if endsWithNewline out3 then out3 else out3 @ [[NL]])
      in out4 @ [markEnd @ lb_generated labels @ [NL]])"

section \<open>The merge loop\<close>

text \<open>The three \<^verbatim>\<open>switch\<close> statements: the insertions in front of an anchor (and the tail), and a region.\<close>

definition reconcile_insert ::
  "DiffLabels \<Rightarrow> string list \<Rightarrow> string list \<Rightarrow> string list \<times> bool \<Rightarrow> string list \<times> bool" where
  "reconcile_insert labels gIns eIns oc =
     (if gIns = eIns then (fst oc @ gIns, snd oc)
      else if length gIns = 0 then (fst oc @ eIns, snd oc)
      else if length eIns = 0 then (fst oc @ gIns, snd oc)
      else (writeConflict (fst oc) gIns eIns labels, True))"

definition reconcile_region ::
  "DiffLabels \<Rightarrow> string list \<Rightarrow> string list \<Rightarrow> string list \<Rightarrow> string list \<times> bool
     \<Rightarrow> string list \<times> bool" where
  "reconcile_region labels bRegion gRegion eRegion oc =
     (if bRegion = gRegion then (fst oc @ eRegion, snd oc)
      else if bRegion = eRegion then (fst oc @ gRegion, snd oc)
      else if gRegion = eRegion then (fst oc @ gRegion, snd oc)
      else (writeConflict (fst oc) gRegion eRegion labels, True))"

definition is_anchor :: "int list \<Rightarrow> int list \<Rightarrow> nat \<Rightarrow> bool" where
  "is_anchor gMap eMap k = (0 \<le> gMap ! k \<and> 0 \<le> eMap ! k)"

function next_anchor :: "int list \<Rightarrow> int list \<Rightarrow> nat \<Rightarrow> nat \<Rightarrow> nat" where
  "next_anchor gMap eMap n k =
     (if k < n \<and> \<not> is_anchor gMap eMap k then next_anchor gMap eMap n (Suc k) else k)"
  by pat_completeness auto
termination
  by (relation "measure (\<lambda>(g, e, n, k). n - k)") auto

declare next_anchor.simps [simp del]

lemma next_anchor_ge: "k \<le> next_anchor gMap eMap n k"
proof (induction gMap eMap n k rule: next_anchor.induct)
  case (1 g e n k)
  then show ?case by (subst next_anchor.simps) (auto dest: Suc_leD)
qed

lemma next_anchor_gt: "k < n \<Longrightarrow> \<not> is_anchor gMap eMap k \<Longrightarrow> k < next_anchor gMap eMap n k"
  by (subst next_anchor.simps) (auto simp: Suc_le_eq [symmetric] next_anchor_ge)

text \<open>
  The loop over the baseline: output lines and conflict flag, then \<open>bi\<close>, \<open>gi\<close> and \<open>ei\<close>. It
  ends with the output so far and the two positions.
\<close>

function merge_loop ::
  "DiffLabels \<Rightarrow> string list \<Rightarrow> string list \<Rightarrow> string list \<Rightarrow> int list \<Rightarrow> int list
     \<Rightarrow> string list \<times> bool \<Rightarrow> nat \<Rightarrow> nat \<Rightarrow> nat
     \<Rightarrow> ((string list \<times> bool) \<times> nat \<times> nat) option" where
  "merge_loop labels bl gl el gMap eMap oc bi gi ei =
     (if bi < length bl then
        (if is_anchor gMap eMap bi then
           (case slice gl gi (nat (gMap ! bi)) of
              None \<Rightarrow> None
            | Some gIns \<Rightarrow>
                (case slice el ei (nat (eMap ! bi)) of
                   None \<Rightarrow> None
                 | Some eIns \<Rightarrow>
                     (let oc' = reconcile_insert labels gIns eIns oc
                      in merge_loop labels bl gl el gMap eMap (fst oc' @ [bl ! bi], snd oc')
                           (bi + 1) (nat (gMap ! bi) + 1) (nat (eMap ! bi) + 1))))
         else
           (let nextBi = next_anchor gMap eMap (length bl) bi;
                gNext = (if nextBi < length bl then nat (gMap ! nextBi) else length gl);
                eNext = (if nextBi < length bl then nat (eMap ! nextBi) else length el)
            in (case slice bl bi nextBi of
                  None \<Rightarrow> None
                | Some bRegion \<Rightarrow>
                    (case slice gl gi gNext of
                       None \<Rightarrow> None
                     | Some gRegion \<Rightarrow>
                         (case slice el ei eNext of
                            None \<Rightarrow> None
                          | Some eRegion \<Rightarrow>
                              merge_loop labels bl gl el gMap eMap
                                (reconcile_region labels bRegion gRegion eRegion oc)
                                nextBi gNext eNext)))))
      else Some (oc, gi, ei))"
  by pat_completeness auto
termination
proof (relation "measure (\<lambda>(labels, bl, gl, el, gMap, eMap, oc, bi, gi, ei). length bl - bi)",
    goal_cases)
  case (3 labels bl gl el gMap eMap oc bi gi ei)
  then show ?case using next_anchor_gt [of bi "length bl" gMap eMap] by simp
qed auto

declare merge_loop.simps [simp del]

definition merge_lines ::
  "DiffLabels \<Rightarrow> string list \<Rightarrow> string list \<Rightarrow> string list \<Rightarrow> (string list \<times> bool) option" where
  "merge_lines labels gl bl el =
     (case merge_loop labels bl gl el (AlignLCS bl gl) (AlignLCS bl el) ([], False) 0 0 0 of
        None \<Rightarrow> None
      | Some (oc, gi, ei) \<Rightarrow>
          (if gi < length gl \<or> ei < length el then
             (case slice gl gi (length gl) of
                None \<Rightarrow> None
              | Some gTail \<Rightarrow>
                  (case slice el ei (length el) of
                     None \<Rightarrow> None
                   | Some eTail \<Rightarrow> Some (reconcile_insert labels gTail eTail oc)))
           else Some oc))"

definition Merge :: "string \<Rightarrow> string \<Rightarrow> string \<Rightarrow> DiffSpec \<Rightarrow> MergeResult option" where
  "Merge generated baseline existing spec =
     (if generated = existing then
        Some \<lparr>mr_content = existing, mr_conflict = False, mr_outcome = MergeSame\<rparr>
      else if existing = baseline then
        Some \<lparr>mr_content = generated, mr_conflict = False, mr_outcome = MergeClean\<rparr>
      else if HasConflictsLabels existing
                (case ds_labels spec of None \<Rightarrow> noLabels | Some l \<Rightarrow> l) then
        Some \<lparr>mr_content = existing, mr_conflict = False, mr_outcome = MergeUnresolved\<rparr>
      else
        (case merge_lines (labelsOf spec ''merge'') (Lines generated) (Lines baseline)
                (Lines existing) of
           None \<Rightarrow> None
         | Some (out, conflict) \<Rightarrow>
             Some \<lparr>mr_content = concat out, mr_conflict = conflict,
                   mr_outcome = MergeMerged\<rparr>))"

section \<open>Hunks and Diff\<close>

definition hunkSame :: nat where "hunkSame = 0"
definition hunkChange :: nat where "hunkChange = 1"

record Hunk =
  hk_kind :: nat
  hk_generated :: "string list"
  hk_existing :: "string list"

definition flush_hunk :: "string list \<Rightarrow> string list \<Rightarrow> Hunk list \<Rightarrow> Hunk list" where
  "flush_hunk g e out =
     (if length g = 0 \<and> length e = 0 then out
      else out @ [\<lparr>hk_kind = hunkChange, hk_generated = g, hk_existing = e\<rparr>])"

definition same_hunk :: "string \<Rightarrow> Hunk list \<Rightarrow> Hunk list" where
  "same_hunk line out =
     (if length out > 0 \<and> hk_kind (last out) = hunkSame
      then butlast out @ [(last out)\<lparr>hk_generated := hk_generated (last out) @ [line]\<rparr>]
      else out @ [\<lparr>hk_kind = hunkSame, hk_generated = [line], hk_existing = []\<rparr>])"

fun hunks_loop ::
  "string list \<Rightarrow> string list \<Rightarrow> string list \<Rightarrow> nat \<Rightarrow> nat \<Rightarrow> Hunk list \<Rightarrow> nat \<times> nat \<times> Hunk list" where
  "hunks_loop generated existing [] gi ei out = (gi, ei, out)"
| "hunks_loop generated existing (line # common) gi ei out =
     (let gi' = scan_to generated line gi;
          ei' = scan_to existing line ei;
          g = take (gi' - gi) (drop gi generated);
          e = take (ei' - ei) (drop ei existing)
      in hunks_loop generated existing common (gi' + 1) (ei' + 1)
           (same_hunk line (flush_hunk g e out)))"

definition Hunks :: "string list \<Rightarrow> string list \<Rightarrow> Hunk list option" where
  "Hunks generated existing =
     (let (gi, ei, out) = hunks_loop generated existing (LCS generated existing) 0 0 []
      in (case slice generated gi (length generated) of
            None \<Rightarrow> None
          | Some g \<Rightarrow>
              (case slice existing ei (length existing) of
                 None \<Rightarrow> None
               | Some e \<Rightarrow> Some (flush_hunk g e out))))"

definition block_lines :: "string list \<Rightarrow> string \<Rightarrow> string list" where
  "block_lines blockLines label =
     [markStart @ label @ [NL]]
     @ concat (map (\<lambda>line. if has_suffix line [NL] then [line] else [line, [NL]]) blockLines)
     @ [markEnd @ label @ [NL]]"

definition render_hunk :: "DiffLabels \<Rightarrow> Hunk \<Rightarrow> string list" where
  "render_hunk labels hunk =
     (if hk_kind hunk = hunkSame then hk_generated hunk
      else (if length (hk_existing hunk) > 0
            then block_lines (hk_existing hunk) (lb_existing labels) else [])
         @ (if length (hk_generated hunk) > 0
            then block_lines (hk_generated hunk) (lb_generated labels) else []))"

definition Diff :: "string \<Rightarrow> string \<Rightarrow> DiffSpec \<Rightarrow> DiffResult option" where
  "Diff generated existing spec =
     (if generated = existing then
        Some \<lparr>dr_content = generated, dr_conflict = False, dr_outcome = DiffSame\<rparr>
      else
        (case Hunks (Lines generated) (Lines existing) of
           None \<Rightarrow> None
         | Some hs \<Rightarrow>
             Some \<lparr>dr_content = concat (concat (map (render_hunk (labelsOf spec ''diff'')) hs)),
                   dr_conflict = True, dr_outcome = DiffChanged\<rparr>))"

end
