(* ===== verification/MergeRule.thy ===== *)
theory MergeRule
  imports Merge
begin

text \<open>
  The proof rule for the three-way merge. A property of the merged lines is an invariant of the
  loop over the baseline; the locale \<open>merge_invariant\<close> states what such an invariant has to
  survive (the insertions in front of an anchor, the region up to the next anchor, the tail after
  the last one) and proves once that \<^verbatim>\<open>Merge\<close> then returns, without a slice out of range, a
  result with the property.
\<close>

section \<open>What one reconciliation adds\<close>

definition conflict_block :: "string list \<Rightarrow> string list \<Rightarrow> DiffLabels \<Rightarrow> string list" where
  "conflict_block g e labels =
     [markStart @ lb_existing labels @ [NL]] @ e
     @ (if e = [] \<or> has_suffix (last e) [NL] then [] else [[NL]])
     @ [markMid] @ g
     @ (if g = [] \<or> has_suffix (last g) [NL] then [] else [[NL]])
     @ [markEnd @ lb_generated labels @ [NL]]"

lemma has_suffix_NL [simp]: "has_suffix (s @ [NL]) [NL]"
  by (simp add: has_suffix_last)

lemma markMid_NL [simp]: "has_suffix markMid [NL]"
  by (simp add: markMid_def has_suffix_last)

lemma writeConflict_eq: "writeConflict out g e labels = out @ conflict_block g e labels"
proof -
  have m: "has_suffix (markStart @ lb_existing labels @ [NL]) [NL]"
    by (simp add: has_suffix_last)
  have 1: "endsWithNewline (out @ [markStart @ lb_existing labels @ [NL]] @ e)
      = (e = [] \<or> has_suffix (last e) [NL])"
    using m by (simp add: endsWithNewline_def)
  have 2: "endsWithNewline (xs @ [markMid] @ g) = (g = [] \<or> has_suffix (last g) [NL])" for xs
    by (simp add: endsWithNewline_def)
  show ?thesis
    unfolding writeConflict_def Let_def 1 2 conflict_block_def by simp
qed

text \<open>The three outcomes of an insertion and of a region, as the piece they add.\<close>

lemma reconcile_insert_cases:
  obtains (generated) "reconcile_insert labels g e (out, c) = (out @ g, c)" "g = e \<or> e = []"
  | (existing) "reconcile_insert labels g e (out, c) = (out @ e, c)" "g = []"
  | (conflict) "reconcile_insert labels g e (out, c) = (out @ conflict_block g e labels, True)"
      "g \<noteq> e" "g \<noteq> []" "e \<noteq> []"
  by (cases "g = e"; cases "g = []"; cases "e = []")
    (simp_all add: reconcile_insert_def writeConflict_eq that)

lemma reconcile_region_cases:
  obtains (existing) "reconcile_region labels b g e (out, c) = (out @ e, c)" "b = g"
  | (generated) "reconcile_region labels b g e (out, c) = (out @ g, c)" "b = e \<or> g = e"
  | (conflict) "reconcile_region labels b g e (out, c) = (out @ conflict_block g e labels, True)"
      "b \<noteq> g" "b \<noteq> e" "g \<noteq> e"
  by (cases "b = g"; cases "b = e"; cases "g = e")
    (simp_all add: reconcile_region_def writeConflict_eq that)

lemma reconcile_insert_Nil [simp]: "reconcile_insert labels [] [] oc = oc"
  by (simp add: reconcile_insert_def)

section \<open>Positions\<close>

text \<open>Both positions are in range and no later anchor lies before them.\<close>

definition ok_pos ::
  "string list \<Rightarrow> string list \<Rightarrow> string list \<Rightarrow> int list \<Rightarrow> int list \<Rightarrow> nat \<Rightarrow> nat \<Rightarrow> nat \<Rightarrow> bool" where
  "ok_pos bl gl el gM eM bi gi ei =
     (gi \<le> length gl \<and> ei \<le> length el \<and>
      (\<forall>k. bi \<le> k \<and> k < length bl \<and> is_anchor gM eM k \<longrightarrow>
         gi \<le> nat (gM ! k) \<and> ei \<le> nat (eM ! k)))"

lemma is_anchor_maps:
  assumes "anchor_map bl gl gM" and "anchor_map bl el eM" and "k < length bl" and "is_anchor gM eM k"
  shows "nat (gM ! k) < length gl" "gl ! nat (gM ! k) = bl ! k"
    "nat (eM ! k) < length el" "el ! nat (eM ! k) = bl ! k"
  using assms by (auto simp: anchor_map_def is_anchor_def)

lemma is_anchor_less:
  assumes "anchor_map bl gl gM" and "anchor_map bl el eM" and "k < k'" and "k' < length bl"
    and "is_anchor gM eM k" and "is_anchor gM eM k'"
  shows "nat (gM ! k) < nat (gM ! k')" "nat (eM ! k) < nat (eM ! k')"
proof -
  have "gM ! k < gM ! k'" "eM ! k < eM ! k'" "0 \<le> gM ! k" "0 \<le> eM ! k"
    using assms by (auto simp: anchor_map_def is_anchor_def)
  then show "nat (gM ! k) < nat (gM ! k')" "nat (eM ! k) < nat (eM ! k')" by simp_all
qed

lemma ok_pos_anchor:
  assumes "anchor_map bl gl gM" and "anchor_map bl el eM"
    and "bi < length bl" and "is_anchor gM eM bi"
  shows "ok_pos bl gl el gM eM (bi + 1) (nat (gM ! bi) + 1) (nat (eM ! bi) + 1)"
  using is_anchor_maps [OF assms] is_anchor_less [OF assms(1,2) _ _ assms(4)] assms(3)
  by (auto simp: ok_pos_def Suc_le_eq)

lemma ok_pos_next:
  assumes "anchor_map bl gl gM" and "anchor_map bl el eM"
    and "nb < length bl" and "is_anchor gM eM nb"
  shows "ok_pos bl gl el gM eM nb (nat (gM ! nb)) (nat (eM ! nb))"
proof -
  have "nat (gM ! nb) \<le> nat (gM ! k) \<and> nat (eM ! nb) \<le> nat (eM ! k)"
    if "nb \<le> k" "k < length bl" "is_anchor gM eM k" for k
    using that is_anchor_less [OF assms(1,2) _ _ assms(4), of k] by (cases "nb = k") auto
  then show ?thesis
    using is_anchor_maps [OF assms] by (auto simp: ok_pos_def)
qed

lemma next_anchor_stop:
  "next_anchor gM eM n k < n \<Longrightarrow> is_anchor gM eM (next_anchor gM eM n k)"
proof (induction gM eM n k rule: next_anchor.induct)
  case (1 g e n k)
  then show ?case
    by (cases "k < n \<and> \<not> is_anchor g e k") (subst (asm) (3) next_anchor.simps,
        subst next_anchor.simps, auto simp: next_anchor.simps [of g e n k])
qed

lemma next_anchor_le: "k \<le> n \<Longrightarrow> next_anchor gM eM n k \<le> n"
proof (induction gM eM n k rule: next_anchor.induct)
  case (1 g e n k)
  then show ?case by (subst next_anchor.simps) auto
qed

section \<open>The invariant rule\<close>

locale merge_invariant =
  fixes labels :: DiffLabels
    and bl gl el :: "string list"
    and P :: "string list \<Rightarrow> bool \<Rightarrow> nat \<Rightarrow> nat \<Rightarrow> nat \<Rightarrow> bool"
    and Q :: "string list \<Rightarrow> bool \<Rightarrow> bool"
  assumes start: "P [] False 0 0 0"
    and at_anchor:
      "\<And>out c bi gi ei g e out' c'. P out c bi gi ei \<Longrightarrow> bi < length bl \<Longrightarrow>
         gi \<le> g \<Longrightarrow> g < length gl \<Longrightarrow> gl ! g = bl ! bi \<Longrightarrow> g = nat (AlignLCS bl gl ! bi) \<Longrightarrow>
         ei \<le> e \<Longrightarrow> e < length el \<Longrightarrow> el ! e = bl ! bi \<Longrightarrow>
         reconcile_insert labels (take (g - gi) (drop gi gl)) (take (e - ei) (drop ei el)) (out, c)
           = (out', c') \<Longrightarrow> e = nat (AlignLCS bl el ! bi) \<Longrightarrow>
         P (out' @ [bl ! bi]) c' (Suc bi) (Suc g) (Suc e)"
    and at_region:
      "\<And>out c bi gi ei nb g e out' c'. P out c bi gi ei \<Longrightarrow> bi < nb \<Longrightarrow> gi \<le> g \<Longrightarrow> ei \<le> e \<Longrightarrow>
         nb < length bl \<and> g < length gl \<and> gl ! g = bl ! nb \<and> g = nat (AlignLCS bl gl ! nb) \<and>
           e < length el \<and> el ! e = bl ! nb \<and> e = nat (AlignLCS bl el ! nb) \<or>
         nb = length bl \<and> g = length gl \<and> e = length el \<Longrightarrow>
         reconcile_region labels (take (nb - bi) (drop bi bl)) (take (g - gi) (drop gi gl))
           (take (e - ei) (drop ei el)) (out, c) = (out', c') \<Longrightarrow>
         P out' c' nb g e"
    and at_tail:
      "\<And>out c gi ei out' c'. P out c (length bl) gi ei \<Longrightarrow> gi \<le> length gl \<Longrightarrow> ei \<le> length el \<Longrightarrow>
         reconcile_insert labels (drop gi gl) (drop ei el) (out, c) = (out', c') \<Longrightarrow> Q out' c'"
begin

abbreviation gM :: "int list" where "gM \<equiv> AlignLCS bl gl"
abbreviation eM :: "int list" where "eM \<equiv> AlignLCS bl el"

lemmas maps = anchor_map_AlignLCS [of bl gl] anchor_map_AlignLCS [of bl el]

lemma loop:
  assumes "P out c bi gi ei" and "bi \<le> length bl" and "ok_pos bl gl el gM eM bi gi ei"
  shows "\<exists>out' c' gi' ei'. merge_loop labels bl gl el gM eM (out, c) bi gi ei = Some ((out', c'), gi', ei')
     \<and> P out' c' (length bl) gi' ei' \<and> gi' \<le> length gl \<and> ei' \<le> length el"
  using assms
proof (induction "length bl - bi" arbitrary: out c bi gi ei rule: less_induct)
  case less
  note P = less.prems(1) and ok = less.prems(3)
  consider "bi = length bl" | "bi < length bl" "is_anchor gM eM bi"
    | "bi < length bl" "\<not> is_anchor gM eM bi" using less.prems(2) by linarith
  then show ?case
  proof cases
    case 1
    then show ?thesis using P ok by (subst merge_loop.simps) (simp add: ok_pos_def)
  next
    case 2
    let ?g = "nat (gM ! bi)" and ?e = "nat (eM ! bi)"
    have le: "gi \<le> ?g" "ei \<le> ?e" using ok 2 by (auto simp: ok_pos_def)
    note lt = is_anchor_maps [OF maps 2]
    obtain out' c' where r: "reconcile_insert labels (take (?g - gi) (drop gi gl))
        (take (?e - ei) (drop ei el)) (out, c) = (out', c')" by (metis surj_pair)
    from at_anchor [OF P 2(1) le(1) lt(1,2) refl le(2) lt(3,4) r refl]
    have "P (out' @ [bl ! bi]) c' (Suc bi) (Suc ?g) (Suc ?e)" .
    moreover have "merge_loop labels bl gl el gM eM (out, c) bi gi ei
        = merge_loop labels bl gl el gM eM (out' @ [bl ! bi], c') (Suc bi) (Suc ?g) (Suc ?e)"
      using 2 le lt r by (subst merge_loop.simps) (simp add: slice_def Let_def)
    ultimately show ?thesis
      using less.hyps [of "Suc bi" "out' @ [bl ! bi]" c' "Suc ?g" "Suc ?e"] 2 ok_pos_anchor [OF maps 2]
      by simp
  next
    case 3
    let ?n = "next_anchor gM eM (length bl) bi"
    let ?g = "if ?n < length bl then nat (gM ! ?n) else length gl"
    let ?e = "if ?n < length bl then nat (eM ! ?n) else length el"
    have n: "bi < ?n" "?n \<le> length bl" using 3 next_anchor_gt next_anchor_le by auto
    have end_or: "?n < length bl \<and> ?g < length gl \<and> gl ! ?g = bl ! ?n \<and> ?g = nat (gM ! ?n) \<and>
        ?e < length el \<and> el ! ?e = bl ! ?n \<and> ?e = nat (eM ! ?n) \<or> ?n = length bl \<and> ?g = length gl \<and> ?e = length el"
      using n(2) is_anchor_maps [OF maps, of ?n] next_anchor_stop [of gM eM "length bl" bi] by auto
    have le: "gi \<le> ?g" "ei \<le> ?e"
      using ok n next_anchor_stop [of gM eM "length bl" bi] by (auto simp: ok_pos_def)
    obtain out' c' where r: "reconcile_region labels (take (?n - bi) (drop bi bl))
        (take (?g - gi) (drop gi gl)) (take (?e - ei) (drop ei el)) (out, c) = (out', c')"
      by (metis surj_pair)
    from at_region [OF P n(1) le end_or r] have "P out' c' ?n ?g ?e" .
    moreover have "merge_loop labels bl gl el gM eM (out, c) bi gi ei
        = merge_loop labels bl gl el gM eM (out', c') ?n ?g ?e"
      using 3 le end_or n r [symmetric] by (subst merge_loop.simps) (auto simp: slice_def Let_def)
    moreover have "ok_pos bl gl el gM eM ?n ?g ?e"
      using end_or ok_pos_next [OF maps, of ?n] next_anchor_stop [of gM eM "length bl" bi]
      by (auto simp: ok_pos_def)
    ultimately show ?thesis using less.hyps [of ?n out' c' ?g ?e] n by simp
  qed
qed

theorem result: "\<exists>out c. merge_lines labels gl bl el = Some (out, c) \<and> Q out c"
proof -
  have "ok_pos bl gl el gM eM 0 0 0" by (simp add: ok_pos_def)
  from loop [OF start _ this] obtain out c gi ei where l:
    "merge_loop labels bl gl el gM eM ([], False) 0 0 0 = Some ((out, c), gi, ei)"
    "P out c (length bl) gi ei" "gi \<le> length gl" "ei \<le> length el" by auto
  obtain out' c' where r: "reconcile_insert labels (drop gi gl) (drop ei el) (out, c) = (out', c')"
    by (metis surj_pair)
  have "merge_lines labels gl bl el = Some (out', c')"
    using l r by (auto simp: merge_lines_def slice_def)
  with at_tail [OF l(2-4) r] show ?thesis by blast
qed

end

section \<open>The merge never slices out of range\<close>

interpretation merge_runs: merge_invariant labels bl gl el "\<lambda>_ _ _ _ _. True" "\<lambda>_ _. True"
  for labels bl gl el
  by unfold_locales simp_all

end
