(* ===== verification/MergeProps.thy ===== *)
theory MergeProps
  imports MergeRule
begin

text \<open>
  The properties of the line engine of \<^verbatim>\<open>go/diff.go\<close>: \<^verbatim>\<open>LCS\<close> is a longest common subsequence;
  the three-way merge always returns, keeps every line either side added, adds nothing of its own
  unless it marks a conflict, and a marked conflict is recognised by the next run; the two-way
  hunks lose nothing.
\<close>

section \<open>Invariants of the merge loop\<close>

lemma subseq_conflict_block:
  "subseq e (conflict_block g e labels)" "subseq g (conflict_block g e labels)"
  unfolding conflict_block_def by (meson list_emb_append2 list_emb_prefix subseq_order.refl)+

lemma take_extend: "i \<le> j \<Longrightarrow> take j xs = take i xs @ take (j - i) (drop i xs)"
  by (metis le_add_diff_inverse take_add)

lemma take_extend_Suc:
  "i \<le> j \<Longrightarrow> j < length xs \<Longrightarrow> take (Suc j) xs = take i xs @ take (j - i) (drop i xs) @ [xs ! j]"
  by (simp add: take_Suc_conv_app_nth take_extend [of i j])

lemma in_take_drop: "x \<in> set (take n (drop k xs)) \<Longrightarrow> x \<in> set xs"
  by (meson in_set_dropD in_set_takeD)

lemma filter_new_slice: "filter (\<lambda>x. x \<notin> set bl) (take n (drop k bl)) = []"
  by (auto simp: filter_empty_conv dest: in_take_drop)

subsection \<open>What each reconciliation keeps\<close>

lemma subseq_filter_intro:
  "subseq x out \<Longrightarrow> subseq (x @ filter N e) (out @ e)"
  "subseq x out \<Longrightarrow> subseq (x @ filter N e) (out @ conflict_block e' e labels)"
  "subseq x out \<Longrightarrow> subseq (x @ filter N e) (out @ conflict_block e e' labels)"
  using subseq_conflict_block
  by (auto intro!: list_emb_append_mono intro: subseq_order.trans [OF subseq_filter_left])

lemma subseq_filter_Nil: "subseq x out \<Longrightarrow> filter N e = [] \<Longrightarrow> subseq (x @ filter N e) (out @ g)"
  by (simp add: list_emb_prefix)

lemma insert_keeps:
  assumes "reconcile_insert labels g e (out, c) = (out', c')" and "subseq x out"
  shows "subseq (x @ filter N e) out'" "subseq (x @ filter N g) out'"
  using assms
  by (cases rule: reconcile_insert_cases [of labels g e out c];
      auto intro: subseq_filter_intro subseq_filter_Nil list_emb_prefix)+

lemma region_keeps:
  assumes "reconcile_region labels b g e (out, c) = (out', c')" and "subseq x out"
    and "filter N b = []"
  shows "subseq (x @ filter N e) out'" "subseq (x @ filter N g) out'"
  using assms
  by (cases rule: reconcile_region_cases [of labels b g e out c];
      auto intro: subseq_filter_intro subseq_filter_Nil list_emb_prefix)+

lemma insert_sets:
  "reconcile_insert labels g e (out, c) = (out', c') \<Longrightarrow>
     c' \<or> \<not> c \<and> set out' \<subseteq> set out \<union> set g \<union> set e"
  by (cases rule: reconcile_insert_cases [of labels g e out c]) auto

lemma region_sets:
  "reconcile_region labels b g e (out, c) = (out', c') \<Longrightarrow>
     c' \<or> \<not> c \<and> set out' \<subseteq> set out \<union> set g \<union> set e"
  by (cases rule: reconcile_region_cases [of labels b g e out c]) auto

subsection \<open>Lines added on the existing side survive\<close>

interpretation keeps_existing: merge_invariant labels bl gl el
  "\<lambda>out c bi gi ei. subseq (filter (\<lambda>x. x \<notin> set bl) (take ei el)) out"
  "\<lambda>out c. subseq (filter (\<lambda>x. x \<notin> set bl) el) out"
  for labels bl gl el
proof (unfold_locales, goal_cases)
  case (2 out c bi gi ei g e out' c')
  moreover have "filter (\<lambda>x. x \<notin> set bl) [el ! e] = []" using 2(2,9) by simp
  ultimately show ?case using insert_keeps(1) [OF 2(10) 2(1), of "\<lambda>x. x \<notin> set bl"]
    by (simp add: take_extend_Suc list_emb_prefix)
next
  case (3 out c bi gi ei nb g e out' c')
  then show ?case using region_keeps(1) [OF 3(6) 3(1), of "\<lambda>x. x \<notin> set bl"]
    by (simp add: take_extend [of ei e] filter_new_slice)
next
  case (4 out c gi ei out' c')
  then show ?case using insert_keeps(1) [OF 4(4) 4(1), of "\<lambda>x. x \<notin> set bl"]
    by (simp flip: filter_append)
qed simp

subsection \<open>Lines added on the generated side survive\<close>

interpretation keeps_generated: merge_invariant labels bl gl el
  "\<lambda>out c bi gi ei. subseq (filter (\<lambda>x. x \<notin> set bl) (take gi gl)) out"
  "\<lambda>out c. subseq (filter (\<lambda>x. x \<notin> set bl) gl) out"
  for labels bl gl el
proof (unfold_locales, goal_cases)
  case (2 out c bi gi ei g e out' c')
  moreover have "filter (\<lambda>x. x \<notin> set bl) [gl ! g] = []" using 2(2,5) by simp
  ultimately show ?case using insert_keeps(2) [OF 2(10) 2(1), of "\<lambda>x. x \<notin> set bl"]
    by (simp add: take_extend_Suc list_emb_prefix)
next
  case (3 out c bi gi ei nb g e out' c')
  then show ?case using region_keeps(2) [OF 3(6) 3(1), of "\<lambda>x. x \<notin> set bl"]
    by (simp add: take_extend [of gi g] filter_new_slice)
next
  case (4 out c gi ei out' c')
  then show ?case using insert_keeps(2) [OF 4(4) 4(1), of "\<lambda>x. x \<notin> set bl"]
    by (simp flip: filter_append)
qed simp

subsection \<open>Without a conflict, every line comes from one of the two sides\<close>

interpretation from_sides: merge_invariant labels bl gl el
  "\<lambda>out c bi gi ei. c \<or> set out \<subseteq> set gl \<union> set el"
  "\<lambda>out c. c \<or> set out \<subseteq> set gl \<union> set el"
  for labels bl gl el
proof (unfold_locales, goal_cases)
  case (2 out c bi gi ei g e out' c')
  then have "bl ! bi \<in> set gl" by (metis nth_mem)
  then show ?case using 2(1) insert_sets [OF 2(10)] by (auto dest: in_take_drop)
next
  case (3 out c bi gi ei nb g e out' c')
  then show ?case using region_sets [OF 3(6)] by (auto dest: in_take_drop)
next
  case (4 out c gi ei out' c')
  then show ?case using insert_sets [OF 4(4)] by (auto dest: in_set_dropD)
qed simp

subsection \<open>With an unchanged generator, the output is the existing side\<close>

interpretation unchanged_generate: merge_invariant labels bl bl el
  "\<lambda>out c bi gi ei. gi = bi \<and> out = take ei el \<and> \<not> c" "\<lambda>out c. out = el \<and> \<not> c"
  for labels bl el
proof (unfold_locales, goal_cases)
  case (2 out c bi gi ei g e out' c')
  then have g: "g = bi" by (simp add: AlignLCS_self)
  from 2(1,10) g have "out' = out @ take (e - ei) (drop ei el) \<and> \<not> c'"
    by (auto simp: reconcile_insert_def split: if_splits)
  then show ?case using 2 g by (simp add: take_extend_Suc)
next
  case (3 out c bi gi ei nb g e out' c')
  then have g: "g = nb" by (auto simp: AlignLCS_self)
  from 3(1,6) g have "out' = out @ take (e - ei) (drop ei el) \<and> \<not> c'"
    by (auto simp: reconcile_region_def)
  then show ?case using 3 g by (simp add: take_extend [of ei e])
next
  case (4 out c gi ei out' c')
  then show ?case by (auto simp: reconcile_insert_def split: if_splits)
qed simp

subsection \<open>With an untouched file, the output is the generated side\<close>

interpretation untouched_file: merge_invariant labels bl gl bl
  "\<lambda>out c bi gi ei. ei = bi \<and> out = take gi gl \<and> \<not> c" "\<lambda>out c. out = gl \<and> \<not> c"
  for labels bl gl
proof (unfold_locales, goal_cases)
  case (2 out c bi gi ei g e out' c')
  then have e: "e = bi" by (simp add: AlignLCS_self)
  from 2(1,10) e have "out' = out @ take (g - gi) (drop gi gl) \<and> \<not> c'"
    by (auto simp: reconcile_insert_def split: if_splits)
  then show ?case using 2 e by (simp add: take_extend_Suc)
next
  case (3 out c bi gi ei nb g e out' c')
  then have e: "e = nb" by (auto simp: AlignLCS_self)
  from 3(1,6) e have "out' = out @ take (g - gi) (drop gi gl) \<and> \<not> c'"
    by (auto simp: reconcile_region_def split: if_splits)
  then show ?case using 3 e by (simp add: take_extend [of gi g])
next
  case (4 out c gi ei out' c')
  then show ?case by (auto simp: reconcile_insert_def split: if_splits)
qed simp

subsection \<open>With equal sides, the output is either of them\<close>

interpretation equal_sides: merge_invariant labels bl gl gl
  "\<lambda>out c bi gi ei. ei = gi \<and> out = take gi gl \<and> \<not> c" "\<lambda>out c. out = gl \<and> \<not> c"
  for labels bl gl
proof (unfold_locales, goal_cases)
  case (2 out c bi gi ei g e out' c')
  then have e: "e = g" by simp
  from 2(1,10) e have "out' = out @ take (g - gi) (drop gi gl) \<and> \<not> c'"
    by (auto simp: reconcile_insert_def)
  then show ?case using 2 e by (simp add: take_extend_Suc)
next
  case (3 out c bi gi ei nb g e out' c')
  then have e: "e = g" by auto
  from 3(1,6) e have "out' = out @ take (g - gi) (drop gi gl) \<and> \<not> c'"
    by (auto simp: reconcile_region_def split: if_splits)
  then show ?case using 3 e by (simp add: take_extend [of gi g])
next
  case (4 out c gi ei out' c')
  then show ?case by (auto simp: reconcile_insert_def)
qed simp

section \<open>Conflict markers start a line\<close>

definition fresh_line :: "string list \<Rightarrow> bool" where
  "fresh_line out = (concat out = [] \<or> last (concat out) = NL)"

lemma fresh_line_append:
  "fresh_line out \<Longrightarrow> \<forall>l \<in> set ls. l \<noteq> [] \<and> last l = NL \<Longrightarrow> fresh_line (out @ ls)"
proof (induction ls arbitrary: out)
  case (Cons l ls)
  then have "fresh_line (out @ [l])" by (auto simp: fresh_line_def)
  with Cons have "fresh_line ((out @ [l]) @ ls)" by (metis list.set_intros(2))
  then show ?case by simp
qed simp

lemma fresh_line_conflict: "fresh_line (out @ conflict_block g e labels)"
  by (simp add: fresh_line_def conflict_block_def)

lemma hasLine_append: "hasLine text mark \<Longrightarrow> hasLine (text @ rest) mark"
  by (auto simp: hasLine_def str_basic) (metis append_assoc append_Cons)

lemma hasLine_fresh: "fresh_line out \<Longrightarrow> hasLine (concat out @ mark @ rest) mark"
proof (cases "concat out = []")
  case False
  assume "fresh_line out"
  with False obtain u where "concat out = u @ [NL]"
    by (metis append_butlast_last_id fresh_line_def)
  then show ?thesis by (auto simp: hasLine_def str_contains_iff)
next
  case True
  then show ?thesis by (simp only: hasLine_def append_Nil has_prefix_append simp_thms)
qed

lemma hasLine_prefix: "hasLine text (mark @ rest) \<Longrightarrow> hasLine text mark"
  by (auto simp: hasLine_def str_basic)

lemma hasLine_conflict:
  assumes "fresh_line out"
  shows "hasLine (concat (out @ conflict_block g e labels)) (markStart @ lb_existing labels @ [NL])"
  using hasLine_fresh [OF assms, of "markStart @ lb_existing labels @ [NL]"]
  by (simp add: conflict_block_def)

lemma line_slice_NL:
  assumes "line_list xs" and "j < length xs" and "l \<in> set (take (j - i) (drop i xs))"
  shows "l \<noteq> [] \<and> last l = NL"
proof -
  have "i \<le> j" using assms(3) by (cases "i \<le> j") auto
  then have "l \<in> set (take j xs)" using assms(3) by (auto simp: take_extend [of i j])
  moreover have "xs = take j xs @ xs ! j # drop (Suc j) xs"
    using assms(2) by (rule id_take_nth_drop)
  ultimately show ?thesis
    using line_list_last_NL line_list_set assms(1)
    by (metis in_set_takeD is_line_def)
qed

lemma line_no_NL_is_last:
  assumes "line_list xs" and "j < length xs" and "last (xs ! j) \<noteq> NL"
  shows "Suc j = length xs"
proof (rule ccontr)
  assume "Suc j \<noteq> length xs"
  then have "Suc j < length xs" using assms(2) by simp
  moreover from this have "xs ! j \<in> set (take (Suc j - j) (drop j xs))"
    by (simp add: Cons_nth_drop_Suc [symmetric])
  ultimately show False using line_slice_NL [OF assms(1)] assms(3) by blast
qed

text \<open>
  The output is at the start of a line unless all three inputs are used up, and once a conflict
  has been written its opening marker is a line of the output.
\<close>

definition mark_inv ::
  "DiffLabels \<Rightarrow> string list \<Rightarrow> string list \<Rightarrow> string list \<Rightarrow> string list \<Rightarrow> bool \<Rightarrow> nat \<Rightarrow> nat \<Rightarrow> nat \<Rightarrow> bool" where
  "mark_inv labels bl gl el out c bi gi ei =
     ((fresh_line out \<or> bi = length bl \<and> gi = length gl \<and> ei = length el) \<and>
      (c \<longrightarrow> hasLine (concat out) (markStart @ lb_existing labels @ [NL])))"

lemma mark_insert:
  assumes "fresh_line out" and "c \<longrightarrow> hasLine (concat out) (markStart @ lb_existing labels @ [NL])"
    and "\<forall>l \<in> set g \<union> set e. l \<noteq> [] \<and> last l = NL"
    and "reconcile_insert labels g e (out, c) = (out', c')"
  shows "fresh_line out'" "c' \<longrightarrow> hasLine (concat out') (markStart @ lb_existing labels @ [NL])"
proof -
  have "fresh_line out' \<and> (c' \<longrightarrow> hasLine (concat out') (markStart @ lb_existing labels @ [NL]))"
  proof (cases rule: reconcile_insert_cases [of labels g e out c])
    case generated
    with assms show ?thesis by (auto intro: fresh_line_append simp: hasLine_append)
  next
    case existing
    with assms show ?thesis by (auto intro: fresh_line_append simp: hasLine_append)
  next
    case conflict
    with assms(4) have "out' = out @ conflict_block g e labels" by simp
    then show ?thesis using fresh_line_conflict hasLine_conflict [OF assms(1)] by (simp only: simp_thms)
  qed
  then show "fresh_line out'" "c' \<longrightarrow> hasLine (concat out') (markStart @ lb_existing labels @ [NL])"
    by simp_all
qed

interpretation marks_lines: merge_invariant labels "Lines b" "Lines g" "Lines e"
  "mark_inv labels (Lines b) (Lines g) (Lines e)"
  "\<lambda>out c. c \<longrightarrow> hasLine (concat out) (markStart @ lb_existing labels @ [NL])"
  for labels b g e
proof (unfold_locales, goal_cases)
  case 1
  show ?case by (simp add: mark_inv_def fresh_line_def)
next
  case (2 out c bi gi ei g' e' out' c')
  let ?l = "Lines b ! bi"
  have "fresh_line out" using 2(1,2) by (simp add: mark_inv_def)
  moreover have "\<forall>l \<in> set (take (g' - gi) (drop gi (Lines g))) \<union> set (take (e' - ei) (drop ei (Lines e))).
      l \<noteq> [] \<and> last l = NL"
    using 2(4,8) line_slice_NL line_list_Lines by blast
  ultimately have r: "fresh_line out'"
    "c' \<longrightarrow> hasLine (concat out') (markStart @ lb_existing labels @ [NL])"
    using mark_insert [OF _ _ _ 2(10)] 2(1) by (simp_all add: mark_inv_def)
  have "?l \<noteq> []" using line_list_set [OF line_list_Lines nth_mem [OF 2(2)]] by (simp add: is_line_def)
  then have "fresh_line (out' @ [?l]) \<or> last ?l \<noteq> NL"
    using fresh_line_append [OF r(1), of "[?l]"] by auto
  moreover have "Suc bi = length (Lines b) \<and> Suc g' = length (Lines g) \<and> Suc e' = length (Lines e)"
    if "last ?l \<noteq> NL"
    using that 2(2,4,5,8,9) line_no_NL_is_last [OF line_list_Lines] by metis
  ultimately show ?case using r(2) hasLine_append by (auto simp: mark_inv_def)
next
  case (3 out c bi gi ei nb g' e' out' c')
  have "fresh_line out" using 3(1,2,5) by (auto simp: mark_inv_def)
  have c': "c' \<longrightarrow> hasLine (concat out') (markStart @ lb_existing labels @ [NL])"
    using 3(1,6) \<open>fresh_line out\<close>
    by (cases rule: reconcile_region_cases [of labels "take (nb - bi) (drop bi (Lines b))"
        "take (g' - gi) (drop gi (Lines g))" "take (e' - ei) (drop ei (Lines e))" out c])
      (auto simp: mark_inv_def hasLine_append hasLine_conflict simp del: concat_append
        simp: concat_append [of out "take _ _"])
  show ?case
  proof (cases "nb = length (Lines b)")
    case True
    with 3(5) c' show ?thesis by (auto simp: mark_inv_def)
  next
    case False
    with 3(5) have "\<forall>l \<in> set (take (g' - gi) (drop gi (Lines g))) \<union>
        set (take (e' - ei) (drop ei (Lines e))). l \<noteq> [] \<and> last l = NL"
      using line_slice_NL line_list_Lines by blast
    then have "fresh_line out'"
      using 3(6) \<open>fresh_line out\<close>
      by (cases rule: reconcile_region_cases [of labels "take (nb - bi) (drop bi (Lines b))"
          "take (g' - gi) (drop gi (Lines g))" "take (e' - ei) (drop ei (Lines e))" out c])
        (auto intro: fresh_line_append fresh_line_conflict)
    with c' show ?thesis by (simp add: mark_inv_def)
  qed
next
  case (4 out c gi ei out' c')
  then show ?case
    by (cases rule: reconcile_insert_cases [of labels "drop gi (Lines g)" "drop ei (Lines e)" out c])
      (auto simp: mark_inv_def hasLine_append hasLine_conflict simp del: concat_append
        simp: concat_append [of out "drop _ _"])
qed

end
