(* ===== verification/DiffProps.thy ===== *)
theory DiffProps
  imports MergeProps
begin

text \<open>
  The claims about \<^verbatim>\<open>go/diff.go\<close>, over the lemmas of \<^verbatim>\<open>LcsOptimal\<close>, \<^verbatim>\<open>Anchors\<close> and \<^verbatim>\<open>MergeProps\<close>,
  and the lemmas about \<^verbatim>\<open>Hunks\<close> that two of them need.
\<close>

section \<open>Labels and their recognition\<close>

definition customLabels :: "DiffSpec \<Rightarrow> DiffLabels" where
  "customLabels spec = (case ds_labels spec of None \<Rightarrow> noLabels | Some l \<Rightarrow> l)"

lemma label_detected:
  "hasLine s (markStart @ lb_existing (labelsOf spec k) @ [NL]) \<Longrightarrow>
     HasConflictsLabels s (customLabels spec)"
  "hasLine s (markStart @ lb_generated (labelsOf spec k) @ [NL]) \<Longrightarrow>
     HasConflictsLabels s (customLabels spec)"
  using hasLine_prefix [of s "markStart @ labelExisting @ '':''"]
    hasLine_prefix [of s "markStart @ labelGenerated @ '':''"]
  by (auto simp: HasConflictsLabels_def customLabels_def labelsOf_def defaultMarks_def Let_def
      split: option.splits if_splits)

section \<open>Hunks\<close>

definition hunk_existing_lines :: "Hunk \<Rightarrow> string list" where
  "hunk_existing_lines h = (if hk_kind h = hunkSame then hk_generated h else hk_existing h)"

definition generated_side :: "Hunk list \<Rightarrow> string list" where
  "generated_side hs = concat (map hk_generated hs)"

definition existing_side :: "Hunk list \<Rightarrow> string list" where
  "existing_side hs = concat (map hunk_existing_lines hs)"

text \<open>Kinds alternate, and no change hunk is empty.\<close>

fun hunks_ok :: "Hunk list \<Rightarrow> bool" where
  "hunks_ok [] = True"
| "hunks_ok [h] = (hk_generated h \<noteq> [] \<or> hk_existing h \<noteq> [])"
| "hunks_ok (h # k # hs) =
     ((hk_generated h \<noteq> [] \<or> hk_existing h \<noteq> []) \<and> hk_kind h \<noteq> hk_kind k \<and> hunks_ok (k # hs))"

lemma hunk_kinds [simp]: "hunkSame \<noteq> hunkChange" "hunkChange \<noteq> hunkSame"
  by (simp_all add: hunkSame_def hunkChange_def)

lemma flush_sides:
  "generated_side (flush_hunk g e out) = generated_side out @ g"
  "existing_side (flush_hunk g e out) = existing_side out @ e"
  by (auto simp: flush_hunk_def generated_side_def existing_side_def hunk_existing_lines_def)

lemma same_sides:
  "generated_side (same_hunk l out) = generated_side out @ [l]"
  "existing_side (same_hunk l out) = existing_side out @ [l]"
  by (cases out rule: rev_cases;
      auto simp: same_hunk_def generated_side_def existing_side_def hunk_existing_lines_def)+

lemma hunks_ok_snoc:
  "hunks_ok (hs @ [h]) \<longleftrightarrow>
     hunks_ok hs \<and> (hk_generated h \<noteq> [] \<or> hk_existing h \<noteq> []) \<and>
     (hs = [] \<or> hk_kind (last hs) \<noteq> hk_kind h)"
proof (induction hs rule: hunks_ok.induct)
  case (3 h k hs)
  then show ?case by (cases hs) auto
qed auto

definition same_last :: "Hunk list \<Rightarrow> bool" where
  "same_last out = (out = [] \<or> hk_kind (last out) = hunkSame)"

lemma flush_ok: "hunks_ok out \<Longrightarrow> same_last out \<Longrightarrow> hunks_ok (flush_hunk g e out)"
  by (auto simp: flush_hunk_def hunks_ok_snoc same_last_def)

lemma same_hunk_ok: "hunks_ok out \<Longrightarrow> hunks_ok (same_hunk l out) \<and> same_last (same_hunk l out)"
proof (cases "out \<noteq> [] \<and> hk_kind (last out) = hunkSame")
  case True
  then obtain ys y where "out = ys @ [y]" by (metis append_butlast_last_id)
  with True show "hunks_ok out \<Longrightarrow> ?thesis"
    by (simp add: same_hunk_def hunks_ok_snoc same_last_def)
next
  case False
  then have "same_hunk l out = out @ [\<lparr>hk_kind = hunkSame, hk_generated = [l], hk_existing = []\<rparr>]"
    by (auto simp: same_hunk_def)
  with False show "hunks_ok out \<Longrightarrow> ?thesis"
    by (auto simp: hunks_ok_snoc same_last_def)
qed

lemma hunks_loop_correct:
  assumes "subseq cs (drop gi g)" and "subseq cs (drop ei e)" and "gi \<le> length g" and "ei \<le> length e"
    and "generated_side out = take gi g" and "existing_side out = take ei e"
    and "hunks_ok out" and "same_last out"
  shows "\<exists>gi' ei' out'. hunks_loop g e cs gi ei out = (gi', ei', out') \<and>
     gi' \<le> length g \<and> ei' \<le> length e \<and> generated_side out' = take gi' g \<and>
     existing_side out' = take ei' e \<and> hunks_ok out' \<and> same_last out'"
  using assms
proof (induction g e cs gi ei out rule: hunks_loop.induct)
  case (2 g e l cs gi ei out)
  let ?g = "scan_to g l gi" and ?e = "scan_to e l ei"
  let ?out = "same_hunk l (flush_hunk (take (?g - gi) (drop gi g)) (take (?e - ei) (drop ei e)) out)"
  have g: "?g < length g" "subseq cs (drop (Suc ?g) g)" "gi \<le> ?g" "g ! ?g = l"
    using scan_to_subseq [OF 2(2)] scan_to_ge scan_to_hit by auto
  have e: "?e < length e" "subseq cs (drop (Suc ?e) e)" "ei \<le> ?e" "e ! ?e = l"
    using scan_to_subseq [OF 2(3)] scan_to_ge scan_to_hit by auto
  have "generated_side ?out = take (Suc ?g) g" "existing_side ?out = take (Suc ?e) e"
    using 2(6,7) g e by (simp_all add: same_sides flush_sides take_extend_Suc [of gi] take_extend_Suc [of ei])
  moreover have "hunks_ok ?out" "same_last ?out"
    using flush_ok [OF 2(8,9)] same_hunk_ok by auto
  ultimately show ?case
    using "2.IH" [OF refl refl refl refl] g e by (simp add: Let_def)
qed simp

lemma Hunks_correct:
  "\<exists>hs. Hunks g e = Some hs \<and> generated_side hs = g \<and> existing_side hs = e \<and> hunks_ok hs"
proof -
  have "subseq (LCS g e) g" "subseq (LCS g e) e"
    using LCS_common [of g e] by (simp_all add: is_common_def)
  then obtain gi ei out where "hunks_loop g e (LCS g e) 0 0 [] = (gi, ei, out)"
    "gi \<le> length g" "ei \<le> length e" "generated_side out = take gi g"
    "existing_side out = take ei e" "hunks_ok out" "same_last out"
    using hunks_loop_correct [of "LCS g e" 0 g 0 e "[]"]
    by (auto simp: generated_side_def existing_side_def same_last_def)
  then show ?thesis
    by (simp add: Hunks_def slice_def flush_sides flush_ok)
qed

lemma all_same_sides:
  "\<forall>h \<in> set hs. hk_kind h = hunkSame \<Longrightarrow> generated_side hs = existing_side hs"
  by (induction hs) (auto simp: generated_side_def existing_side_def hunk_existing_lines_def)

lemma hunks_ok_nonempty:
  "hunks_ok hs \<Longrightarrow> h \<in> set hs \<Longrightarrow> hk_generated h \<noteq> [] \<or> hk_existing h \<noteq> []"
  by (induction hs rule: hunks_ok.induct) auto

lemma render_same:
  "\<forall>h \<in> set hs. hk_kind h = hunkSame \<Longrightarrow> concat (map (render_hunk labels) hs) = generated_side hs"
  by (induction hs) (auto simp: generated_side_def render_hunk_def)

lemma render_change:
  assumes "hk_kind h \<noteq> hunkSame" and "hk_generated h \<noteq> [] \<or> hk_existing h \<noteq> []"
  shows "\<exists>label \<in> {lb_existing labels, lb_generated labels}. \<exists>rest.
    render_hunk labels h = (markStart @ label @ [NL]) # rest"
  using assms by (auto simp: render_hunk_def block_lines_def)

lemma Diff_marks:
  assumes "generated \<noteq> existing" and "Diff generated existing spec = Some r"
  shows "\<exists>label \<in> {lb_existing (labelsOf spec ''diff''), lb_generated (labelsOf spec ''diff'')}.
    hasLine (dr_content r) (markStart @ label @ [NL])"
proof -
  let ?ls = "labelsOf spec ''diff''"
  obtain hs where hs: "Hunks (Lines generated) (Lines existing) = Some hs"
    "generated_side hs = Lines generated" "existing_side hs = Lines existing" "hunks_ok hs"
    using Hunks_correct by blast
  have "\<not> (\<forall>h \<in> set hs. hk_kind h = hunkSame)"
    using all_same_sides [of hs] hs(2,3) assms(1) by (metis concat_Lines)
  then obtain pre h post where s: "hs = pre @ h # post" "hk_kind h \<noteq> hunkSame"
    "\<forall>h \<in> set pre. hk_kind h = hunkSame"
    using split_list_first_prop [of hs "\<lambda>h. hk_kind h \<noteq> hunkSame"] by blast
  have ne: "hk_generated h \<noteq> [] \<or> hk_existing h \<noteq> []" using hs(4) s(1) hunks_ok_nonempty by auto
  have p: "generated_side pre = existing_side pre" using s(3) by (rule all_same_sides)
  have "l \<noteq> [] \<and> last l = NL" if "l \<in> set (generated_side pre)" for l
  proof -
    have "Lines generated = generated_side pre @ hk_generated h @ generated_side post"
      "Lines existing = generated_side pre @ hk_existing h @ existing_side post"
      using hs(2,3) s(1,2) p
      by (simp_all add: generated_side_def existing_side_def hunk_existing_lines_def)
    with ne obtain t y ys where "Lines t = generated_side pre @ y # ys"
      by (metis append_Cons list.exhaust)
    with that show ?thesis
      using line_list_last_NL [of "generated_side pre" y ys l] line_list_set [of _ l] line_list_Lines [of t]
      by (metis Un_iff is_line_def set_append)
  qed
  then have fresh: "fresh_line (generated_side pre)"
    using fresh_line_append [of "[]" "generated_side pre"] by (simp add: fresh_line_def)
  obtain label rest where l: "label \<in> {lb_existing ?ls, lb_generated ?ls}"
    "render_hunk ?ls h = (markStart @ label @ [NL]) # rest"
    using render_change [OF s(2) ne] by blast
  have "dr_content r = concat (generated_side pre) @ (markStart @ label @ [NL]) @
      concat (rest @ concat (map (render_hunk ?ls) post))"
    using assms hs(1) s(1) l(2) render_same [OF s(3), of ?ls] by (auto simp: Diff_def)
  then show ?thesis using hasLine_fresh [OF fresh] l(1) by metis
qed

section \<open>The outcomes of a merge\<close>

lemma merge_runs_Merge: "\<exists>r. Merge g b e spec = Some r"
  using merge_runs.result [of "labelsOf spec ''merge''" "Lines g" "Lines b" "Lines e"]
  by (auto simp: Merge_def)

lemma Merge_outcomes:
  assumes "Merge g b e spec = Some r"
  obtains (existing) "mr_content r = e" "\<not> mr_conflict r" "g = e \<or> mr_outcome r = MergeUnresolved"
  | (generated) "mr_content r = g" "\<not> mr_conflict r" "e = b"
  | (merged) out where "merge_lines (labelsOf spec ''merge'') (Lines g) (Lines b) (Lines e)
      = Some (out, mr_conflict r)" "mr_content r = concat out"
  using assms that by (auto simp: Merge_def split: if_splits option.splits)

lemma Merge_user_lines:
  assumes "Merge generated baseline existing spec = Some r"
  shows "\<exists>out. mr_content r = concat out \<and>
    subseq (filter (\<lambda>l. l \<notin> set (Lines baseline)) (Lines existing)) out"
  using assms
proof (cases rule: Merge_outcomes)
  case existing
  then show ?thesis by (intro exI [of _ "Lines existing"]) simp
next
  case generated
  then show ?thesis by (intro exI [of _ "Lines generated"]) simp
next
  case (merged out)
  then show ?thesis using keeps_existing.result [of "labelsOf spec ''merge''"
      "Lines generated" "Lines baseline" "Lines existing"] by auto
qed

section \<open>Claims: lines and the longest common subsequence\<close>

text \<open>\<^verbatim>\<open>Lines\<close> and joining are inverse to each other: joining the lines of a text gives the
  text back byte for byte, every line is non-empty with a newline at its end only, all lines but
  the last end in one, and a list of such lines is recovered from its text.\<close>

lemma Lines_roundtrip:
  "concat (Lines t) = t \<and> line_list (Lines t) \<and> (line_list ls \<longrightarrow> Lines (concat ls) = ls)"
  by (simp add: line_list_Lines Lines_concat)

lemma Lines_roundtrip_witness:
  "line_list [''a'' @ [NL], ''b''] \<and> Lines (concat [''a'' @ [NL], ''b'']) = [''a'' @ [NL], ''b'']"
  using Lines_roundtrip [of "[]" "[''a'' @ [NL], ''b'']"] by (simp add: is_line_def)

text \<open>C1: \<^verbatim>\<open>LCS\<close> (prefix and suffix trimming around Hirschberg's algorithm) returns a common
  subsequence of the two line lists, and none is longer.\<close>

theorem LCS_longest:
  "subseq (LCS a b) a \<and> subseq (LCS a b) b \<and>
   length (LCS a b) = Max (length ` {zs. subseq zs a \<and> subseq zs b})"
  using LCS_common [of a b] LCS_length [of a b] by (simp add: is_common_def opt_def)

text \<open>The tie-break of Hirschberg's split: the split point taken at \<open>mid\<close> is optimal, and every
  larger split point is strictly worse, so it is the largest optimal one.\<close>

lemma hirschberg_split_largest:
  "opt (take mid a) (take (hsplit a mid b) b) + opt (drop mid a) (drop (hsplit a mid b) b) = opt a b \<and>
   (\<forall>j \<le> length b. hsplit a mid b < j \<longrightarrow>
      opt (take mid a) (take j b) + opt (drop mid a) (drop j b) < opt a b)"
proof -
  have "opt (take mid a) (take j b) + opt (drop mid a) (drop j b) < opt a b"
    if "j \<le> length b" "hsplit a mid b < j" for j
    using best_split_max(3) [OF that [unfolded hsplit_def]] hsplit_rows [OF that(1), of mid a]
      hsplit_rows [where mid = mid and a = a and b = b, OF hsplit_optimal(1) [of a mid b]] hsplit_optimal(2) [of mid a b]
    by (simp add: hsplit_def)
  then show ?thesis by (simp add: hsplit_optimal(2))
qed

lemma hirschberg_split_largest_witness:
  "hsplit [1, 2 :: nat] 1 [1, 2] < 2 \<and>
   opt (take 1 [1, 2 :: nat]) (take 2 [1, 2]) + opt (drop 1 [1, 2 :: nat]) (drop 2 [1, 2])
     < opt [1, 2 :: nat] [1, 2]"
proof -
  have h: "hsplit [1, 2 :: nat] 1 [1, 2] < 2" by code_simp
  then show ?thesis using hirschberg_split_largest [of 1 "[1, 2 :: nat]" "[1, 2]"] by auto
qed

text \<open>C2: \<^verbatim>\<open>AlignLCS\<close> pairs equal lines, in increasing order on both sides, and anchors as many
  lines as the longest common subsequence has.\<close>

theorem AlignLCS_maximal:
  "anchor_map base target (AlignLCS base target) \<and>
   anchor_count (AlignLCS base target)
     = Max (length ` {zs. subseq zs base \<and> subseq zs target})"
  using anchor_map_AlignLCS [of base target] anchor_count_AlignLCS [of base target]
  by (simp add: opt_def is_common_def)

section \<open>Claims: the three-way merge\<close>

text \<open>C3: \<^verbatim>\<open>Merge\<close> always returns: its loop ends and no slice expression is out of range, whatever
  the three texts are.\<close>

theorem Merge_total: "\<exists>r. Merge generated baseline existing spec = Some r"
  by (rule merge_runs_Merge)

text \<open>C4: regenerating the same text keeps the file on disk byte for byte, whatever edits it
  holds, and reports no conflict.\<close>

theorem Merge_keeps_edits:
  "\<exists>r. Merge baseline baseline existing spec = Some r \<and> mr_content r = existing \<and> \<not> mr_conflict r"
  using unchanged_generate.result [of "labelsOf spec ''merge''" "Lines baseline" "Lines existing"]
  by (auto simp: Merge_def)

text \<open>C5: no line of the user's is lost: the lines of the file on disk that the last generate does
  not hold all reach the merged text, in their order, in every outcome.\<close>

theorem Merge_keeps_user_lines:
  "\<exists>r out. Merge generated baseline existing spec = Some r \<and> mr_content r = concat out \<and>
     subseq (filter (\<lambda>l. l \<notin> set (Lines baseline)) (Lines existing)) out"
  using merge_runs_Merge [of generated baseline existing spec] Merge_user_lines by blast

text \<open>C6: nor is a line of the new generate: unless the file still holds unresolved markers and is
  left alone, the generated lines the last generate does not hold all reach the merged text, in
  their order.\<close>

theorem Merge_keeps_generated_lines:
  assumes "Merge generated baseline existing spec = Some r" and "mr_outcome r \<noteq> MergeUnresolved"
  shows "\<exists>out. mr_content r = concat out \<and>
     subseq (filter (\<lambda>l. l \<notin> set (Lines baseline)) (Lines generated)) out"
  using assms(1)
proof (cases rule: Merge_outcomes)
  case existing
  then show ?thesis using assms(2) by (intro exI [of _ "Lines generated"]) auto
next
  case generated
  then show ?thesis by (intro exI [of _ "Lines generated"]) simp
next
  case (merged out)
  then show ?thesis using keeps_generated.result [of "labelsOf spec ''merge''"
      "Lines generated" "Lines baseline" "Lines existing"] by auto
qed

theorem Merge_keeps_generated_lines_witness:
  "\<exists>out. ''b'' = concat out \<and>
     subseq (filter (\<lambda>l. l \<notin> set (Lines ''a'')) (Lines ''b'')) out"
  using Merge_keeps_generated_lines [of "''b''" "''a''" "''a''"
      "\<lparr>ds_when = 0, ds_last = 0, ds_kind = [], ds_labels = None\<rparr>"]
  by (simp add: Merge_def)

text \<open>A merge that reports no conflict writes no line of its own: every line of its output is a
  line of the new generate or of the file on disk.\<close>

lemma Merge_no_conflict_lines:
  assumes "Merge generated baseline existing spec = Some r" and "\<not> mr_conflict r"
  shows "\<exists>out. mr_content r = concat out \<and> set out \<subseteq> set (Lines generated) \<union> set (Lines existing)"
  using assms(1)
proof (cases rule: Merge_outcomes)
  case existing
  then show ?thesis by (intro exI [of _ "Lines existing"]) simp
next
  case generated
  then show ?thesis by (intro exI [of _ "Lines generated"]) simp
next
  case (merged out)
  then show ?thesis using assms(2) from_sides.result [of "labelsOf spec ''merge''"
      "Lines generated" "Lines baseline" "Lines existing"] by auto
qed

lemma Merge_no_conflict_lines_witness:
  "\<exists>out. ''a'' = concat out \<and> set out \<subseteq> set (Lines ''a'') \<union> set (Lines ''a'')"
  using Merge_no_conflict_lines [of "''a''" "''b''" "''a''"
      "\<lparr>ds_when = 0, ds_last = 0, ds_kind = [], ds_labels = None\<rparr>"]
  by (simp add: Merge_def)

text \<open>The two fast paths change nothing: where the file equals the new generate, or equals the
  last one, the full merge gives the same lines as the shortcut and no conflict.\<close>

lemma Merge_fast_paths_agree:
  "merge_lines labels (Lines generated) (Lines baseline) (Lines generated)
     = Some (Lines generated, False) \<and>
   merge_lines labels (Lines generated) (Lines baseline) (Lines baseline)
     = Some (Lines generated, False)"
  using equal_sides.result [of labels "Lines generated" "Lines baseline"]
    untouched_file.result [of labels "Lines generated" "Lines baseline"]
  by auto

text \<open>C7: markers never stack: after a merge that wrote a conflict, a later merge under the same
  labels leaves the file as it is (unless the new generate or the baseline is that very text),
  whatever has been generated since.\<close>

theorem Merge_conflict_not_nested:
  assumes "Merge generated baseline existing spec = Some r" and "mr_conflict r"
    and "ds_labels spec' = ds_labels spec"
    and "generated' \<noteq> mr_content r" and "baseline' \<noteq> mr_content r"
  shows "Merge generated' baseline' (mr_content r) spec'
    = Some \<lparr>mr_content = mr_content r, mr_conflict = False, mr_outcome = MergeUnresolved\<rparr>"
proof -
  obtain out c where "merge_lines (labelsOf spec ''merge'') (Lines generated) (Lines baseline)
      (Lines existing) = Some (out, c)"
    "c \<longrightarrow> hasLine (concat out) (markStart @ lb_existing (labelsOf spec ''merge'') @ [NL])"
    using marks_lines.result by blast
  then have "hasLine (mr_content r) (markStart @ lb_existing (labelsOf spec ''merge'') @ [NL])"
    using assms(1,2) by (auto simp: Merge_def split: if_splits)
  from label_detected(1) [OF this] have "HasConflictsLabels (mr_content r) (customLabels spec')"
    using assms(3) by (simp add: customLabels_def)
  then show ?thesis using assms(4,5) by (auto simp: Merge_def customLabels_def)
qed

theorem Merge_conflict_not_nested_witness:
  "\<exists>r. Merge ''g'' ''b'' ''e'' \<lparr>ds_when = 0, ds_last = 0, ds_kind = [], ds_labels = None\<rparr> = Some r
     \<and> Merge ''new'' ''g'' (mr_content r) \<lparr>ds_when = 5, ds_last = 0, ds_kind = [], ds_labels = None\<rparr>
       = Some \<lparr>mr_content = mr_content r, mr_conflict = False, mr_outcome = MergeUnresolved\<rparr>"
proof -
  let ?s = "\<lparr>ds_when = 0, ds_last = 0, ds_kind = [], ds_labels = None\<rparr>"
  have c: "case Merge ''g'' ''b'' ''e'' ?s of
      Some r \<Rightarrow> mr_conflict r \<and> mr_content r \<noteq> ''new'' \<and> mr_content r \<noteq> ''g'' | None \<Rightarrow> False"
    by code_simp
  then obtain r where r: "Merge ''g'' ''b'' ''e'' ?s = Some r" "mr_conflict r"
    "''new'' \<noteq> mr_content r" "''g'' \<noteq> mr_content r"
    by (auto split: option.splits)
  then show ?thesis
    using Merge_conflict_not_nested [OF r(1,2) _ r(3,4),
      of "\<lparr>ds_when = 5, ds_last = 0, ds_kind = [], ds_labels = None\<rparr>"] by simp
qed

section \<open>Claims: the two-way diff\<close>

text \<open>C8: \<^verbatim>\<open>Hunks\<close> loses nothing: it always returns, each side is recovered from the hunks, no
  change hunk is empty, and changed and shared hunks alternate.\<close>

theorem Hunks_lossless:
  "\<exists>hs. Hunks generated existing = Some hs \<and> generated_side hs = generated \<and>
     existing_side hs = existing \<and> hunks_ok hs"
  by (rule Hunks_correct)

text \<open>\<^verbatim>\<open>Diff\<close> always returns; it reports a conflict exactly when the texts differ, passes an
  equal text through, and an annotated result is recognised as unresolved under the same labels,
  so a later merge will not run over it.\<close>

lemma Diff_recognised:
  "\<exists>r. Diff generated existing spec = Some r \<and> dr_conflict r = (generated \<noteq> existing) \<and>
     (if generated = existing then dr_content r = existing
      else HasConflictsLabels (dr_content r) (customLabels spec))"
proof (cases "generated = existing")
  case False
  obtain hs where "Hunks (Lines generated) (Lines existing) = Some hs" using Hunks_correct by blast
  with False obtain r where r: "Diff generated existing spec = Some r" "dr_conflict r"
    by (simp add: Diff_def)
  from Diff_marks [OF False r(1)] have "HasConflictsLabels (dr_content r) (customLabels spec)"
    using label_detected by blast
  with r False show ?thesis by simp
qed (simp add: Diff_def)

end
