(* ===== verification/FsApi.thy ===== *)
theory FsApi
  imports Prelude "HOL-Library.Word"
begin

text \<open>
  The filesystem interface of \<^verbatim>\<open>go/fs.go\<close>: \<^verbatim>\<open>FS\<close> with its optional capabilities
  \<^verbatim>\<open>exclusiveFS\<close>, \<^verbatim>\<open>chmodFS\<close> and \<^verbatim>\<open>realpathFS\<close>, as a record of operations on the provider's
  state. A provider's error is a \<^verbatim>\<open>fs.PathError\<close>; \<open>FsOther\<close> stands for a cause the module never
  tells apart.

  The locale \<open>fs_provider\<close> is the contract the file handler relies on. Whether two paths name one
  file is the provider's \<open>key\<close>; what a file holds is read off with \<open>api_ReadFile\<close>. A call that
  fails may leave its own target in any state, but nothing else.
\<close>

datatype fs_cause = FsNotExist | FsExist | FsNotDir | FsOther string

datatype fs_error = PathError (pe_op: string) (pe_path: string) (pe_cause: fs_cause)

type_synonym FileMode = "32 word"

definition ModeDir :: FileMode where "ModeDir = 0x80000000"
definition ModePerm :: FileMode where "ModePerm = 0x1FF"
definition ModeSetuid :: FileMode where "ModeSetuid = 0x800000"
definition ModeSetgid :: FileMode where "ModeSetgid = 0x400000"
definition ModeSticky :: FileMode where "ModeSticky = 0x100000"

record FileInfo =
  fi_Name :: string
  fi_Size :: nat
  fi_Mode :: FileMode
  fi_ModTime :: int
  fi_IsDir :: bool

record DirEntry =
  de_Name :: string
  de_IsDir :: bool

record 'f FS =
  api_ReadFile :: "'f \<Rightarrow> string \<Rightarrow> fs_error + bytes"
  api_WriteFile :: "'f \<Rightarrow> string \<Rightarrow> bytes \<Rightarrow> 'f \<times> fs_error option"
  api_Exists :: "'f \<Rightarrow> string \<Rightarrow> bool"
  api_Stat :: "'f \<Rightarrow> string \<Rightarrow> fs_error + FileInfo"
  api_MkdirAll :: "'f \<Rightarrow> string \<Rightarrow> 'f \<times> fs_error option"
  api_ReadDir :: "'f \<Rightarrow> string \<Rightarrow> fs_error + DirEntry list"
  api_Remove :: "'f \<Rightarrow> string \<Rightarrow> 'f \<times> fs_error option"
  api_Rename :: "'f \<Rightarrow> string \<Rightarrow> string \<Rightarrow> 'f \<times> fs_error option"
  api_WriteFileExcl :: "('f \<Rightarrow> string \<Rightarrow> bytes \<Rightarrow> 'f \<times> fs_error option) option"
  api_Chmod :: "('f \<Rightarrow> string \<Rightarrow> FileMode \<Rightarrow> 'f \<times> fs_error option) option"
  api_Realpath :: "('f \<Rightarrow> string \<Rightarrow> fs_error + string) option"

text \<open>What the file at a path holds, if it can be read.\<close>

definition held :: "'f FS \<Rightarrow> 'f \<Rightarrow> string \<Rightarrow> bytes option" where
  "held api s p = (case api_ReadFile api s p of Inl e \<Rightarrow> None | Inr b \<Rightarrow> Some b)"

text \<open>No file but those at the keys \<open>K\<close> reads differently.\<close>

definition only_changes :: "'f FS \<Rightarrow> (string \<Rightarrow> string) \<Rightarrow> string set \<Rightarrow> 'f \<Rightarrow> 'f \<Rightarrow> bool" where
  "only_changes api key K s s' = (\<forall>q. key q \<notin> K \<longrightarrow> held api s' q = held api s q)"

lemma only_changes_refl [simp]: "only_changes api key K s s"
  by (simp add: only_changes_def)

lemma only_changes_trans [trans]:
  "only_changes api key K s t \<Longrightarrow> only_changes api key K t u \<Longrightarrow> only_changes api key K s u"
  by (simp add: only_changes_def)

lemma only_changes_mono: "only_changes api key K s t \<Longrightarrow> K \<subseteq> L \<Longrightarrow> only_changes api key L s t"
  by (auto simp: only_changes_def)

lemma only_changesD: "only_changes api key K s t \<Longrightarrow> key q \<notin> K \<Longrightarrow> held api t q = held api s q"
  by (simp add: only_changes_def)

text \<open>Every file that could be read, but those at the keys \<open>K\<close>, still reads the same; new files may
  have appeared.\<close>

definition spares :: "'f FS \<Rightarrow> (string \<Rightarrow> string) \<Rightarrow> string set \<Rightarrow> 'f \<Rightarrow> 'f \<Rightarrow> bool" where
  "spares api key K s s' =
     (\<forall>q. key q \<notin> K \<longrightarrow> held api s q \<noteq> None \<longrightarrow> held api s' q = held api s q)"

lemma spares_refl [simp]: "spares api key K s s"
  by (simp add: spares_def)

lemma spares_trans [trans]: "spares api key K s t \<Longrightarrow> spares api key K t u \<Longrightarrow> spares api key K s u"
  by (simp add: spares_def)

lemma spares_mono: "spares api key K s t \<Longrightarrow> K \<subseteq> L \<Longrightarrow> spares api key L s t"
  by (auto simp: spares_def)

lemma spares_of_only: "only_changes api key K s t \<Longrightarrow> spares api key K s t"
  by (simp add: spares_def only_changes_def)

lemma sparesD: "spares api key K s t \<Longrightarrow> key q \<notin> K \<Longrightarrow> held api s q = Some b \<Longrightarrow> held api t q = Some b"
  by (simp add: spares_def)

locale fs_provider =
  fixes api :: "'f FS" and key :: "string \<Rightarrow> string" and inv :: "'f \<Rightarrow> bool"
  assumes held_key: "key p = key q \<Longrightarrow> held api s p = held api s q"
    and held_exists: "held api s p \<noteq> None \<Longrightarrow> api_Exists api s p"
    and write_ok: "inv s \<Longrightarrow> api_WriteFile api s p b = (s', None) \<Longrightarrow> held api s' p = Some b"
    and write_frame: "inv s \<Longrightarrow> api_WriteFile api s p b = (s', r) \<Longrightarrow> inv s' \<and> only_changes api key {key p} s s'"
    and excl_ok: "inv s \<Longrightarrow> api_WriteFileExcl api = Some w \<Longrightarrow> w s p b = (s', None) \<Longrightarrow>
      held api s' p = Some b \<and> held api s p = None"
    and excl_frame: "inv s \<Longrightarrow> api_WriteFileExcl api = Some w \<Longrightarrow> w s p b = (s', r) \<Longrightarrow>
      inv s' \<and> only_changes api key {key p} s s'"
    and excl_exist: "inv s \<Longrightarrow> api_WriteFileExcl api = Some w \<Longrightarrow> w s p b = (s', Some e) \<Longrightarrow>
      pe_cause e = FsExist \<Longrightarrow> only_changes api key {} s s'"
    and excl_fail: "inv s \<Longrightarrow> api_WriteFileExcl api = Some w \<Longrightarrow> w s p b = (s', Some e) \<Longrightarrow>
      held api s p \<noteq> None \<Longrightarrow> pe_cause e = FsExist"
    and mkdir_frame: "inv s \<Longrightarrow> api_MkdirAll api s p = (s', r) \<Longrightarrow> inv s' \<and> only_changes api key {} s s'"
    and remove_frame: "inv s \<Longrightarrow> api_Remove api s p = (s', r) \<Longrightarrow> inv s' \<and> only_changes api key {key p} s s'"
    and rename_ok: "inv s \<Longrightarrow> api_Rename api s p q = (s', None) \<Longrightarrow> key p \<noteq> key q \<Longrightarrow>
      held api s' q = held api s p \<and> held api s' p = None \<and> held api s p \<noteq> None"
    and rename_frame: "inv s \<Longrightarrow> api_Rename api s p q = (s', r) \<Longrightarrow>
      inv s' \<and> only_changes api key {key p, key q} s s'"
    and rename_fail: "inv s \<Longrightarrow> api_Rename api s p q = (s', Some e) \<Longrightarrow> only_changes api key {} s s'"
    and chmod_frame: "inv s \<Longrightarrow> api_Chmod api = Some c \<Longrightarrow> c s p m = (s', r) \<Longrightarrow>
      inv s' \<and> only_changes api key {} s s'"

text \<open>A provider under which a suffix that holds no separator, but more than dots, names another
  file. The handler's temporary names are of this form.\<close>

definition plain_suffix :: "string \<Rightarrow> bool" where
  "plain_suffix x = (SLASH \<notin> set x \<and> BSLASH \<notin> set x \<and> (\<exists>c \<in> set x. c \<noteq> CHR ''.''))"

locale fs_siblings = fs_provider +
  assumes key_suffix: "plain_suffix x \<Longrightarrow> key (p @ x) \<noteq> key p"

end
