(* ===== verification/Comp.thy ===== *)
theory Comp
  imports FsApi
begin

text \<open>
  Errors as values, and the sequencing of Go statements that may return one. A computation takes a
  state and gives the new state with either an error (\<^verbatim>\<open>Inl\<close>) or a value (\<^verbatim>\<open>Inr\<close>); \<open>bnd\<close> is the
  \<^verbatim>\<open>if err != nil { return err }\<close> that follows a call, and keeps what the failing call did to the
  state.

  \<open>keeps R m\<close> says that \<open>m\<close> relates every state to its successor by \<open>R\<close>, whether it fails or not;
  for a reflexive and transitive \<open>R\<close> it is composed from the parts by the rules in \<open>keeps\<close>.
\<close>

text \<open>The errors of \<^verbatim>\<open>go/errors.go\<close> and of the packages that build on them.\<close>

datatype error =
    ErrInvalidPath
  | ErrPathRefused string                         \<comment> \<open>\<^verbatim>\<open>pathError\<close>, which unwraps to \<^verbatim>\<open>ErrInvalidPath\<close>\<close>
  | ErrFs fs_error
  | ErrFh string error                            \<comment> \<open>\<^verbatim>\<open>fhError\<close>\<close>
  | ErrNoTempPath string
  | ErrNameTraversal string string
  | ErrDuplicateFilePath string string string
  | ErrInjectTargetMissing string
  | ErrCopyStat string error
  | ErrCopyTooDeep string
  | ErrMissingOp
  | ErrUnmarshal string
  | ErrTemplate string
  | ErrEmptyMatchRegex string
  | ErrLookbehind string
  | ErrNilRoot
  | ErrFromMissing string                          \<comment> \<open>\<^verbatim>\<open>fromMissingErr\<close>\<close>
  | ErrFromCheck string string error               \<comment> \<open>\<^verbatim>\<open>fromCheckErr\<close>: component, path and cause\<close>
  | ErrMsg string                                  \<comment> \<open>\<^verbatim>\<open>fmt.Errorf\<close>, by its text\<close>
  | ErrPanic                                      \<comment> \<open>a run-time panic\<close>
  | ErrMergeConflict "(string \<times> string) list"     \<comment> \<open>\<^verbatim>\<open>MergeConflictError\<close>\<close>
  | NodeError string "string list" string error   \<comment> \<open>step, path, call site and cause\<close>

text \<open>\<^verbatim>\<open>errors.As\<close> for a \<^verbatim>\<open>NodeError\<close>: the error or one it unwraps to.\<close>

fun has_node_error :: "error \<Rightarrow> bool" where
  "has_node_error (NodeError step p site e) = True"
| "has_node_error (ErrFh pre e) = has_node_error e"
| "has_node_error (ErrCopyStat from e) = has_node_error e"
| "has_node_error _ = False"

text \<open>\<^verbatim>\<open>errors.Is(err, fs.ErrExist)\<close> and \<^verbatim>\<open>errors.Is(err, fs.ErrNotExist)\<close> on a provider's error.\<close>

definition isErrExist :: "fs_error \<Rightarrow> bool" where "isErrExist e = (pe_cause e = FsExist)"
definition isErrNotExist :: "fs_error \<Rightarrow> bool" where "isErrNotExist e = (pe_cause e = FsNotExist)"

type_synonym ('s, 'a) comp = "'s \<Rightarrow> 's \<times> (error + 'a)"

definition ret :: "'a \<Rightarrow> ('s, 'a) comp" where "ret x s = (s, Inr x)"
definition fail :: "error \<Rightarrow> ('s, 'a) comp" where "fail e s = (s, Inl e)"

definition bnd :: "('s, 'a) comp \<Rightarrow> ('a \<Rightarrow> ('s, 'b) comp) \<Rightarrow> ('s, 'b) comp" where
  "bnd m f s = (case m s of (s', Inl e) \<Rightarrow> (s', Inl e) | (s', Inr x) \<Rightarrow> f x s')"

definition seq :: "('s, unit) comp \<Rightarrow> ('s, 'b) comp \<Rightarrow> ('s, 'b) comp" where
  "seq m n = bnd m (\<lambda>_. n)"

definition gets :: "('s \<Rightarrow> 'a) \<Rightarrow> ('s, 'a) comp" where "gets f s = (s, Inr (f s))"
definition modify :: "('s \<Rightarrow> 's) \<Rightarrow> ('s, unit) comp" where "modify f s = (f s, Inr ())"

text \<open>A call whose error is looked at rather than returned.\<close>

definition attempt :: "('s, 'a) comp \<Rightarrow> ('s, error + 'a) comp" where
  "attempt m s = (case m s of (s', r) \<Rightarrow> (s', Inr r))"

text \<open>None is a run-time panic.\<close>

definition or_panic :: "'a option \<Rightarrow> ('s, 'a) comp" where
  "or_panic x = (case x of None \<Rightarrow> fail ErrPanic | Some v \<Rightarrow> ret v)"

lemma or_panic_ok [simp]: "or_panic x s = (t, Inr v) \<longleftrightarrow> x = Some v \<and> t = s"
  by (auto simp: or_panic_def ret_def fail_def split: option.split)

lemma bnd_simps [simp]:
  "bnd (gets g) f s = f (g s) s" "bnd (ret x) f = f x" "bnd (fail e) f s = (s, Inl e)"
  by (auto simp: bnd_def gets_def ret_def fail_def)

lemma bnd_ret_right [simp]: "bnd m ret = m"
  by (rule ext) (auto simp: bnd_def ret_def split: prod.splits sum.splits)

lemma bnd_assoc: "bnd (bnd m f) g = bnd m (\<lambda>x. bnd (f x) g)"
  by (rule ext) (auto simp: bnd_def split: prod.splits sum.splits)

lemma bnd_run_ok: "m s = (t, Inr x) \<Longrightarrow> bnd m f s = f x t"
  by (simp add: bnd_def)

lemma bnd_run_error: "m s = (t, Inl e) \<Longrightarrow> bnd m f s = (t, Inl e)"
  by (simp add: bnd_def)

fun each :: "('a \<Rightarrow> ('s, unit) comp) \<Rightarrow> 'a list \<Rightarrow> ('s, unit) comp" where
  "each f [] = ret ()"
| "each f (x # xs) = seq (f x) (each f xs)"

section \<open>Relations kept by a computation\<close>

definition keeps :: "('s \<Rightarrow> 's \<Rightarrow> bool) \<Rightarrow> ('s, 'a) comp \<Rightarrow> bool" where
  "keeps R m = (\<forall>s s' r. m s = (s', r) \<longrightarrow> R s s')"

definition order_rel :: "('s \<Rightarrow> 's \<Rightarrow> bool) \<Rightarrow> bool" where
  "order_rel R = ((\<forall>s. R s s) \<and> (\<forall>s t u. R s t \<longrightarrow> R t u \<longrightarrow> R s u))"

named_theorems keeps_rules

lemma keepsD: "keeps R m \<Longrightarrow> m s = (s', r) \<Longrightarrow> R s s'"
  by (auto simp: keeps_def)

lemma keepsI: "(\<And>s s' r. m s = (s', r) \<Longrightarrow> R s s') \<Longrightarrow> keeps R m"
  by (simp add: keeps_def)

lemma keeps_ret [keeps_rules]: "order_rel R \<Longrightarrow> keeps R (ret x)"
  by (simp add: keeps_def ret_def order_rel_def)

lemma keeps_fail [keeps_rules]: "order_rel R \<Longrightarrow> keeps R (fail e)"
  by (simp add: keeps_def fail_def order_rel_def)

lemma keeps_gets [keeps_rules]: "order_rel R \<Longrightarrow> keeps R (gets f)"
  by (simp add: keeps_def gets_def order_rel_def)

lemma bnd_cases:
  assumes "bnd m f s = (s', r)"
  obtains (error) e where "m s = (s', Inl e)" "r = Inl e"
  | (step) x t where "m s = (t, Inr x)" "f x t = (s', r)"
  using assms by (auto simp: bnd_def split: prod.splits sum.splits)

lemma bnd_ok: "bnd m f s = (s', Inr y) \<Longrightarrow> \<exists>x t. m s = (t, Inr x) \<and> f x t = (s', Inr y)"
  by (auto elim: bnd_cases)

lemma keeps_bnd [keeps_rules]:
  "order_rel R \<Longrightarrow> keeps R m \<Longrightarrow> (\<And>x. keeps R (f x)) \<Longrightarrow> keeps R (bnd m f)"
  unfolding keeps_def order_rel_def by (meson bnd_cases)

lemma keeps_seq [keeps_rules]: "order_rel R \<Longrightarrow> keeps R m \<Longrightarrow> keeps R n \<Longrightarrow> keeps R (seq m n)"
  unfolding seq_def by (rule keeps_bnd)

lemma keeps_attempt [keeps_rules]: "keeps R m \<Longrightarrow> keeps R (attempt m)"
  by (auto simp: keeps_def attempt_def split: prod.splits)

lemma keeps_if [keeps_rules]:
  "(c \<Longrightarrow> keeps R m) \<Longrightarrow> (\<not> c \<Longrightarrow> keeps R n) \<Longrightarrow> keeps R (if c then m else n)"
  by simp

lemma keeps_option [keeps_rules]:
  "(x = None \<Longrightarrow> keeps R m) \<Longrightarrow> (\<And>y. x = Some y \<Longrightarrow> keeps R (f y)) \<Longrightarrow>
   keeps R (case x of None \<Rightarrow> m | Some y \<Rightarrow> f y)"
  by (cases x) auto

lemma keeps_sum [keeps_rules]:
  "(\<And>y. x = Inl y \<Longrightarrow> keeps R (f y)) \<Longrightarrow> (\<And>y. x = Inr y \<Longrightarrow> keeps R (g y)) \<Longrightarrow>
   keeps R (case x of Inl y \<Rightarrow> f y | Inr y \<Rightarrow> g y)"
  by (cases x) auto

lemma keeps_prod [keeps_rules]:
  "(\<And>a b. x = (a, b) \<Longrightarrow> keeps R (f a b)) \<Longrightarrow> keeps R (case x of (a, b) \<Rightarrow> f a b)"
  by (cases x) auto

lemma keeps_Let [keeps_rules]: "keeps R (f x) \<Longrightarrow> keeps R (let y = x in f y)"
  by simp

lemma keeps_each [keeps_rules]: "order_rel R \<Longrightarrow> (\<And>x. keeps R (f x)) \<Longrightarrow> keeps R (each f xs)"
  by (induction xs) (auto intro: keeps_rules)

end
