(* ===== verification/Options.thy ===== *)
theory Options
  imports Prelude "HOL-Library.AList"
begin

text \<open>
  The options of a run (\<^verbatim>\<open>go/options.go\<close>): the records, how per-call options are merged over the
  global ones, and how an untyped map is decoded into them. A nil pointer, map, interface or
  function is None. Models, metadata, providers, loggers and compiled patterns are opaque here; they
  are the type parameter.
\<close>

record ExistingTxt =
  et_Write :: "bool option"
  et_Preserve :: "bool option"
  et_Present :: "bool option"
  et_Diff :: "bool option"
  et_Merge :: "bool option"
  et_Conflict :: string

record ExistingBin =
  eb_Write :: "bool option"
  eb_Preserve :: "bool option"
  eb_Present :: "bool option"

record Existing =
  ex_Txt :: ExistingTxt
  ex_Bin :: ExistingBin

record Control =
  ct_Dryrun :: bool
  ct_NoDuplicate :: bool
  ct_Version :: bool

record NameAffix =
  na_Prefix :: string
  na_Suffix :: string

datatype 'x NameMatcher = NameMatcher (nm_Literal: string) (nm_RE: "'x option")

record 'x NameOptions =
  no_File :: NameAffix
  no_Folder :: NameAffix
  no_Exclude :: "'x NameMatcher list"

record 'x Options =
  op_Folder :: string
  op_Meta :: "'x option"
  op_FS :: "'x option"
  op_Now :: "'x option"
  op_Log :: "'x option"
  op_Debug :: string
  op_Existing :: Existing
  op_Model :: "'x option"
  op_Build :: "bool option"
  op_Mem :: "bool option"
  op_Vol :: "(string \<times> bytes option) list option"
  op_Ignore :: "'x list"
  op_Control :: Control
  op_Name :: "'x NameOptions"
  op_Exclude :: bool

definition ConflictMarkers :: string where "ConflictMarkers = ''markers''"
definition ConflictFail :: string where "ConflictFail = ''fail''"

definition Duplicate :: "Control \<Rightarrow> bool" where "Duplicate c = (\<not> ct_NoDuplicate c)"

definition noExisting :: Existing where
  "noExisting =
     \<lparr>ex_Txt = \<lparr>et_Write = None, et_Preserve = None, et_Present = None, et_Diff = None,
        et_Merge = None, et_Conflict = []\<rparr>,
      ex_Bin = \<lparr>eb_Write = None, eb_Preserve = None, eb_Present = None\<rparr>\<rparr>"

definition noControl :: Control where
  "noControl = \<lparr>ct_Dryrun = False, ct_NoDuplicate = False, ct_Version = False\<rparr>"

definition noOptions :: "'x Options" where
  "noOptions =
     \<lparr>op_Folder = [], op_Meta = None, op_FS = None, op_Now = None, op_Log = None, op_Debug = [],
      op_Existing = noExisting, op_Model = None, op_Build = None, op_Mem = None, op_Vol = None,
      op_Ignore = [], op_Control = noControl,
      op_Name = \<lparr>no_File = \<lparr>na_Prefix = [], na_Suffix = []\<rparr>,
        no_Folder = \<lparr>na_Prefix = [], na_Suffix = []\<rparr>, no_Exclude = []\<rparr>,
      op_Exclude = False\<rparr>"

section \<open>Merging\<close>

definition over :: "'a option \<Rightarrow> 'a option \<Rightarrow> 'a option" where
  "over global call = (if call \<noteq> None then call else global)"

definition overBool :: "bool option \<Rightarrow> bool option \<Rightarrow> bool option" where
  "overBool global call = over global call"

definition overText :: "string \<Rightarrow> string \<Rightarrow> string" where
  "overText global call = (if call \<noteq> [] then call else global)"

text \<open>The per-key merge of two volumes: the call's entries over the global ones.\<close>

definition mergeVol ::
  "(string \<times> bytes option) list option \<Rightarrow> (string \<times> bytes option) list option
    \<Rightarrow> (string \<times> bytes option) list option" where
  "mergeVol global call =
     (case call of
        None \<Rightarrow> global
      | Some cv \<Rightarrow>
          Some (foldl (\<lambda>m (k, v). AList.update k v m)
            (foldl (\<lambda>m (k, v). AList.update k v m) [] (case global of None \<Rightarrow> [] | Some gv \<Rightarrow> gv)) cv))"

definition mergeTxt :: "ExistingTxt \<Rightarrow> ExistingTxt \<Rightarrow> ExistingTxt" where
  "mergeTxt g c =
     \<lparr>et_Write = overBool (et_Write g) (et_Write c),
      et_Preserve = overBool (et_Preserve g) (et_Preserve c),
      et_Present = overBool (et_Present g) (et_Present c),
      et_Diff = overBool (et_Diff g) (et_Diff c),
      et_Merge = overBool (et_Merge g) (et_Merge c),
      et_Conflict = overText (et_Conflict g) (et_Conflict c)\<rparr>"

definition mergeBin :: "ExistingBin \<Rightarrow> ExistingBin \<Rightarrow> ExistingBin" where
  "mergeBin g c =
     \<lparr>eb_Write = overBool (eb_Write g) (eb_Write c),
      eb_Preserve = overBool (eb_Preserve g) (eb_Preserve c),
      eb_Present = overBool (eb_Present g) (eb_Present c)\<rparr>"

definition mergeControl :: "Control \<Rightarrow> Control \<Rightarrow> Control" where
  "mergeControl g c =
     \<lparr>ct_Dryrun = (ct_Dryrun g \<or> ct_Dryrun c),
      ct_NoDuplicate = (ct_NoDuplicate g \<or> ct_NoDuplicate c),
      ct_Version = (ct_Version g \<or> ct_Version c)\<rparr>"

text \<open>\<^verbatim>\<open>out := global\<close>, then the fields the source assigns; \<^verbatim>\<open>Cmp\<close> and \<^verbatim>\<open>Name\<close> are not among
  them.\<close>

definition mergeOptions :: "'x Options \<Rightarrow> 'x Options \<Rightarrow> 'x Options" where
  "mergeOptions global call =
     global\<lparr>op_Folder := overText (op_Folder global) (op_Folder call),
       op_Meta := over (op_Meta global) (op_Meta call),
       op_FS := over (op_FS global) (op_FS call),
       op_Now := over (op_Now global) (op_Now call),
       op_Log := over (op_Log global) (op_Log call),
       op_Debug := overText (op_Debug global) (op_Debug call),
       op_Model := over (op_Model global) (op_Model call),
       op_Build := over (op_Build global) (op_Build call),
       op_Mem := over (op_Mem global) (op_Mem call),
       op_Vol := mergeVol (op_Vol global) (op_Vol call),
       op_Existing :=
         \<lparr>ex_Txt = mergeTxt (ex_Txt (op_Existing global)) (ex_Txt (op_Existing call)),
          ex_Bin = mergeBin (ex_Bin (op_Existing global)) (ex_Bin (op_Existing call))\<rparr>,
       op_Control := mergeControl (op_Control global) (op_Control call),
       op_Exclude := (op_Exclude global \<or> op_Exclude call)\<rparr>"

text \<open>The check of \<^verbatim>\<open>generate\<close> on the merged conflict mode.\<close>

definition validConflict :: "'x Options \<Rightarrow> bool" where
  "validConflict merged =
     (let c = et_Conflict (ex_Txt (op_Existing merged))
      in c = [] \<or> c = ConflictMarkers \<or> c = ConflictFail)"

section \<open>Facts about merging\<close>

lemma over_assoc: "over (over a b) c = over a (over b c)"
  by (auto simp: over_def)

lemma overText_assoc: "overText (overText a b) c = overText a (overText b c)"
  by (auto simp: overText_def)

lemma update_fold_map:
  "map_of (foldl (\<lambda>m (k, v). AList.update k v m) acc ps) = map_of acc ++ map_of (rev ps)"
  by (induction ps arbitrary: acc) (auto simp: update_conv' map_add_def fun_eq_iff split: option.splits)

lemma mergeVol_lookup:
  "mergeVol (Some g) (Some c) = Some v \<Longrightarrow> map_of v k =
     (case map_of (rev c) k of Some b \<Rightarrow> Some b | None \<Rightarrow> map_of (rev g) k)"
  by (auto simp: mergeVol_def update_fold_map map_add_def split: option.splits)

lemma merge_unset [simp]: "mergeOptions g noOptions = g"
  by (simp add: mergeOptions_def noOptions_def noExisting_def noControl_def over_def overText_def
      overBool_def mergeVol_def mergeTxt_def mergeBin_def mergeControl_def)

text \<open>A call's component and name options never reach the merged options.\<close>

lemma merge_drops_cmp: "op_Ignore (mergeOptions g c) = op_Ignore g \<and> op_Name (mergeOptions g c) = op_Name g"
  by (simp add: mergeOptions_def)

end
