(* ===== verification/Utf8.thy ===== *)
theory Utf8
  imports Prelude
begin

text \<open>
  Runes. Go's \<^verbatim>\<open>range\<close> over a string, \<^verbatim>\<open>utf8.DecodeRuneInString\<close> and
  \<^verbatim>\<open>strings.Builder.WriteRune\<close>: a byte that does not begin a well-formed encoding decodes as
  U+FFFD with width 1. \<open>encode_rune\<close> is UTF-8, and \<open>utf16_units\<close> the UTF-16 code units by which
  JavaScript measures and orders its strings.
\<close>

abbreviation byte :: "char \<Rightarrow> nat" where "byte c \<equiv> of_char c"

definition rune_error :: nat where "rune_error = 0xFFFD"

text \<open>A Unicode scalar value: what a Go rune of a well-formed string can be.\<close>

definition scalar :: "nat \<Rightarrow> bool" where
  "scalar r = (r < 0xD800 \<or> 0xE000 \<le> r \<and> r < 0x110000)"

definition encode_rune :: "nat \<Rightarrow> string" where
  "encode_rune r0 =
     (let r = (if scalar r0 then r0 else rune_error)
      in map char_of
        (if r < 0x80 then [r]
         else if r < 0x800 then [0xC0 + r div 64, 0x80 + r mod 64]
         else if r < 0x10000 then [0xE0 + r div 4096, 0x80 + r div 64 mod 64, 0x80 + r mod 64]
         else [0xF0 + r div 262144, 0x80 + r div 4096 mod 64, 0x80 + r div 64 mod 64, 0x80 + r mod 64]))"

definition encode_runes :: "nat list \<Rightarrow> string" where
  "encode_runes rs = concat (map encode_rune rs)"

definition cont :: "nat \<Rightarrow> bool" where "cont b = (0x80 \<le> b \<and> b < 0xC0)"

text \<open>\<^verbatim>\<open>utf8.DecodeRuneInString\<close>: the first rune and its width; the empty string has none.\<close>

definition decode_rune :: "string \<Rightarrow> nat \<times> nat" where
  "decode_rune s =
     (case map byte s of
        [] \<Rightarrow> (rune_error, 0)
      | a # r \<Rightarrow>
          if a < 0x80 then (a, 1)
          else if 0xC2 \<le> a \<and> a < 0xE0 then
            (case r of b # _ \<Rightarrow> if cont b then ((a - 0xC0) * 64 + (b - 0x80), 2) else (rune_error, 1)
             | [] \<Rightarrow> (rune_error, 1))
          else if 0xE0 \<le> a \<and> a < 0xF0 then
            (case r of b # c # _ \<Rightarrow>
               if cont b \<and> cont c \<and> (a = 0xE0 \<longrightarrow> 0xA0 \<le> b) \<and> (a = 0xED \<longrightarrow> b < 0xA0)
               then ((a - 0xE0) * 4096 + (b - 0x80) * 64 + (c - 0x80), 3) else (rune_error, 1)
             | _ \<Rightarrow> (rune_error, 1))
          else if 0xF0 \<le> a \<and> a < 0xF5 then
            (case r of b # c # d # _ \<Rightarrow>
               if cont b \<and> cont c \<and> cont d \<and> (a = 0xF0 \<longrightarrow> 0x90 \<le> b) \<and> (a = 0xF4 \<longrightarrow> b < 0x90)
               then ((a - 0xF0) * 262144 + (b - 0x80) * 4096 + (c - 0x80) * 64 + (d - 0x80), 4)
               else (rune_error, 1)
             | _ \<Rightarrow> (rune_error, 1))
          else (rune_error, 1))"

lemma decode_rune_width: "s \<noteq> [] \<Longrightarrow> 0 < snd (decode_rune s)"
  by (cases s) (auto simp: decode_rune_def split: list.splits)

text \<open>\<^verbatim>\<open>for _, r := range s\<close>: the runes of a string, each with its bytes.\<close>

function rune_parts :: "string \<Rightarrow> (nat \<times> string) list" where
  "rune_parts s =
     (if s = [] then []
      else (let (r, w) = decode_rune s in (r, take w s) # rune_parts (drop w s)))"
  by auto
termination
proof (relation "measure length", goal_cases)
  case (2 s x r w)
  then have "0 < w" using decode_rune_width [of s] by (metis snd_conv)
  with \<open>s \<noteq> []\<close> show ?case by simp
qed simp

declare rune_parts.simps [simp del]

definition runes :: "string \<Rightarrow> nat list" where
  "runes s = map fst (rune_parts s)"

definition utf16_units :: "nat \<Rightarrow> nat list" where
  "utf16_units r =
     (if r < 0x10000 then [r]
      else [0xD800 + (r - 0x10000) div 1024, 0xDC00 + (r - 0x10000) mod 1024])"

definition utf16_of :: "nat list \<Rightarrow> nat list" where
  "utf16_of rs = concat (map utf16_units rs)"

section \<open>Decoding inverts encoding\<close>

lemma encode_bytes:
  assumes "scalar r"
  shows "map byte (encode_rune r) =
    (if r < 0x80 then [r]
     else if r < 0x800 then [0xC0 + r div 64, 0x80 + r mod 64]
     else if r < 0x10000 then [0xE0 + r div 4096, 0x80 + r div 64 mod 64, 0x80 + r mod 64]
     else [0xF0 + r div 262144, 0x80 + r div 4096 mod 64, 0x80 + r div 64 mod 64, 0x80 + r mod 64])"
proof -
  have b: "map byte (map char_of ns) = ns" if "\<forall>n \<in> set ns. n < 256" for ns :: "nat list"
    using that by (induction ns) auto
  have "r < 0x110000" using assms by (auto simp: scalar_def)
  then show ?thesis using assms
    by (simp add: encode_rune_def b del: map_map)
qed

lemma encode_not_Nil [simp]: "encode_rune r \<noteq> []"
  by (auto simp: encode_rune_def Let_def)

lemma digits2: "(r::nat) div 64 * 64 + r mod 64 = r" by simp

lemma digits3: "(r::nat) div 4096 * 4096 + r div 64 mod 64 * 64 + r mod 64 = r"
proof -
  have "r div 4096 = r div 64 div 64" by (simp add: div_mult2_eq [symmetric])
  then show ?thesis using digits2 [of "r div 64"] digits2 [of r] by linarith
qed

lemma digits4:
  "(r::nat) div 262144 * 262144 + r div 4096 mod 64 * 4096 + r div 64 mod 64 * 64 + r mod 64 = r"
proof -
  have "r div 262144 = r div 4096 div 64" by (simp add: div_mult2_eq [symmetric])
  then show ?thesis using digits2 [of "r div 4096"] digits3 [of r] by linarith
qed

text \<open>The ranges of the second byte that keep overlong forms and surrogates out.\<close>

lemma second_digit:
  fixes r a b q k n lo :: nat
  assumes "q = a * 64 + b" and "q * k \<le> r" and "r < q * k + k" and "a = n"
  shows "(n * 64 + lo) * k \<le> r \<Longrightarrow> lo \<le> b" and "r < (n * 64 + lo) * k \<Longrightarrow> b < lo"
proof -
  have u: "r < (n * 64 + b + 1) * k" using assms by (simp add: algebra_simps)
  show "lo \<le> b" if "(n * 64 + lo) * k \<le> r"
  proof (rule ccontr)
    assume "\<not> lo \<le> b"
    then have "(n * 64 + b + 1) * k \<le> (n * 64 + lo) * k" by (intro mult_le_mono1) simp
    with u that show False by linarith
  qed
  have l: "(n * 64 + b) * k \<le> r" using assms by simp
  show "b < lo" if "r < (n * 64 + lo) * k"
  proof (rule ccontr)
    assume "\<not> b < lo"
    then have "(n * 64 + lo) * k \<le> (n * 64 + b) * k" by (intro mult_le_mono1) simp
    with l that show False by linarith
  qed
qed

lemma decode_encode:
  assumes "scalar r"
  shows "decode_rune (encode_rune r @ s) = (r, length (encode_rune r))"
proof -
  have r: "r < 0x110000" "r < 0xD800 \<or> 0xE000 \<le> r" using assms by (auto simp: scalar_def)
  have l: "length (encode_rune r) = length (map byte (encode_rune r))" by simp
  note e = encode_bytes [OF assms]
  consider "r < 0x80" | "0x80 \<le> r" "r < 0x800" | "0x800 \<le> r" "r < 0x10000" | "0x10000 \<le> r" by linarith
  then show ?thesis
  proof cases
    case 1
    then show ?thesis unfolding l decode_rune_def map_append e by simp
  next
    case 2
    then have "2 \<le> r div 64" "r div 64 < 32" by (simp_all add: less_mult_imp_div_less)
    then show ?thesis using 2 digits2 [of r]
      unfolding l decode_rune_def map_append e by (simp add: cont_def div_less_iff_less_mult)
  next
    case 3
    have q: "r div 64 = r div 4096 * 64 + r div 64 mod 64"
      using digits2 [of "r div 64"] by (simp add: div_mult2_eq [symmetric])
    have m: "r div 64 * 64 \<le> r" "r < r div 64 * 64 + 64" using digits2 [of r] by linarith+
    have "r div 4096 < 16" using 3 by auto
    moreover have "r div 4096 = 0 \<longrightarrow> 32 \<le> r div 64 mod 64"
      using second_digit(1) [OF q m, of 0 32] 3 by simp
    moreover have "r div 4096 = 13 \<longrightarrow> r div 64 mod 64 < 32"
    proof
      assume a: "r div 4096 = 13"
      then have "r < 57344" by simp
      with r show "r div 64 mod 64 < 32" using second_digit(2) [OF q m a, of 32] by simp
    qed
    ultimately show ?thesis using 3 digits3 [of r]
      unfolding l decode_rune_def map_append e by (simp add: cont_def)
  next
    case 4
    have q: "r div 4096 = r div 262144 * 64 + r div 4096 mod 64"
      using digits2 [of "r div 4096"] by (simp add: div_mult2_eq [symmetric])
    have m: "r div 4096 * 4096 \<le> r" "r < r div 4096 * 4096 + 4096" using digits3 [of r] by linarith+
    have "r div 262144 < 5" using r by auto
    moreover have "r div 262144 = 0 \<longrightarrow> 16 \<le> r div 4096 mod 64"
      using second_digit(1) [OF q m, of 0 16] 4 by simp
    moreover have "r div 262144 = 4 \<longrightarrow> r div 4096 mod 64 < 16"
      using second_digit(2) [OF q m, of 4 16] r by simp
    ultimately show ?thesis using 4 digits4 [of r]
      unfolding l decode_rune_def map_append e by (simp add: cont_def)
  qed
qed

lemma runes_encode:
  assumes "\<forall>r \<in> set rs. scalar r"
  shows "rune_parts (encode_runes rs) = map (\<lambda>r. (r, encode_rune r)) rs"
  using assms
proof (induction rs)
  case Nil
  then show ?case by (simp add: encode_runes_def rune_parts.simps)
next
  case (Cons r rs)
  then show ?case
    using decode_encode [of r "encode_runes rs"]
    by (subst rune_parts.simps) (simp add: encode_runes_def)
qed

text \<open>The well-formed strings: those that are the encoding of their own runes.\<close>

definition valid_utf8 :: "string \<Rightarrow> bool" where
  "valid_utf8 s = (\<exists>rs. (\<forall>r \<in> set rs. scalar r) \<and> s = encode_runes rs)"

lemma valid_utf8_runes: "valid_utf8 s \<Longrightarrow> encode_runes (runes s) = s"
  by (auto simp: valid_utf8_def runes_def runes_encode comp_def)

lemma ascii_valid:
  assumes "\<forall>c \<in> set s. byte c < 0x80"
  shows "valid_utf8 s"
proof -
  have "encode_runes (map byte s) = s"
    using assms by (induction s) (auto simp: encode_runes_def encode_rune_def scalar_def)
  moreover have "\<forall>r \<in> set (map byte s). scalar r" using assms by (auto simp: scalar_def)
  ultimately show ?thesis unfolding valid_utf8_def by metis
qed

end
