(* ===== verification/JsText.thy ===== *)
theory JsText
  imports Utf8 TimeFmt "HOL-Library.Multiset"
begin

text \<open>
  The string half of \<^verbatim>\<open>go/jsvalue.go\<close>, and the key orders of \<^verbatim>\<open>go/util.go\<close>: JavaScript's string
  order on UTF-8 bytes (\<^verbatim>\<open>jsLess\<close>, \<^verbatim>\<open>sortJS\<close>), its string length (\<^verbatim>\<open>utf16Len\<close>), its quoting
  (\<^verbatim>\<open>jsQuote\<close>), and the enumeration order of an object's keys (\<^verbatim>\<open>isArrayIndexKey\<close>,
  \<^verbatim>\<open>jsKeyOrder\<close>).
\<close>

section \<open>Order and length\<close>

text \<open>The test on the first differing bytes; \<open>0x80 \<le> x < 0xC0\<close> is \<^verbatim>\<open>x & 0xC0 == 0x80\<close>.\<close>

definition jsDiffer :: "char \<Rightarrow> char \<Rightarrow> bool" where
  "jsDiffer a b =
     (let ca = byte a; cb = byte b
      in if \<not> cont ca \<and> 0xF0 \<le> ca \<and> (cb = 0xEE \<or> cb = 0xEF) then True
         else if \<not> cont ca \<and> 0xF0 \<le> cb \<and> (ca = 0xEE \<or> ca = 0xEF) then False
         else ca < cb)"

fun jsLess :: "string \<Rightarrow> string \<Rightarrow> bool" where
  "jsLess (x # a) (y # b) = (if x = y then jsLess a b else jsDiffer x y)"
| "jsLess a b = (length a < length b)"

definition utf16Len :: "string \<Rightarrow> nat" where
  "utf16Len s = foldl (\<lambda>n r. if 0x10000 \<le> r then n + 2 else n + 1) 0 (runes s)"

text \<open>\<^verbatim>\<open>sort.Slice\<close> under \<^verbatim>\<open>jsLess\<close>.\<close>

fun insert_js :: "('a \<Rightarrow> string) \<Rightarrow> 'a \<Rightarrow> 'a list \<Rightarrow> 'a list" where
  "insert_js f x [] = [x]"
| "insert_js f x (y # ys) = (if jsLess (f y) (f x) then y # insert_js f x ys else x # y # ys)"

definition sort_js_by :: "('a \<Rightarrow> string) \<Rightarrow> 'a list \<Rightarrow> 'a list" where
  "sort_js_by f xs = foldr (insert_js f) xs []"

definition sortJS :: "string list \<Rightarrow> string list" where
  "sortJS ss = sort_js_by (\<lambda>s. s) ss"

section \<open>Quoting\<close>

definition hex_digit :: "nat \<Rightarrow> char" where
  "hex_digit n = ''0123456789abcdef'' ! n"

definition quote_rune :: "nat \<Rightarrow> string" where
  "quote_rune r =
     (if r = 0x22 then [BSLASH, QUOTE]
      else if r = 0x5C then [BSLASH, BSLASH]
      else if r = 0x08 then BSLASH # ''b''
      else if r = 0x0C then BSLASH # ''f''
      else if r = 0x0A then BSLASH # ''n''
      else if r = 0x0D then BSLASH # ''r''
      else if r = 0x09 then BSLASH # ''t''
      else if r < 0x20 then BSLASH # ''u00'' @ [hex_digit (r div 16), hex_digit (r mod 16)]
      else encode_rune r)"

definition jsQuote :: "string \<Rightarrow> string" where
  "jsQuote s = [QUOTE] @ concat (map quote_rune (runes s)) @ [QUOTE]"

text \<open>\<^verbatim>\<open>encoding/json\<close> of a string with HTML escaping off: it also escapes the two line separators, and
  an invalid byte as U+FFFD.\<close>

definition go_quote :: "string \<Rightarrow> string" where
  "go_quote s =
     [QUOTE] @ concat (map (\<lambda>(r, p).
        if r = 0x2028 then BSLASH # ''u2028'' else if r = 0x2029 then BSLASH # ''u2029''
        else if r = rune_error \<and> length p = 1 then BSLASH # ''ufffd''
        else quote_rune r) (rune_parts s)) @ [QUOTE]"

section \<open>Key order\<close>

definition isArrayIndexKey :: "string \<Rightarrow> bool" where
  "isArrayIndexKey k =
     (if k = [] \<or> 10 < length k then False
      else if k = ''0'' then True
      else if hd k = CHR ''0'' then False
      else if \<not> list_all is_digit k then False
      else digits_value k < 4294967295)"

fun insert_num :: "string \<Rightarrow> string list \<Rightarrow> string list" where
  "insert_num k [] = [k]"
| "insert_num k (j # js) =
     (if digits_value j < digits_value k then j # insert_num k js else k # j # js)"

text \<open>\<^verbatim>\<open>jsKeyOrder\<close> of a map given by its keys, in any order.\<close>

definition jsKeyOrder :: "string list \<Rightarrow> string list" where
  "jsKeyOrder ks =
     foldr insert_num (filter isArrayIndexKey ks) [] @ sortJS (filter (\<lambda>k. \<not> isArrayIndexKey k) ks)"

section \<open>The order is JavaScript's\<close>

fun lex_less :: "nat list \<Rightarrow> nat list \<Rightarrow> bool" where
  "lex_less (x # a) (y # b) = (x < y \<or> x = y \<and> lex_less a b)"
| "lex_less [] (y # b) = True"
| "lex_less _ [] = False"

text \<open>Where two encodings first differ, seen byte by byte and unit by unit.\<close>

fun jsLessN :: "nat list \<Rightarrow> nat list \<Rightarrow> bool" where
  "jsLessN (x # a) (y # b) =
     (if x = y then jsLessN a b
      else if \<not> cont x \<and> 0xF0 \<le> x \<and> (y = 0xEE \<or> y = 0xEF) then True
      else if \<not> cont x \<and> 0xF0 \<le> y \<and> (x = 0xEE \<or> x = 0xEF) then False
      else x < y)"
| "jsLessN a b = (length a < length b)"

lemma jsLess_bytes: "jsLess a b = jsLessN (map byte a) (map byte b)"
  by (induction a b rule: jsLess.induct) (auto simp: jsDiffer_def)

lemma jsLess_append [simp]: "jsLess (p @ a) (p @ b) = jsLess a b"
  by (induction p) auto

lemma lex_append [simp]: "lex_less (p @ a) (p @ b) = lex_less a b"
  by (induction p) auto

lemma digit_less:
  "(x :: nat) < y \<longleftrightarrow> x div k < y div k \<or> x div k = y div k \<and> x mod k < y mod k"
proof (cases "x div k = y div k")
  case True
  then show ?thesis
    using div_mult_mod_eq [of x k] div_mult_mod_eq [of y k]
    by (metis nat_add_left_cancel_less less_irrefl)
next
  case False
  then show ?thesis by (metis div_le_mono le_eq_less_or_eq linorder_neqE_nat not_le)
qed

lemma digits_less:
  fixes x y :: nat
  shows "x < y \<longleftrightarrow> x div 64 < y div 64 \<or> x div 64 = y div 64 \<and> x mod 64 < y mod 64"
    and "x div 64 < y div 64 \<longleftrightarrow>
      x div 4096 < y div 4096 \<or> x div 4096 = y div 4096 \<and> x div 64 mod 64 < y div 64 mod 64"
    and "x div 4096 < y div 4096 \<longleftrightarrow>
      x div 262144 < y div 262144 \<or> x div 262144 = y div 262144 \<and> x div 4096 mod 64 < y div 4096 mod 64"
  using digit_less [of x y 64] digit_less [of "x div 64" "y div 64" 64]
    digit_less [of "x div 4096" "y div 4096" 64]
  by (simp_all add: div_mult2_eq [symmetric])

text \<open>The rank of a scalar value in JavaScript's order: the characters above the surrogates that
  fit one unit come last.\<close>

definition js_rank :: "nat \<Rightarrow> nat" where
  "js_rank r = (if 0xE000 \<le> r \<and> r < 0x10000 then r + 0x110000 else r)"

lemma jsLessN_cont:
  "jsLessN ((0x80 + d) # a) ((0x80 + e) # b) = (if d = e then jsLessN a b else d < e)"
  if "d < 64" "e < 64" for d e
  using that by (auto simp: cont_def)

lemma mod64 [simp]: "(x :: nat) mod 64 < 64" by simp

text \<open>Two encodings of the same length, compared digit by digit.\<close>

lemma jsLessN_2:
  "p1 < 32 \<Longrightarrow> q1 < 32 \<Longrightarrow> p2 < 64 \<Longrightarrow> q2 < 64 \<Longrightarrow>
   jsLessN ((0xC0 + p1) # (0x80 + p2) # a) ((0xC0 + q1) # (0x80 + q2) # b) =
     (p1 < q1 \<or> p1 = q1 \<and> (p2 < q2 \<or> p2 = q2 \<and> jsLessN a b))"
  by (simp add: jsLessN_cont)

lemma jsLessN_3:
  "p1 < 16 \<Longrightarrow> q1 < 16 \<Longrightarrow> p2 < 64 \<Longrightarrow> q2 < 64 \<Longrightarrow> p3 < 64 \<Longrightarrow> q3 < 64 \<Longrightarrow>
   jsLessN ((0xE0 + p1) # (0x80 + p2) # (0x80 + p3) # a) ((0xE0 + q1) # (0x80 + q2) # (0x80 + q3) # b) =
     (p1 < q1 \<or> p1 = q1 \<and> (p2 < q2 \<or> p2 = q2 \<and> (p3 < q3 \<or> p3 = q3 \<and> jsLessN a b)))"
  by (simp add: jsLessN_cont)

lemma jsLessN_4:
  "p2 < 64 \<Longrightarrow> q2 < 64 \<Longrightarrow> p3 < 64 \<Longrightarrow> q3 < 64 \<Longrightarrow> p4 < 64 \<Longrightarrow> q4 < 64 \<Longrightarrow>
   jsLessN ((0xF0 + p1) # (0x80 + p2) # (0x80 + p3) # (0x80 + p4) # a)
           ((0xF0 + q1) # (0x80 + q2) # (0x80 + q3) # (0x80 + q4) # b) =
     (p1 < q1 \<or> p1 = q1 \<and> (p2 < q2 \<or> p2 = q2 \<and> (p3 < q3 \<or> p3 = q3 \<and> (p4 < q4 \<or> p4 = q4 \<and> jsLessN a b))))"
  by (simp add: jsLessN_cont)

lemma jsLess_encode_same:
  assumes "scalar x" and "scalar y" and "x \<noteq> y"
    and cls: "x < 0x80 \<and> y < 0x80 \<or> 0x80 \<le> x \<and> x < 0x800 \<and> 0x80 \<le> y \<and> y < 0x800 \<or>
      0x800 \<le> x \<and> x < 0x10000 \<and> 0x800 \<le> y \<and> y < 0x10000 \<or> 0x10000 \<le> x \<and> 0x10000 \<le> y"
  shows "jsLessN (map byte (encode_rune x) @ a) (map byte (encode_rune y) @ b) = (x < y)"
proof -
  have ub: "x < 0x110000" "y < 0x110000" using assms(1,2) by (auto simp: scalar_def)
  from cls consider
    "x < 0x80" "y < 0x80" | "0x80 \<le> x" "x < 0x800" "0x80 \<le> y" "y < 0x800" |
    "0x800 \<le> x" "x < 0x10000" "0x800 \<le> y" "y < 0x10000" | "0x10000 \<le> x" "0x10000 \<le> y" by blast
  then show ?thesis
  proof cases
    case 1
    then show ?thesis
      unfolding encode_bytes [OF assms(1)] encode_bytes [OF assms(2)] using assms(3) by auto
  next
    case 2
    then have d: "x div 64 < 32" "y div 64 < 32" by (simp_all add: less_mult_imp_div_less)
    have "\<not> (x div 64 = y div 64 \<and> x mod 64 = y mod 64)"
      using assms(3) digits2 [of x] digits2 [of y] by metis
    then show ?thesis
      using 2 jsLessN_2 [OF d, of "x mod 64" "y mod 64" a b] digits_less(1) [of x y]
      unfolding encode_bytes [OF assms(1)] encode_bytes [OF assms(2)] by (simp del: jsLessN.simps) blast
  next
    case 3
    then have d: "x div 4096 < 16" "y div 4096 < 16" by (simp_all add: less_mult_imp_div_less)
    have "\<not> (x div 4096 = y div 4096 \<and> x div 64 mod 64 = y div 64 mod 64 \<and> x mod 64 = y mod 64)"
      using assms(3) digits3 [of x] digits3 [of y] by metis
    moreover have "x div 64 = y div 64 \<longleftrightarrow> x div 4096 = y div 4096 \<and> x div 64 mod 64 = y div 64 mod 64"
      using digits_less(2) [of x y] digits_less(2) [of y x] by (metis less_irrefl linorder_neqE_nat)
    ultimately show ?thesis
      using 3 jsLessN_3 [OF d, of "x div 64 mod 64" "y div 64 mod 64" "x mod 64" "y mod 64" a b]
        digits_less(1) [of x y] digits_less(2) [of x y]
      unfolding encode_bytes [OF assms(1)] encode_bytes [OF assms(2)] by (simp del: jsLessN.simps) blast
  next
    case 4
    have "\<not> (x div 262144 = y div 262144 \<and> x div 4096 mod 64 = y div 4096 mod 64 \<and>
        x div 64 mod 64 = y div 64 mod 64 \<and> x mod 64 = y mod 64)"
      using assms(3) digits4 [of x] digits4 [of y] by metis
    moreover have "x div 64 = y div 64 \<longleftrightarrow> x div 4096 = y div 4096 \<and> x div 64 mod 64 = y div 64 mod 64"
      "x div 4096 = y div 4096 \<longleftrightarrow> x div 262144 = y div 262144 \<and> x div 4096 mod 64 = y div 4096 mod 64"
      using digits_less(2,3) [of x y] digits_less(2,3) [of y x] by (metis less_irrefl linorder_neqE_nat)+
    ultimately show ?thesis
      using 4 jsLessN_4 [of "x div 4096 mod 64" "y div 4096 mod 64" "x div 64 mod 64" "y div 64 mod 64"
          "x mod 64" "y mod 64" "x div 262144" a "y div 262144" b]
        digits_less(1) [of x y] digits_less(2) [of x y] digits_less(3) [of x y]
      unfolding encode_bytes [OF assms(1)] encode_bytes [OF assms(2)] by (simp del: jsLessN.simps) blast
  qed
qed

definition lead :: "nat \<Rightarrow> nat" where "lead x = hd (map byte (encode_rune x))"

lemma lead_simps:
  "scalar x \<Longrightarrow> lead x =
    (if x < 0x80 then x else if x < 0x800 then 0xC0 + x div 64
     else if x < 0x10000 then 0xE0 + x div 4096 else 0xF0 + x div 262144)"
  by (simp add: lead_def encode_bytes)

lemma jsLess_encode_lead:
  assumes "scalar x" and "scalar y" and "lead x \<noteq> lead y"
  shows "jsLessN (map byte (encode_rune x) @ a) (map byte (encode_rune y) @ b)
    = jsLessN [lead x] [lead y]"
proof -
  obtain u v where "map byte (encode_rune x) = lead x # u" "map byte (encode_rune y) = lead y # v"
    by (metis encode_not_Nil lead_def list.collapse map_is_Nil_conv)
  then show ?thesis using assms(3) by simp
qed

lemma lead_range:
  assumes "scalar x"
  shows "x < 0x80 \<Longrightarrow> lead x < 0x80"
    "0x80 \<le> x \<Longrightarrow> x < 0x800 \<Longrightarrow> 0xC2 \<le> lead x \<and> lead x < 0xE0"
    "0x800 \<le> x \<Longrightarrow> x < 0xE000 \<Longrightarrow> 0xE0 \<le> lead x \<and> lead x < 0xEE"
    "0xE000 \<le> x \<Longrightarrow> x < 0x10000 \<Longrightarrow> lead x = 0xEE \<or> lead x = 0xEF"
    "0x10000 \<le> x \<Longrightarrow> 0xF0 \<le> lead x \<and> lead x < 0xF5"
proof -
  have ub: "x < 0x110000" using assms by (auto simp: scalar_def)
  show "x < 0x80 \<Longrightarrow> lead x < 0x80" using assms by (simp add: lead_simps)
  show "0x80 \<le> x \<Longrightarrow> x < 0x800 \<Longrightarrow> 0xC2 \<le> lead x \<and> lead x < 0xE0"
    using assms by (auto simp: lead_simps less_mult_imp_div_less)
  show "0x800 \<le> x \<Longrightarrow> x < 0xE000 \<Longrightarrow> 0xE0 \<le> lead x \<and> lead x < 0xEE"
    using assms by (auto simp: lead_simps less_mult_imp_div_less)
  show "0xE000 \<le> x \<Longrightarrow> x < 0x10000 \<Longrightarrow> lead x = 0xEE \<or> lead x = 0xEF"
  proof -
    assume x: "0xE000 \<le> x" "x < 0x10000"
    then have "14 \<le> x div 4096" "x div 4096 < 16" by (auto simp: less_mult_imp_div_less)
    then show ?thesis using assms x by (auto simp: lead_simps)
  qed
  show "0x10000 \<le> x \<Longrightarrow> 0xF0 \<le> lead x \<and> lead x < 0xF5"
    using assms ub by (auto simp: lead_simps less_mult_imp_div_less)
qed

lemma units_rank:
  assumes "scalar x" and "scalar y" and "x \<noteq> y"
  shows "lex_less (utf16_units x @ a) (utf16_units y @ b) = (js_rank x < js_rank y)"
proof -
  have ub: "x < 0x110000" "y < 0x110000" using assms(1,2) by (auto simp: scalar_def)
  have d: "(x - 0x10000) div 1024 < 1024" "(y - 0x10000) div 1024 < 1024"
    using ub by (simp_all add: less_mult_imp_div_less)
  have o: "x - 0x10000 < y - 0x10000 \<longleftrightarrow> (x - 0x10000) div 1024 < (y - 0x10000) div 1024 \<or>
      (x - 0x10000) div 1024 = (y - 0x10000) div 1024 \<and> (x - 0x10000) mod 1024 < (y - 0x10000) mod 1024"
    "y - 0x10000 < x - 0x10000 \<longleftrightarrow> (y - 0x10000) div 1024 < (x - 0x10000) div 1024 \<or>
      (y - 0x10000) div 1024 = (x - 0x10000) div 1024 \<and> (y - 0x10000) mod 1024 < (x - 0x10000) mod 1024"
    by (rule digit_less)+
  define xq yq xr yr where q: "xq = (x - 0x10000) div 1024" "yq = (y - 0x10000) div 1024"
    "xr = (x - 0x10000) mod 1024" "yr = (y - 0x10000) mod 1024"
  note o = o [folded q] and d = d [folded q]
  consider "x < 0x10000" "y < 0x10000" | "x < 0x10000" "0x10000 \<le> y" |
    "0x10000 \<le> x" "y < 0x10000" | "0x10000 \<le> x" "0x10000 \<le> y" by linarith
  then show ?thesis
  proof cases
    case 1
    then show ?thesis using assms by (auto simp: utf16_units_def js_rank_def scalar_def)
  next
    case 2
    then show ?thesis using assms d ub unfolding utf16_units_def q [symmetric]
      by (auto simp: js_rank_def scalar_def)
  next
    case 3
    then show ?thesis using assms d ub unfolding utf16_units_def q [symmetric]
      by (auto simp: js_rank_def scalar_def)
  next
    case 4
    then have "x < y \<longleftrightarrow> x - 0x10000 < y - 0x10000" "y < x \<longleftrightarrow> y - 0x10000 < x - 0x10000" by auto
    then show ?thesis using 4 assms o unfolding utf16_units_def q [symmetric]
      by (auto simp: js_rank_def)
  qed
qed

text \<open>Five kinds of scalar value, by lead byte and rank.\<close>

definition kind_ranges :: "nat \<Rightarrow> nat \<Rightarrow> nat \<Rightarrow> bool" where
  "kind_ranges k l r =
     (k = 1 \<and> l < 0x80 \<and> r < 0x80 \<or>
      k = 2 \<and> 0xC2 \<le> l \<and> l < 0xE0 \<and> 0x80 \<le> r \<and> r < 0x800 \<or>
      k = 3 \<and> 0xE0 \<le> l \<and> l < 0xEE \<and> 0x800 \<le> r \<and> r < 0xE000 \<or>
      k = 4 \<and> (l = 0xEE \<or> l = 0xEF) \<and> 0x11E000 \<le> r \<or>
      k = 5 \<and> 0xF0 \<le> l \<and> l < 0xF5 \<and> 0x10000 \<le> r \<and> r < 0x110000)"

definition rune_kind :: "nat \<Rightarrow> nat" where
  "rune_kind r = (if r < 0x80 then 1 else if r < 0x800 then 2 else if r < 0xE000 then 3
     else if r < 0x10000 then 4 else 5)"

lemma rune_kind_ranges: "scalar x \<Longrightarrow> kind_ranges (rune_kind x) (lead x) (js_rank x)"
proof -
  assume s: "scalar x"
  then have ub: "x < 0x110000" by (auto simp: scalar_def)
  consider "x < 0x80" | "0x80 \<le> x" "x < 0x800" | "0x800 \<le> x" "x < 0xE000" |
    "0xE000 \<le> x" "x < 0x10000" | "0x10000 \<le> x" by linarith
  then show ?thesis
    by cases (use lead_range [OF s] ub in \<open>simp_all add: kind_ranges_def rune_kind_def js_rank_def\<close>)
qed

lemma kinds_order:
  assumes "kind_ranges k l r" and "kind_ranges k' l' r'" and "k \<noteq> k'"
  shows "l \<noteq> l' \<and> jsLessN [l] [l'] = (r < r')"
  using assms unfolding kind_ranges_def cont_def jsLessN.simps
  by (elim disjE) (auto simp: cont_def)

lemma bytes_rank:
  assumes "scalar x" and "scalar y" and "x \<noteq> y"
  shows "jsLessN (map byte (encode_rune x) @ a) (map byte (encode_rune y) @ b) = (js_rank x < js_rank y)"
proof (cases "rune_kind x = rune_kind y")
  case True
  then have "jsLessN (map byte (encode_rune x) @ a) (map byte (encode_rune y) @ b) = (x < y)"
    by (intro jsLess_encode_same assms) (simp add: rune_kind_def split: if_splits)
  moreover have "js_rank x < js_rank y \<longleftrightarrow> x < y"
    using True by (simp add: rune_kind_def js_rank_def split: if_splits)
  ultimately show ?thesis by simp
next
  case False
  show ?thesis
    using kinds_order [OF rune_kind_ranges [OF assms(1)] rune_kind_ranges [OF assms(2)] False]
      jsLess_encode_lead [OF assms(1,2)] by (simp del: jsLessN.simps)
qed

lemma jsLess_utf16:
  "\<forall>r \<in> set xs \<union> set ys. scalar r \<Longrightarrow>
   jsLess (encode_runes xs) (encode_runes ys) = lex_less (utf16_of xs) (utf16_of ys)"
proof (induction xs arbitrary: ys)
  case Nil
  show ?case by (cases ys) (auto simp: encode_runes_def utf16_of_def utf16_units_def jsLess_bytes)
next
  case (Cons x xs)
  show ?case
  proof (cases ys)
    case Nil
    then show ?thesis
      by (auto simp: encode_runes_def utf16_of_def utf16_units_def jsLess_bytes neq_Nil_conv)
  next
    case (Cons y zs)
    show ?thesis
    proof (cases "x = y")
      case True
      then show ?thesis using Cons Cons.IH [of zs] Cons.prems
        by (simp add: encode_runes_def utf16_of_def)
    next
      case False
      then show ?thesis
        using Cons Cons.prems bytes_rank [of x y] units_rank [of x y]
        by (simp add: encode_runes_def utf16_of_def jsLess_bytes)
    qed
  qed
qed

lemma utf16Len_units:
  assumes "\<forall>r \<in> set rs. scalar r"
  shows "utf16Len (encode_runes rs) = length (utf16_of rs)"
proof -
  have "foldl (\<lambda>n r. if 0x10000 \<le> r then n + 2 else n + 1) n rs = n + length (utf16_of rs)" for n
    by (induction rs arbitrary: n) (auto simp: utf16_of_def utf16_units_def)
  moreover have "runes (encode_runes rs) = rs"
    using assms by (simp add: runes_def runes_encode comp_def)
  ultimately show ?thesis by (simp add: utf16Len_def)
qed

section \<open>Sorting\<close>

lemma insert_js_perm [simp]: "mset (insert_js f x ys) = add_mset x (mset ys)"
  by (induction ys) auto

lemma sort_js_perm [simp]: "mset (sort_js_by f xs) = mset xs"
  unfolding sort_js_by_def by (induction xs) auto

lemma sort_js_set [simp]: "set (sort_js_by f xs) = set xs"
  using sort_js_perm [of f xs] by (metis set_mset_mset)

definition js_sorted :: "('a \<Rightarrow> string) \<Rightarrow> 'a list \<Rightarrow> bool" where
  "js_sorted f xs = sorted_wrt (\<lambda>x y. \<not> jsLess (f y) (f x)) xs"

lemma lex_less_trans: "lex_less a b \<Longrightarrow> lex_less b c \<Longrightarrow> lex_less a c"
proof (induction a b arbitrary: c rule: lex_less.induct)
  case (1 x a y b)
  then show ?case by (cases c) auto
next
  case (2 y b)
  then show ?case by (cases c) auto
qed auto

lemma lex_less_total: "lex_less a b \<or> a = b \<or> lex_less b a"
proof (induction a arbitrary: b)
  case Nil
  then show ?case by (cases b) auto
next
  case (Cons x a)
  then show ?case by (cases b) (auto simp: not_less_iff_gr_or_eq)
qed

lemma lex_less_irrefl [simp]: "\<not> lex_less a a"
  by (induction a) auto

text \<open>On any byte strings at all, \<^verbatim>\<open>jsLess\<close> is a strict total order: the lexicographic one, with
  the lead bytes of U+E000 to U+FFFF moved behind the others.\<close>

definition byte_rank :: "char \<Rightarrow> nat" where
  "byte_rank c = (if byte c = 0xEE \<or> byte c = 0xEF then byte c + 256 else byte c)"

lemma byte_256: "byte c < 256"
  using nat_of_char_less_256 [of c] by simp

lemma rank_numbers:
  fixes p q :: nat
  assumes "p < 256" and "q < 256"
  defines "rk n \<equiv> (if n = 0xEE \<or> n = 0xEF then n + 256 else n :: nat)"
  shows "rk p = rk q \<longleftrightarrow> p = q"
    and "p \<noteq> q \<Longrightarrow>
      (if \<not> cont p \<and> 0xF0 \<le> p \<and> (q = 0xEE \<or> q = 0xEF) then True
       else if \<not> cont p \<and> 0xF0 \<le> q \<and> (p = 0xEE \<or> p = 0xEF) then False
       else p < q) = (rk p < rk q)"
  using assms(1,2) by (auto simp: rk_def cont_def)

lemma byte_rank_inj: "byte_rank x = byte_rank y \<longleftrightarrow> x = y"
  using rank_numbers(1) [OF byte_256 byte_256, of x y] by (simp add: byte_rank_def)

lemma jsDiffer_rank: "x \<noteq> y \<Longrightarrow> jsDiffer x y = (byte_rank x < byte_rank y)"
  using rank_numbers(2) [OF byte_256 byte_256, of x y] by (simp add: byte_rank_def jsDiffer_def Let_def)

lemma jsLess_rank: "jsLess a b = lex_less (map byte_rank a) (map byte_rank b)"
proof (induction a arbitrary: b)
  case Nil
  then show ?case by (cases b) auto
next
  case (Cons x a)
  then show ?case by (cases b) (auto simp: jsDiffer_rank byte_rank_inj)
qed

lemma map_byte_rank_inj: "map byte_rank a = map byte_rank b \<longleftrightarrow> a = b"
  by (rule inj_map_eq_map) (auto simp: inj_def byte_rank_inj)

lemma jsLess_irrefl [simp]: "\<not> jsLess a a"
  by (simp add: jsLess_rank)

lemma jsLess_trans: "jsLess a b \<Longrightarrow> jsLess b c \<Longrightarrow> jsLess a c"
  by (auto simp: jsLess_rank intro: lex_less_trans)

lemma jsLess_total: "jsLess a b \<or> a = b \<or> jsLess b a"
  using lex_less_total by (auto simp: jsLess_rank simp flip: map_byte_rank_inj)

interpretation js_order: strict_total jsLess
  by unfold_locales (use jsLess_trans jsLess_total in auto)

lemma jsLess_asym: "jsLess a b \<Longrightarrow> \<not> jsLess b a"
  using jsLess_trans jsLess_irrefl by blast

lemma not_jsLess_trans: "\<not> jsLess b a \<Longrightarrow> \<not> jsLess c b \<Longrightarrow> \<not> jsLess c a"
  by (metis jsLess_total jsLess_trans)

lemma insert_js_set [simp]: "set (insert_js f x ys) = insert x (set ys)"
  by (induction ys) auto

lemma insert_js_sorted: "js_sorted f ys \<Longrightarrow> js_sorted f (insert_js f x ys)"
proof (induction ys)
  case (Cons y ys)
  then have "\<not> jsLess (f z) (f x)" if "\<not> jsLess (f y) (f x)" "z \<in> set ys" for z
    using that not_jsLess_trans [of "f y" "f x" "f z"] by (auto simp: js_sorted_def)
  with Cons show ?case by (auto simp: js_sorted_def dest: jsLess_asym)
qed (simp add: js_sorted_def)

lemma sort_js_sorted: "js_sorted f (sort_js_by f xs)"
  unfolding sort_js_by_def by (induction xs) (auto simp: js_sorted_def intro: insert_js_sorted [unfolded js_sorted_def])

text \<open>The order in which the names arrive, say from ranging over a map, does not matter.\<close>

lemma js_sorted_unique:
  assumes "js_sorted f xs" and "js_sorted f ys" and "mset xs = mset ys" and "inj_on f (set xs)"
  shows "xs = ys"
  using assms
proof (induction xs arbitrary: ys)
  case Nil
  then show ?case by simp
next
  case (Cons x xs)
  then obtain y zs where ys: "ys = y # zs" by (cases ys) auto
  have sets: "set (x # xs) = set ys" using Cons.prems(3) by (metis set_mset_mset)
  have xy: "x = y"
  proof (rule ccontr)
    assume "x \<noteq> y"
    then have "y \<in> set xs" "x \<in> set zs" using sets ys by auto
    then have "\<not> jsLess (f y) (f x)" "\<not> jsLess (f x) (f y)"
      using Cons.prems(1,2) ys by (auto simp: js_sorted_def)
    then have "f x = f y" using jsLess_total by blast
    then show False using Cons.prems(4) \<open>y \<in> set xs\<close> \<open>x \<noteq> y\<close> by (auto simp: inj_on_def)
  qed
  then show ?case using Cons ys by (auto simp: js_sorted_def)
qed

lemma sort_js_unique:
  "mset xs = mset ys \<Longrightarrow> inj_on f (set xs) \<Longrightarrow> sort_js_by f xs = sort_js_by f ys"
  by (rule js_sorted_unique) (simp_all add: sort_js_sorted)

section \<open>Quoting can be undone\<close>

text \<open>A reader of JSON string bodies, written from the grammar of RFC 8259: what follows the
  opening quote, up to the closing one, is the text, and the rest is left over. The simple escapes,
  and \<open>\u\<close> escapes of the form \<open>00xx\<close>.\<close>

definition hex_value :: "char \<Rightarrow> nat option" where
  "hex_value c = find (\<lambda>n. ''0123456789abcdef'' ! n = c) [0..<16]"

definition simple_escape :: "char \<Rightarrow> char option" where
  "simple_escape c = map_of
     [(QUOTE, QUOTE), (BSLASH, BSLASH), (CHR ''/'', CHR ''/''), (CHR ''b'', CHR 0x08), (CHR ''f'', CHR 0x0C),
      (CHR ''n'', NL), (CHR ''r'', CR), (CHR ''t'', TAB)] c"

definition put :: "string \<Rightarrow> (string \<times> string) option \<Rightarrow> (string \<times> string) option" where
  "put u r = map_option (\<lambda>(a, b). (u @ a, b)) r"

fun read_json_string :: "string \<Rightarrow> (string \<times> string) option" where
  "read_json_string [] = None"
| "read_json_string (c # s) =
     (if c = QUOTE then Some ([], s)
      else if c = BSLASH then
        (case s of
           [] \<Rightarrow> None
         | e # t \<Rightarrow>
             if e = CHR ''u'' then
               (case t of a # b # h # l # t' \<Rightarrow>
                  (if a = CHR ''0'' \<and> b = CHR ''0'' then
                     (case (hex_value h, hex_value l) of
                        (Some m, Some n) \<Rightarrow> put (encode_rune (16 * m + n)) (read_json_string t')
                      | _ \<Rightarrow> None)
                   else None)
                | _ \<Rightarrow> None)
             else (case simple_escape e of Some d \<Rightarrow> put [d] (read_json_string t) | None \<Rightarrow> None))
      else if byte c < 0x20 then None
      else put [c] (read_json_string s))"

lemma put_put [simp]: "put u (put v r) = put (u @ v) r"
  by (cases r) (auto simp: put_def)

lemma put_Nil [simp]: "put [] r = r"
  by (cases r) (auto simp: put_def)

lemma read_plain:
  "\<forall>c \<in> set w. c \<noteq> QUOTE \<and> c \<noteq> BSLASH \<and> 0x20 \<le> byte c \<Longrightarrow>
   read_json_string (w @ t) = put w (read_json_string t)"
  by (induction w) auto

lemma encode_bytes_high: "scalar r \<Longrightarrow> 0x80 \<le> r \<Longrightarrow> c \<in> set (encode_rune r) \<Longrightarrow> 0x80 \<le> byte c"
proof -
  assume "scalar r" "0x80 \<le> r" "c \<in> set (encode_rune r)"
  then have "byte c \<in> set (map byte (encode_rune r))" by simp
  then show ?thesis unfolding encode_bytes [OF \<open>scalar r\<close>] using \<open>0x80 \<le> r\<close> by (auto split: if_splits)
qed

lemma encode_ascii: "r < 0x80 \<Longrightarrow> encode_rune r = [char_of r]"
  by (simp add: encode_rune_def scalar_def)

lemma hex_value_digit: "n < 16 \<Longrightarrow> hex_value (hex_digit n) = Some n"
proof -
  have "list_all (\<lambda>n. hex_value (hex_digit n) = Some n) [0..<16]" by code_simp
  then show "n < 16 \<Longrightarrow> hex_value (hex_digit n) = Some n" by (simp add: list_all_iff)
qed

lemma char_codes:
  "char_of (0x22 :: nat) = QUOTE" "char_of (0x5C :: nat) = BSLASH" "char_of (8 :: nat) = CHR 0x08"
  "char_of (12 :: nat) = CHR 0x0C" "char_of (10 :: nat) = NL" "char_of (13 :: nat) = CR"
  "char_of (9 :: nat) = TAB"
  by code_simp+

lemma read_quote_rune:
  assumes "scalar r"
  shows "read_json_string (quote_rune r @ t) = put (encode_rune r) (read_json_string t)"
proof -
  consider "r \<in> {0x22, 0x5C, 0x08, 0x0C, 0x0A, 0x0D, 0x09}"
    | "r < 0x20" "r \<notin> {0x08, 0x0C, 0x0A, 0x0D, 0x09}"
    | "0x20 \<le> r" "r \<notin> {0x22, 0x5C}" by (cases "r < 0x20") auto
  then show ?thesis
  proof cases
    case 1
    then show ?thesis by (auto simp: quote_rune_def simple_escape_def encode_ascii char_codes)
  next
    case 2
    then have "r div 16 < 16" "r mod 16 < 16" "16 * (r div 16) + r mod 16 = r" by auto
    then show ?thesis using 2 by (simp add: quote_rune_def hex_value_digit)
  next
    case 3
    have "c \<noteq> QUOTE \<and> c \<noteq> BSLASH \<and> 0x20 \<le> byte c" if c: "c \<in> set (encode_rune r)" for c
    proof (cases "r < 0x80")
      case True
      then have "byte c = r" using c by (simp add: encode_ascii)
      then show ?thesis using 3 by auto
    next
      case False
      then have "0x80 \<le> byte c" using encode_bytes_high [OF assms _ c] by simp
      then show ?thesis by auto
    qed
    moreover have "quote_rune r = encode_rune r" using 3 by (auto simp: quote_rune_def)
    ultimately show ?thesis using read_plain by simp
  qed
qed

lemma read_quoted:
  "\<forall>r \<in> set rs. scalar r \<Longrightarrow>
   read_json_string (concat (map quote_rune rs) @ QUOTE # t) = Some (encode_runes rs, t)"
proof (induction rs)
  case Nil
  then show ?case by (simp add: encode_runes_def)
next
  case (Cons r rs)
  then show ?case by (simp add: read_quote_rune put_def encode_runes_def)
qed

end
