(* ===== verification/BuildMeta.thy ===== *)
theory BuildMeta
  imports JsText Complex_Main
begin

text \<open>
  The meta log of \<^verbatim>\<open>go/buildmeta.go\<close>, as far as it does not touch the filesystem: the per-file
  entries of the run, the rendering of the log, and what is read back from the previous one. The
  decoded JSON document is a value of \<open>json\<close>; a number is the rational number it denotes.
\<close>

datatype json =
    JNull
  | JBool bool
  | JNum rat
  | JStr string
  | JArr "json list"
  | JObj "(string \<times> json) list"

record metaEntry =
  me_Path :: string
  me_Action :: string
  me_Exists :: bool
  me_Actions :: "string list"
  me_Protect :: bool
  me_Conflict :: bool
  me_When :: int
  me_Fingerprints :: "string list"
  me_HasFingerprints :: bool

section \<open>Reading the previous log\<close>

definition maxJSTime :: rat where "maxJSTime = 8640000000000000"

text \<open>\<^verbatim>\<open>int64(v)\<close> of a float in range truncates towards zero.\<close>

definition truncate_rat :: "rat \<Rightarrow> int" where
  "truncate_rat v = (if v < 0 then - \<lfloor>- v\<rfloor> else \<lfloor>v\<rfloor>)"

type_synonym doc = "(string \<times> json) list"

definition meta_last :: "doc option \<Rightarrow> int" where
  "meta_last prev =
     (case prev of
        None \<Rightarrow> -1
      | Some d \<Rightarrow>
          (case map_of d ''last'' of
             Some (JNum v) \<Rightarrow>
               (if - maxJSTime \<le> v \<and> v \<le> maxJSTime then truncate_rat v else -1)
           | _ \<Rightarrow> -1))"

text \<open>The pattern \<^verbatim>\<open>^[0-9a-f]{16}$\<close>.\<close>

definition is_fingerprint :: "string \<Rightarrow> bool" where
  "is_fingerprint s = (length s = 16 \<and> list_all (\<lambda>c. c \<in> set ''0123456789abcdef'') s)"

definition obj_of :: "json option \<Rightarrow> doc" where
  "obj_of v = (case v of Some (JObj d) \<Rightarrow> d | _ \<Rightarrow> [])"

definition arr_of :: "json option \<Rightarrow> json list" where
  "arr_of v = (case v of Some (JArr xs) \<Rightarrow> xs | _ \<Rightarrow> [])"

definition priorFingerprints :: "doc option \<Rightarrow> string \<Rightarrow> string list" where
  "priorFingerprints prev rpath =
     (case prev of
        None \<Rightarrow> []
      | Some d \<Rightarrow>
          let entry = obj_of (map_of (obj_of (map_of d ''files'')) rpath);
              fps = arr_of (map_of entry ''fingerprints'')
          in concat (map (\<lambda>f. case f of JStr s \<Rightarrow> (if is_fingerprint s then [s] else []) | _ \<Rightarrow> []) fps))"

section \<open>The run's entries\<close>

text \<open>\<^verbatim>\<open>add\<close>: \<^verbatim>\<open>next.files\<close> in order of first appearance; \<^verbatim>\<open>byPath\<close> is the search for the path.\<close>

fun add_entry :: "metaEntry \<Rightarrow> metaEntry list \<Rightarrow> metaEntry list" where
  "add_entry e [] = [e]"
| "add_entry e (f # fs) = (if me_Path f = me_Path e then e # fs else f # add_entry e fs)"

definition fingerprintHistory :: nat where "fingerprintHistory = 8"

definition hasFingerprint :: "string list \<Rightarrow> string \<Rightarrow> bool" where
  "hasFingerprint fps fp = (fp \<in> set fps)"

definition withFingerprint :: "string list \<Rightarrow> string \<Rightarrow> string list" where
  "withFingerprint fps fp =
     (let out = filter (\<lambda>f. f \<noteq> fp) fps @ [fp]
      in if fingerprintHistory < length out then drop (length out - fingerprintHistory) out else out)"

section \<open>Rendering\<close>

definition jsonBool :: "bool \<Rightarrow> string" where
  "jsonBool b = (if b then ''true'' else ''false'')"

text \<open>Lines of a JSON array or object, all but the last with a comma.\<close>

fun comma_lines :: "string list \<Rightarrow> string" where
  "comma_lines [] = []"
| "comma_lines [x] = x @ [NL]"
| "comma_lines (x # y # xs) = x @ '','' @ [NL] @ comma_lines (y # xs)"

definition jsonStrSlice :: "string list \<Rightarrow> string" where
  "jsonStrSlice ss =
     (if ss = [] then ''[]''
      else ''['' @ [NL] @ comma_lines (map (\<lambda>s. ''        '' @ jsQuote s) ss) @ ''      ]'')"

definition entry_fields :: "metaEntry \<Rightarrow> (string \<times> string) list" where
  "entry_fields e =
     [(''action'', jsQuote (me_Action e)), (''path'', jsQuote (me_Path e)),
      (''exists'', jsonBool (me_Exists e)), (''actions'', jsonStrSlice (me_Actions e)),
      (''protect'', jsonBool (me_Protect e)), (''conflict'', jsonBool (me_Conflict e)),
      (''when'', show_int (me_When e)), (''hwhen'', show_int (HumanifyDigits (me_When e)))] @
     (if me_HasFingerprints e then [(''fingerprints'', jsonStrSlice (me_Fingerprints e))] else [])"

definition render_entry :: "metaEntry \<Rightarrow> string" where
  "render_entry e =
     ''    '' @ jsQuote (me_Path e) @ '': {'' @ [NL] @
     comma_lines (map (\<lambda>(k, v). ''      '' @ jsQuote k @ '': '' @ v) (entry_fields e)) @ ''    }''"

definition meta_kv :: "string \<Rightarrow> string \<Rightarrow> string" where
  "meta_kv k v = ''  '' @ jsQuote k @ '': '' @ v @ '','' @ [NL]"

definition encode :: "int \<Rightarrow> metaEntry list \<Rightarrow> bytes" where
  "encode now files =
     ''{'' @ [NL] @
     meta_kv ''foldername'' (jsQuote ''.jostraca'') @
     meta_kv ''filename'' (jsQuote ''jostraca.meta.log'') @
     meta_kv ''last'' (show_int now) @
     meta_kv ''hlast'' (show_int (HumanifyDigits now)) @
     ''  '' @ [QUOTE] @ ''files'' @ [QUOTE] @ '': {'' @
     (if files = [] then ''}'' @ [NL]
      else [NL] @ comma_lines (map render_entry files) @ ''  }'' @ [NL]) @
     ''}''"

section \<open>Facts\<close>

lemma add_entry_paths:
  "distinct (map me_Path fs) \<Longrightarrow> distinct (map me_Path (add_entry e fs))"
proof -
  have s: "set (map me_Path (add_entry e fs)) = insert (me_Path e) (set (map me_Path fs))" for fs
    by (induction fs) auto
  show "distinct (map me_Path fs) \<Longrightarrow> distinct (map me_Path (add_entry e fs))"
    using s by (induction fs) auto
qed

lemma add_entry_mem: "e \<in> set (add_entry e fs)"
  by (induction fs) auto

lemma add_entry_other:
  "f \<in> set fs \<Longrightarrow> me_Path f \<noteq> me_Path e \<Longrightarrow> f \<in> set (add_entry e fs)"
  by (induction fs) auto

lemma add_entry_order: "map me_Path (add_entry e fs) =
  (if me_Path e \<in> set (map me_Path fs) then map me_Path fs else map me_Path fs @ [me_Path e])"
  by (induction fs) auto

lemma withFingerprint_last: "withFingerprint fps fp \<noteq> [] \<and> last (withFingerprint fps fp) = fp"
  by (auto simp: withFingerprint_def Let_def fingerprintHistory_def)

lemma withFingerprint_length: "length (withFingerprint fps fp) \<le> fingerprintHistory"
  by (auto simp: withFingerprint_def Let_def fingerprintHistory_def)

lemma withFingerprint_distinct: "distinct fps \<Longrightarrow> distinct (withFingerprint fps fp)"
proof -
  assume "distinct fps"
  then have "distinct (filter (\<lambda>f. f \<noteq> fp) fps @ [fp])" by simp
  then show ?thesis by (simp only: withFingerprint_def Let_def distinct_drop split: if_split) blast
qed

lemma withFingerprint_keeps:
  "length fps < fingerprintHistory \<Longrightarrow> set (withFingerprint fps fp) = insert fp (set fps)"
proof -
  assume l: "length fps < fingerprintHistory"
  have "length (filter (\<lambda>f. f \<noteq> fp) fps) \<le> length fps" by simp
  then have "\<not> fingerprintHistory < length (filter (\<lambda>f. f \<noteq> fp) fps @ [fp])"
    using l by (simp only: length_append list.size)
  then show ?thesis by (simp only: withFingerprint_def Let_def if_False) auto
qed

end
