(* ===== verification/GoPath.thy ===== *)
theory GoPath
  imports Prelude
begin

text \<open>
  Go's \<^verbatim>\<open>path\<close> package, as far as the module calls it: \<^verbatim>\<open>Clean\<close>, \<^verbatim>\<open>Join\<close>, \<^verbatim>\<open>Split\<close>,
  \<^verbatim>\<open>Dir\<close>, \<^verbatim>\<open>Base\<close> and \<^verbatim>\<open>Ext\<close>, over slash-separated paths. On the platforms the development
  describes \<^verbatim>\<open>filepath.Clean\<close> is \<^verbatim>\<open>path.Clean\<close>.

  A cleaned path is described by its segments: \<open>norm_segs\<close> says that none is empty or a dot, and
  that the \<^verbatim>\<open>..\<close> segments stand at the front, and only in a path that is not rooted.
\<close>

abbreviation DOT :: string where "DOT \<equiv> ''.''"
abbreviation DOTDOT :: string where "DOTDOT \<equiv> ''..''"

definition segments :: "string \<Rightarrow> string list" where
  "segments p = split_by (\<lambda>c. c = SLASH) p"

definition rooted :: "string \<Rightarrow> bool" where
  "rooted p = has_prefix p ''/''"

section \<open>Clean\<close>

text \<open>One segment of \<^verbatim>\<open>path.Clean\<close>; \<open>out\<close> holds the segments kept so far, the last one first.\<close>

definition clean_step :: "bool \<Rightarrow> string list \<Rightarrow> string \<Rightarrow> string list" where
  "clean_step r out seg =
     (if seg = [] \<or> seg = DOT then out
      else if seg = DOTDOT then
        (case out of
           [] \<Rightarrow> (if r then [] else [DOTDOT])
         | s # rest \<Rightarrow> (if s = DOTDOT then DOTDOT # out else rest))
      else seg # out)"

definition clean_segs :: "bool \<Rightarrow> string list \<Rightarrow> string list" where
  "clean_segs r segs = rev (foldl (clean_step r) [] segs)"

definition unsegment :: "bool \<Rightarrow> string list \<Rightarrow> string" where
  "unsegment r segs =
     (if r then SLASH # join_with ''/'' segs
      else if segs = [] then DOT else join_with ''/'' segs)"

definition path_clean :: "string \<Rightarrow> string" where
  "path_clean p = unsegment (rooted p) (clean_segs (rooted p) (segments p))"

section \<open>The other functions\<close>

text \<open>\<^verbatim>\<open>path.Join\<close>: leading empty elements are dropped, and no elements at all give the empty
  path.\<close>

definition path_join :: "string list \<Rightarrow> string" where
  "path_join es =
     (case dropWhile (\<lambda>e. e = []) es of [] \<Rightarrow> [] | ds \<Rightarrow> path_clean (join_with ''/'' ds))"

text \<open>\<^verbatim>\<open>path.Split\<close>: up to and with the last slash, and the rest.\<close>

definition path_split :: "string \<Rightarrow> string \<times> string" where
  "path_split p = (case cut_last SLASH p of None \<Rightarrow> ([], p) | Some (l, r) \<Rightarrow> (l @ ''/'', r))"

definition path_dir :: "string \<Rightarrow> string" where
  "path_dir p = path_clean (fst (path_split p))"

definition path_base :: "string \<Rightarrow> string" where
  "path_base p =
     (if p = [] then DOT
      else let b = snd (path_split (trim_right SLASH p)) in if b = [] then ''/'' else b)"

text \<open>\<^verbatim>\<open>path.Ext\<close>: from the last dot of the last segment on, the dot included.\<close>

definition path_ext :: "string \<Rightarrow> string" where
  "path_ext p =
     (case cut_last (CHR ''.'') (snd (path_split p)) of None \<Rightarrow> [] | Some (l, r) \<Rightarrow> CHR ''.'' # r)"

section \<open>Normal form\<close>

text \<open>A plain segment, and the shape of the segments of a cleaned path.\<close>

definition plain_seg :: "string \<Rightarrow> bool" where
  "plain_seg s = (s \<noteq> [] \<and> s \<noteq> DOT \<and> s \<noteq> DOTDOT \<and> SLASH \<notin> set s)"

definition norm_segs :: "bool \<Rightarrow> string list \<Rightarrow> bool" where
  "norm_segs r segs =
     (\<exists>n ps. segs = replicate n DOTDOT @ ps \<and> (\<forall>s \<in> set ps. plain_seg s) \<and> (r \<longrightarrow> n = 0))"

lemma segments_no_slash: "s \<in> set (segments p) \<Longrightarrow> SLASH \<notin> set s"
  unfolding segments_def using split_by_parts [of s "\<lambda>c. c = SLASH" p SLASH] by auto

lemma segments_not_Nil [simp]: "segments p \<noteq> []"
  by (simp add: segments_def)

lemma segments_Cons_slash [simp]: "segments (SLASH # p) = [] # segments p"
  by (simp add: segments_def)

lemma segments_join:
  "ws \<noteq> [] \<Longrightarrow> \<forall>w \<in> set ws. SLASH \<notin> set w \<Longrightarrow> segments (join_with ''/'' ws) = ws"
  unfolding segments_def by (rule split_join)

lemma join_segments [simp]: "join_with ''/'' (segments p) = p"
  unfolding segments_def by (rule join_split)

lemma rooted_simps [simp]: "rooted (c # p) = (c = SLASH)" "\<not> rooted []"
  by (auto simp: rooted_def)

lemma clean_step_norm:
  assumes "norm_segs r (rev out)" and "SLASH \<notin> set seg"
  shows "norm_segs r (rev (clean_step r out seg))"
proof -
  obtain n ps where o: "rev out = replicate n DOTDOT @ ps" "\<forall>s \<in> set ps. plain_seg s" "r \<longrightarrow> n = 0"
    using assms(1) by (auto simp: norm_segs_def)
  then have out: "out = rev ps @ replicate n DOTDOT" by (metis rev_append rev_replicate rev_rev_ident)
  show ?thesis
  proof (cases "seg = [] \<or> seg = DOT")
    case True
    then show ?thesis using assms(1) by (auto simp: clean_step_def)
  next
    case ne: False
    show ?thesis
    proof (cases "seg = DOTDOT")
      case False
      then have "plain_seg seg" using ne assms(2) by (auto simp: plain_seg_def)
      then have "rev (clean_step r out seg) = replicate n DOTDOT @ (ps @ [seg])
        \<and> (\<forall>s \<in> set (ps @ [seg]). plain_seg s)"
        using ne False o by (simp add: clean_step_def out)
      then show ?thesis using o(3) unfolding norm_segs_def by blast
    next
      case True
      show ?thesis
      proof (cases ps rule: rev_cases)
        case (snoc qs q)
        then have "q \<noteq> DOTDOT" using o(2) by (auto simp: plain_seg_def)
        then have "rev (clean_step r out seg) = replicate n DOTDOT @ qs"
          using True by (simp add: clean_step_def out snoc)
        then show ?thesis using o(2,3) snoc unfolding norm_segs_def by auto
      next
        case Nil
        show ?thesis
        proof (cases n)
          case 0
          then show ?thesis using Nil True
            by (auto simp: clean_step_def out norm_segs_def intro: exI [of _ "Suc 0"])
        next
          case (Suc m)
          then have "rev (clean_step r out seg) = replicate (Suc n) DOTDOT @ []"
            using Nil True by (simp add: clean_step_def out replicate_append_same)
          then show ?thesis using o(3) Suc unfolding norm_segs_def
            by (metis Zero_not_Suc empty_iff list.set(1))
        qed
      qed
    qed
  qed
qed

lemma clean_foldl_norm:
  "norm_segs r (rev out) \<Longrightarrow> \<forall>s \<in> set segs. SLASH \<notin> set s
     \<Longrightarrow> norm_segs r (rev (foldl (clean_step r) out segs))"
  by (induction segs arbitrary: out) (auto intro: clean_step_norm)

lemma norm_segs_Nil [simp]: "norm_segs r []"
  by (auto simp: norm_segs_def)

lemma clean_segs_norm: "norm_segs r (clean_segs r (segments p))"
  unfolding clean_segs_def by (rule clean_foldl_norm) (auto dest: segments_no_slash)

text \<open>Segments in normal form are kept as they are.\<close>

lemma foldl_plain:
  "\<forall>s \<in> set ps. plain_seg s \<Longrightarrow> foldl (clean_step r) out ps = rev ps @ out"
  by (induction ps arbitrary: out) (auto simp: clean_step_def plain_seg_def)

lemma foldl_dotdots:
  "foldl (clean_step False) (replicate m DOTDOT) (replicate n DOTDOT) = replicate (n + m) DOTDOT"
proof (induction n arbitrary: m)
  case (Suc n)
  have "clean_step False (replicate m DOTDOT) DOTDOT = replicate (Suc m) DOTDOT"
    by (cases m) (auto simp: clean_step_def)
  then show ?case using Suc [of "Suc m"] by (simp add: replicate_app_Cons_same)
qed simp

lemma clean_segs_id:
  assumes "norm_segs r segs"
  shows "clean_segs r segs = segs"
proof -
  obtain n ps where s: "segs = replicate n DOTDOT @ ps" "\<forall>s \<in> set ps. plain_seg s" "r \<longrightarrow> n = 0"
    using assms by (auto simp: norm_segs_def)
  show ?thesis
  proof (cases r)
    case True
    then show ?thesis using s by (simp add: clean_segs_def foldl_plain)
  next
    case False
    then show ?thesis using s foldl_dotdots [of 0 n]
      by (simp add: clean_segs_def foldl_plain)
  qed
qed

lemma norm_segs_member: "norm_segs r segs \<Longrightarrow> s \<in> set segs \<Longrightarrow> s = DOTDOT \<or> plain_seg s"
proof -
  assume "norm_segs r segs" and s: "s \<in> set segs"
  then obtain n ps where "segs = replicate n DOTDOT @ ps" and ps: "\<forall>s \<in> set ps. plain_seg s"
    unfolding norm_segs_def by blast
  with s have "s = DOTDOT \<or> s \<in> set ps" by simp blast
  with ps show ?thesis by blast
qed

lemma norm_segs_no_slash: "norm_segs r segs \<Longrightarrow> s \<in> set segs \<Longrightarrow> SLASH \<notin> set s \<and> s \<noteq> []"
  by (drule (1) norm_segs_member, elim disjE) (simp_all add: plain_seg_def)

lemma norm_segs_plain: "\<forall>s \<in> set segs. plain_seg s \<Longrightarrow> norm_segs r segs"
  unfolding norm_segs_def by (rule exI [of _ 0], rule exI [of _ segs]) simp

lemma norm_segs_append:
  assumes "norm_segs r segs" and "\<forall>s \<in> set ps. plain_seg s"
  shows "norm_segs r (segs @ ps)"
proof -
  obtain n qs where "segs = replicate n DOTDOT @ qs" "\<forall>s \<in> set qs. plain_seg s" "r \<longrightarrow> n = 0"
    using assms(1) unfolding norm_segs_def by blast
  then have "segs @ ps = replicate n DOTDOT @ (qs @ ps) \<and> (\<forall>s \<in> set (qs @ ps). plain_seg s)
      \<and> (r \<longrightarrow> n = 0)"
    using assms(2) by (simp add: ball_Un)
  then show ?thesis unfolding norm_segs_def by blast
qed

lemma clean_segs_skip_Nil [simp]: "clean_segs r ([] # segs) = clean_segs r segs"
  by (simp add: clean_segs_def clean_step_def)

lemma clean_segs_skip_dot [simp]: "clean_segs r (DOT # segs) = clean_segs r segs"
  by (simp add: clean_segs_def clean_step_def)

lemma join_not_rooted:
  assumes "norm_segs r segs" and "segs \<noteq> []"
  shows "\<not> rooted (join_with ''/'' segs)"
proof -
  obtain w ws where s: "segs = w # ws" using assms(2) by (cases segs) auto
  have "SLASH \<notin> set w" "w \<noteq> []" using norm_segs_no_slash [OF assms(1), of w] s by auto
  then show ?thesis using s by (cases ws; cases w) auto
qed

lemma rooted_unsegment: "norm_segs r segs \<Longrightarrow> rooted (unsegment r segs) = r"
  by (auto simp: unsegment_def dest: join_not_rooted)

lemma clean_unsegment:
  assumes "norm_segs r segs"
  shows "clean_segs r (segments (unsegment r segs)) = segs"
proof (cases "segs = []")
  case True
  then show ?thesis by (cases r) (simp_all add: unsegment_def segments_def clean_segs_def clean_step_def)
next
  case False
  have "segments (join_with ''/'' segs) = segs"
    using segments_join [OF False] norm_segs_no_slash [OF assms] by blast
  then show ?thesis using False clean_segs_id [OF assms] by (auto simp: unsegment_def)
qed

lemma path_clean_idem [simp]: "path_clean (path_clean p) = path_clean p"
  using clean_segs_norm [of "rooted p" p]
  by (simp add: path_clean_def rooted_unsegment clean_unsegment)

lemma rooted_clean [simp]: "rooted (path_clean p) = rooted p"
  using clean_segs_norm [of "rooted p" p] by (simp add: path_clean_def rooted_unsegment)

lemma join_not_Nil: "norm_segs r segs \<Longrightarrow> segs \<noteq> [] \<Longrightarrow> join_with ''/'' segs \<noteq> []"
  using norm_segs_no_slash [of r segs "hd segs"]
  by (cases segs rule: list.exhaust; cases "tl segs") auto

lemma path_clean_not_Nil [simp]: "path_clean p \<noteq> []"
  using clean_segs_norm [of "rooted p" p] join_not_Nil
  by (auto simp: path_clean_def unsegment_def)

text \<open>Whether a cleaned path leaves its starting directory is read off its first segment.\<close>

lemma norm_escapes:
  assumes "norm_segs False segs"
  shows "DOTDOT \<in> set segs \<longleftrightarrow> segs \<noteq> [] \<and> hd segs = DOTDOT"
proof -
  obtain n ps where s: "segs = replicate n DOTDOT @ ps" "\<forall>s \<in> set ps. plain_seg s"
    using assms by (auto simp: norm_segs_def)
  have "DOTDOT \<notin> set ps" using s(2) by (auto simp: plain_seg_def)
  then show ?thesis using s by (cases n; cases ps) auto
qed

end
