(* ===== verification/OutPath.thy ===== *)
theory OutPath
  imports GoPath
begin

text \<open>
  The path rules of the module: how a separator is folded and an output path canonicalised
  (\<^verbatim>\<open>fwd\<close>, \<^verbatim>\<open>canonOutPath\<close>, \<^verbatim>\<open>canonFolder\<close>), which paths are absolute, which component names
  are refused (\<^verbatim>\<open>validName\<close>), where a path stands relative to the output folder
  (\<^verbatim>\<open>withinFolder\<close>, \<^verbatim>\<open>relative\<close>), how the sidecars are named (\<^verbatim>\<open>annotatedPath\<close>), and which
  files count as binary (\<^verbatim>\<open>nodeExt\<close>, \<^verbatim>\<open>IsBinExt\<close>, \<^verbatim>\<open>IsBinContent\<close>).

  \<^verbatim>\<open>runtime.GOOS == "windows"\<close> is the parameter \<open>windows\<close>, as in the source's own seams
  \<^verbatim>\<open>isAbsFromPathOn\<close> and \<^verbatim>\<open>nodeExtOn\<close>.
\<close>

section \<open>Canonical output paths\<close>

definition fwd :: "string \<Rightarrow> string" where
  "fwd p = map (\<lambda>c. if c = BSLASH then SLASH else c) p"

definition canonOutPath :: "string \<Rightarrow> string" where
  "canonOutPath p =
     (let f = fwd p; c = path_clean f
      in if has_suffix f ''/'' \<and> \<not> has_suffix c ''/'' then c @ ''/'' else c)"

definition isDriveLetter :: "char \<Rightarrow> bool" where
  "isDriveLetter c =
     ((97 \<le> (of_char c :: nat) \<and> (of_char c :: nat) \<le> 122) \<or>
      (65 \<le> (of_char c :: nat) \<and> (of_char c :: nat) \<le> 90))"

fun isDriveKey :: "string \<Rightarrow> bool" where
  "isDriveKey (d # c # s # rest) = (isDriveLetter d \<and> c = CHR '':'' \<and> s = SLASH)"
| "isDriveKey _ = False"

definition canonFolder :: "string \<Rightarrow> string" where
  "canonFolder folder =
     (let norm = fwd (path_clean (fwd folder))
      in if norm = ''/'' \<or> isDriveKey norm \<and> length norm = 3 then norm
         else let s = trim_right SLASH norm in if s \<noteq> [] then s else DOT)"

definition isAbsPath :: "string \<Rightarrow> bool" where
  "isAbsPath p = has_prefix p ''/''"

definition isAbsFromPathOn :: "string \<Rightarrow> bool \<Rightarrow> bool" where
  "isAbsFromPathOn p windows =
     (case p of
        [] \<Rightarrow> False
      | c # rest \<Rightarrow>
          if c = SLASH then True
          else if \<not> windows then False
          else if c = BSLASH then True
          else (case rest of
                  colon # sep # _ \<Rightarrow>
                    isDriveLetter c \<and> colon = CHR '':'' \<and> (sep = SLASH \<or> sep = BSLASH)
                | _ \<Rightarrow> False))"

text \<open>A Fragment's source, relative to the output folder when it is not absolute.\<close>

definition resolveFragmentFrom :: "bool \<Rightarrow> string \<Rightarrow> string \<Rightarrow> string" where
  "resolveFragmentFrom windows folder src =
     (if src = [] \<or> isAbsFromPathOn src windows then src
      else path_clean
        ((\<lambda>p. if windows then fwd p else p) ((if folder = [] then DOT else folder) @ ''/'' @ src)))"

section \<open>Component names\<close>

text \<open>\<^verbatim>\<open>validName\<close>: whether a name is accepted; the error it gives otherwise is built by the
  caller's model from the kind and the name.\<close>

definition validName :: "string \<Rightarrow> bool" where
  "validName name =
     (name = [] \<or> DOTDOT \<notin> set (fields_func (\<lambda>c. c = SLASH \<or> c = BSLASH) name))"

section \<open>The output folder\<close>

definition pathDepth :: "string \<Rightarrow> nat" where
  "pathDepth p = length (filter (\<lambda>seg. seg \<noteq> []) (segments (path_clean (path_dir (fwd p)))))"

definition withinFolder :: "bool \<Rightarrow> string \<Rightarrow> string \<Rightarrow> bool" where
  "withinFolder windows folder p =
     (if folder = DOT then
        (if isAbsFromPathOn p windows then False
         else let c = path_clean (fwd p) in c \<noteq> DOTDOT \<and> \<not> has_prefix c ''../'')
      else if folder = ''/'' then isAbsPath p
      else p = folder \<or> has_prefix p (folder @ ''/''))"

definition relative :: "string \<Rightarrow> string \<Rightarrow> string" where
  "relative folder q =
     (let p = fwd q
      in if folder = DOT then
           (if has_prefix p ''./'' then trim_left SLASH (drop 1 p) else p)
         else if folder = ''/'' then trim_left SLASH p
         else if p = folder then []
         else if has_prefix p (folder @ ''/'') then trim_left SLASH (drop (length folder) p)
         else p)"

definition annotatedPath :: "string \<Rightarrow> string \<Rightarrow> string" where
  "annotatedPath target kind =
     (let (dir, base) = path_split target;
          ext0 = path_ext base;
          ext = (if ext0 = base then [] else ext0);
          stem = take (length base - length ext) base
      in dir @ stem @ ''.'' @ kind @ ext)"

text \<open>The directory \<^verbatim>\<open>ensureDirOf\<close> creates for \<open>p\<close>.\<close>

definition parentDir :: "string \<Rightarrow> string" where
  "parentDir p =
     (let trimmed = trim_right SLASH p
      in if trimmed \<noteq> [] \<and> trimmed \<noteq> p then path_dir trimmed else path_dir p)"

definition pathBase :: "string \<Rightarrow> string" where
  "pathBase p = snd (path_split p)"

section \<open>Binary files\<close>

text \<open>\<^verbatim>\<open>nodeExtOn\<close> scans the path from its end; \<open>ExtScan\<close> holds the variables of its loop, and the
  loop takes the bytes with their indices in descending order.\<close>

record ExtScan =
  es_startPart :: int
  es_startDot :: int
  es_end :: int
  es_matchedSlash :: bool
  es_preDotState :: int

definition ext_byte :: "int \<Rightarrow> char \<Rightarrow> ExtScan \<Rightarrow> ExtScan" where
  "ext_byte i c s0 =
     (let s = (if es_end s0 = -1 then s0\<lparr>es_matchedSlash := False, es_end := i + 1\<rparr> else s0)
      in if c = CHR ''.'' then
           (if es_startDot s = -1 then s\<lparr>es_startDot := i\<rparr>
            else if es_preDotState s \<noteq> 1 then s\<lparr>es_preDotState := 1\<rparr> else s)
         else if es_startDot s \<noteq> -1 then s\<lparr>es_preDotState := -1\<rparr> else s)"

fun ext_scan :: "(char \<Rightarrow> bool) \<Rightarrow> (int \<times> char) list \<Rightarrow> ExtScan \<Rightarrow> ExtScan" where
  "ext_scan isSep [] s = s"
| "ext_scan isSep ((i, c) # rest) s =
     (if isSep c then
        (if \<not> es_matchedSlash s then s\<lparr>es_startPart := i + 1\<rparr> else ext_scan isSep rest s)
      else ext_scan isSep rest (ext_byte i c s))"

definition nodeExtOn :: "string \<Rightarrow> bool \<Rightarrow> string" where
  "nodeExtOn path windows =
     (let isSep = (\<lambda>c. c = SLASH \<or> windows \<and> c = BSLASH);
          start = (if windows \<and> 2 \<le> length path \<and> path ! 1 = CHR '':'' \<and> isDriveLetter (path ! 0)
                   then 2 else 0 :: nat);
          s = ext_scan isSep (rev (drop start (zip [0..int (length path) - 1] path)))
                \<lparr>es_startPart = int start, es_startDot = -1, es_end = -1, es_matchedSlash = True,
                 es_preDotState = 0\<rparr>
      in if es_startDot s = -1 \<or> es_end s = -1 \<or> es_preDotState s = 0 \<or>
            es_preDotState s = 1 \<and> es_startDot s = es_end s - 1 \<and> es_startDot s = es_startPart s + 1
         then []
         else take (nat (es_end s - es_startDot s)) (drop (nat (es_startDot s)) path))"

definition binaryExts :: "string list" where
  "binaryExts =
   [''3dm'', ''3ds'', ''3g2'', ''3gp'', ''7z'', ''a'', ''aac'', ''adp'', ''afdesign'',
    ''afphoto'', ''afpub'', ''ai'', ''aif'', ''aiff'', ''alz'', ''ape'', ''apk'', ''appimage'',
    ''ar'', ''arj'', ''asf'', ''au'', ''avi'', ''bak'', ''baml'', ''bh'', ''bin'', ''bk'',
    ''bmp'', ''btif'', ''bz2'', ''bzip2'', ''cab'', ''caf'', ''cgm'', ''class'', ''cmx'',
    ''cpio'', ''cr2'', ''cur'', ''dat'', ''dcm'', ''deb'', ''dex'', ''djvu'', ''dll'', ''dmg'',
    ''dng'', ''doc'', ''docm'', ''docx'', ''dot'', ''dotm'', ''dra'', ''ds_store'', ''dsk'',
    ''dts'', ''dtshd'', ''dvb'', ''dwg'', ''dxf'', ''ecelp4800'', ''ecelp7470'', ''ecelp9600'',
    ''egg'', ''eol'', ''eot'', ''epub'', ''exe'', ''f4v'', ''fbs'', ''fh'', ''fla'', ''flac'',
    ''flatpak'', ''fli'', ''flv'', ''fpx'', ''fst'', ''fvt'', ''g3'', ''gh'', ''gif'',
    ''graffle'', ''gz'', ''gzip'', ''h261'', ''h263'', ''h264'', ''icns'', ''ico'', ''ief'',
    ''img'', ''ipa'', ''iso'', ''jar'', ''jpeg'', ''jpg'', ''jpgv'', ''jpm'', ''jxr'', ''key'',
    ''ktx'', ''lha'', ''lib'', ''lvp'', ''lz'', ''lzh'', ''lzma'', ''lzo'', ''m3u'', ''m4a'',
    ''m4v'', ''mar'', ''mdi'', ''mht'', ''mid'', ''midi'', ''mj2'', ''mka'', ''mkv'', ''mmr'',
    ''mng'', ''mobi'', ''mov'', ''movie'', ''mp3'', ''mp4'', ''mp4a'', ''mpeg'', ''mpg'',
    ''mpga'', ''mxu'', ''nef'', ''npx'', ''numbers'', ''nupkg'', ''o'', ''odp'', ''ods'',
    ''odt'', ''oga'', ''ogg'', ''ogv'', ''otf'', ''ott'', ''pages'', ''pbm'', ''pcx'', ''pdb'',
    ''pdf'', ''pea'', ''pgm'', ''pic'', ''png'', ''pnm'', ''pot'', ''potm'', ''potx'', ''ppa'',
    ''ppam'', ''ppm'', ''pps'', ''ppsm'', ''ppsx'', ''ppt'', ''pptm'', ''pptx'', ''psd'',
    ''pya'', ''pyc'', ''pyo'', ''pyv'', ''qt'', ''rar'', ''ras'', ''raw'', ''resources'',
    ''rgb'', ''rip'', ''rlc'', ''rmf'', ''rmvb'', ''rpm'', ''rtf'', ''rz'', ''s3m'', ''s7z'',
    ''scpt'', ''sgi'', ''shar'', ''snap'', ''sil'', ''sketch'', ''slk'', ''smv'', ''snk'',
    ''so'', ''stl'', ''suo'', ''sub'', ''swf'', ''tar'', ''tbz'', ''tbz2'', ''tga'', ''tgz'',
    ''thmx'', ''tif'', ''tiff'', ''tlz'', ''ttc'', ''ttf'', ''txz'', ''udf'', ''uvh'', ''uvi'',
    ''uvm'', ''uvp'', ''uvs'', ''uvu'', ''viv'', ''vob'', ''war'', ''wav'', ''wax'', ''wbmp'',
    ''wdp'', ''weba'', ''webm'', ''webp'', ''whl'', ''wim'', ''wm'', ''wma'', ''wmv'', ''wmx'',
    ''woff'', ''woff2'', ''wrm'', ''wvx'', ''xbm'', ''xif'', ''xla'', ''xlam'', ''xls'',
    ''xlsb'', ''xlsm'', ''xlsx'', ''xlt'', ''xltm'', ''xltx'', ''xm'', ''xmind'', ''xpi'',
    ''xpm'', ''xwd'', ''xz'', ''z'', ''zip'', ''zipx'']"

text \<open>
  \<^verbatim>\<open>strings.ToLower\<close> as far as a lookup in a table of ASCII words can see it: the ASCII capitals,
  and the two other characters whose lower case is an ASCII letter (U+0130 and U+212A). Every other
  character stays outside ASCII.
\<close>

definition ascii_lower :: "char \<Rightarrow> char" where
  "ascii_lower c =
     (if 65 \<le> (of_char c :: nat) \<and> (of_char c :: nat) \<le> 90 then char_of (of_char c + 32 :: nat) else c)"

fun to_lower :: "string \<Rightarrow> string" where
  "to_lower (a # b # c # s) =
     (if a = CHR 0xE2 \<and> b = CHR 0x84 \<and> c = CHR 0xAA then CHR ''k'' # to_lower s
      else if a = CHR 0xC4 \<and> b = CHR 0xB0 then CHR ''i'' # to_lower (c # s)
      else ascii_lower a # to_lower (b # c # s))"
| "to_lower [a, b] =
     (if a = CHR 0xC4 \<and> b = CHR 0xB0 then ''i'' else [ascii_lower a, ascii_lower b])"
| "to_lower [a] = [ascii_lower a]"
| "to_lower [] = []"

definition IsBinExt :: "bool \<Rightarrow> string \<Rightarrow> bool" where
  "IsBinExt windows path =
     (let low = to_lower (nodeExtOn path windows);
          ext = (if has_prefix low ''.'' then drop 1 low else low)
      in ext \<noteq> [] \<and> ext \<in> set binaryExts)"

definition IsBinContent :: "bytes \<Rightarrow> bool" where
  "IsBinContent content = (CHR 0x00 \<in> set (take 8192 content))"

section \<open>Composing a path under a folder\<close>

lemma fwd_append [simp]: "fwd (p @ q) = fwd p @ fwd q"
  by (simp add: fwd_def)

lemma fwd_Cons: "fwd (c # p) = (if c = BSLASH then SLASH else c) # fwd p"
  by (simp add: fwd_def)

lemma fwd_Nil [simp]: "fwd [] = []" "fwd p = [] \<longleftrightarrow> p = []"
  by (simp_all add: fwd_def)

lemma fwd_id: "BSLASH \<notin> set p \<Longrightarrow> fwd p = p"
  by (induction p) (auto simp: fwd_def)

lemma fwd_no_bslash: "BSLASH \<notin> set (fwd p)"
  by (auto simp: fwd_def)

lemma fwd_idem [simp]: "fwd (fwd p) = fwd p"
  by (rule fwd_id [OF fwd_no_bslash])

lemma split_by_append:
  "p d \<Longrightarrow> split_by p (a @ d # b) = split_by p a @ split_by p b"
proof (induction a)
  case (Cons c a)
  obtain w ws where "split_by p a = w # ws" by (meson split_by_not_Nil list.exhaust)
  with Cons show ?case by auto
qed simp

lemma segments_append: "segments (a @ SLASH # b) = segments a @ segments b"
  by (simp add: segments_def split_by_append)

lemma join_append:
  "xs \<noteq> [] \<Longrightarrow> ys \<noteq> [] \<Longrightarrow> join_with sep (xs @ ys) = join_with sep xs @ sep @ join_with sep ys"
proof (induction xs)
  case (Cons x xs)
  then show ?case by (cases xs; cases ys) auto
qed simp

lemma split_by_map:
  "split_by (\<lambda>c. c = SLASH) (fwd n) = split_by (\<lambda>c. c = SLASH \<or> c = BSLASH) n"
  by (induction n) (auto simp: fwd_def split: list.splits)

text \<open>A name that is accepted has no parent segment once its separators are folded.\<close>

lemma validName_segments:
  assumes "validName n"
  shows "DOTDOT \<notin> set (segments (fwd n))"
proof (cases "n = []")
  case True
  then show ?thesis by (simp add: segments_def)
next
  case False
  then show ?thesis
    using assms by (auto simp: validName_def fields_func_def segments_def split_by_map)
qed

definition kept_segs :: "string list \<Rightarrow> string list" where
  "kept_segs segs = filter (\<lambda>s. s \<noteq> [] \<and> s \<noteq> DOT) segs"

lemma foldl_kept:
  "DOTDOT \<notin> set segs \<Longrightarrow> foldl (clean_step r) out segs = rev (kept_segs segs) @ out"
  by (induction segs arbitrary: out) (auto simp: clean_step_def kept_segs_def)

lemma kept_segs_plain: "s \<in> set (kept_segs (segments p)) \<Longrightarrow> DOTDOT \<notin> set (segments p) \<Longrightarrow> plain_seg s"
  by (auto simp: kept_segs_def plain_seg_def dest: segments_no_slash)

lemma clean_segs_append:
  "DOTDOT \<notin> set segs' \<Longrightarrow> clean_segs r (segs @ segs') = clean_segs r segs @ kept_segs segs'"
  by (simp add: clean_segs_def foldl_kept)

lemma unsegment_prefix:
  "A \<noteq> [] \<Longrightarrow> B \<noteq> [] \<Longrightarrow> unsegment r (A @ B) = unsegment r A @ ''/'' @ join_with ''/'' B"
  by (simp add: unsegment_def join_append)

lemma rooted_append: "a \<noteq> [] \<Longrightarrow> rooted (a @ b) = rooted a"
  by (cases a) auto

text \<open>The cleaned composition of a folder and an accepted name.\<close>

lemma clean_composed:
  assumes "validName n" and "folder \<noteq> []"
  shows "path_clean (fwd (folder @ ''/'' @ n))
    = unsegment (rooted (fwd folder))
        (clean_segs (rooted (fwd folder)) (segments (fwd folder)) @ kept_segs (segments (fwd n)))"
proof -
  have "fwd (folder @ ''/'' @ n) = fwd folder @ SLASH # fwd n" by (simp add: fwd_Cons)
  then show ?thesis
    using assms validName_segments [OF assms(1)]
    by (simp add: path_clean_def segments_append clean_segs_append rooted_append)
qed

lemma last_join: "ws \<noteq> [] \<Longrightarrow> last ws \<noteq> [] \<Longrightarrow> last (join_with sep ws) = last (last ws)"
  by (cases ws rule: rev_cases; cases "butlast ws = []") (auto simp: join_append)

lemma path_clean_no_trailing:
  assumes "path_clean p \<noteq> ''/''"
  shows "last (path_clean p) \<noteq> SLASH"
proof -
  let ?s = "clean_segs (rooted p) (segments p)"
  have n: "norm_segs (rooted p) ?s" by (rule clean_segs_norm)
  show ?thesis
  proof (cases "?s = []")
    case True
    then show ?thesis using assms by (auto simp: path_clean_def unsegment_def)
  next
    case False
    from norm_segs_no_slash [OF n, of "last ?s"] False
    have l: "SLASH \<notin> set (last ?s)" "last ?s \<noteq> []" by auto
    have j: "last (join_with ''/'' ?s) = last (last ?s)" "join_with ''/'' ?s \<noteq> []"
      using last_join [OF False l(2)] join_not_Nil [OF n False] by simp_all
    have "last (last ?s) \<noteq> SLASH" using l by (metis last_in_set)
    then show ?thesis using False j by (auto simp: path_clean_def unsegment_def)
  qed
qed

lemma trim_right_id: "s = [] \<or> last s \<noteq> c \<Longrightarrow> trim_right c s = s"
  by (cases s rule: rev_cases) (auto simp: trim_right_def)

text \<open>Off Windows, cleaning alone canonicalises the output folder.\<close>

lemma fwd_clean_fwd [simp]: "fwd (path_clean (fwd p)) = path_clean (fwd p)"
proof (rule fwd_id)
  have sub: "set (join_with sep ws) \<subseteq> set sep \<union> \<Union> (set ` set ws)" for sep :: string and ws
    by (induction sep ws rule: join_with.induct) auto
  have parts: "w \<in> set (segments q) \<Longrightarrow> set w \<subseteq> set q" for w q
  proof (induction q arbitrary: w)
    case (Cons c q)
    obtain v vs where "segments q = v # vs" by (meson segments_not_Nil list.exhaust)
    with Cons show ?case by (force simp: segments_def split: if_splits)
  qed (simp add: segments_def)
  have step: "set (foldl (clean_step r) out segs) \<subseteq> insert DOTDOT (set out \<union> set segs)" for r out segs
    by (induction segs arbitrary: out) (force simp: clean_step_def split: list.splits if_splits)+
  let ?s = "clean_segs (rooted (fwd p)) (segments (fwd p))"
  have "BSLASH \<notin> set w" if "w \<in> set ?s" for w
  proof -
    have "w = DOTDOT \<or> w \<in> set (segments (fwd p))"
      using that step [of "rooted (fwd p)" "[]" "segments (fwd p)"] by (auto simp: clean_segs_def)
    then show ?thesis using parts [of w "fwd p"] fwd_no_bslash [of p] by auto
  qed
  then show "BSLASH \<notin> set (path_clean (fwd p))"
    using sub [of "''/''" ?s] by (auto simp: path_clean_def unsegment_def)
qed

lemma canonFolder_clean: "canonFolder f = path_clean (fwd f)"
proof (cases "path_clean (fwd f) = ''/''")
  case True
  then show ?thesis by (simp add: canonFolder_def Let_def fwd_def)
next
  case False
  then have "trim_right SLASH (path_clean (fwd f)) = path_clean (fwd f)"
    using path_clean_no_trailing by (intro trim_right_id) auto
  then show ?thesis by (simp add: canonFolder_def Let_def)
qed

end
