(* ===== verification/FhLow.thy ===== *)
theory FhLow
  imports Comp Options BuildMeta OutPath
begin

text \<open>
  The state of a build's file handler and its low-level methods (\<^verbatim>\<open>go/filehandler.go\<close>): the audited
  \<^verbatim>\<open>existsFile\<close>, \<^verbatim>\<open>loadFile\<close>, \<^verbatim>\<open>loadJSON\<close>, \<^verbatim>\<open>saveFile\<close>, \<^verbatim>\<open>saveJSON\<close> and \<^verbatim>\<open>copyFile\<close>, the
  atomic write through a temporary file, the directory cache, the baseline copy, and the lists of
  files it reports.

  \<open>Cfg\<close> holds what a run never changes: the provider, the options, the clock (the instant of its
  n-th sample), the random source, the digest SHA-256 and \<^verbatim>\<open>json.Unmarshal\<close> into an untyped value.
  \<open>Fh\<close> holds what it does change, the provider's own state \<open>fh_vol\<close> included; \<open>fh_seq\<close> is the
  process-wide \<^verbatim>\<open>tmpSeq\<close>.
\<close>

unbundle bit_operations_syntax

datatype aval = ABool bool | AInt int | AStr string | AStrs "string list" | AErr error

record AuditEntry =
  ae_Tag :: string
  ae_Data :: "(string \<times> aval) list"

record Files =
  fl_Preserved :: "string list"
  fl_Written :: "string list"
  fl_Presented :: "string list"
  fl_Diffed :: "string list"
  fl_Merged :: "string list"
  fl_Conflicted :: "string list"
  fl_Unchanged :: "string list"
  fl_Unmerged :: "string list"

record 'f Cfg =
  c_api :: "'f FS"
  c_now :: "nat \<Rightarrow> int"
  c_folder :: string
  c_when :: int
  c_existing :: Existing
  c_control :: Control
  c_windows :: bool
  c_pid :: nat
  c_rand :: "64 word \<Rightarrow> bytes option"
  c_sha256 :: "bytes \<Rightarrow> bytes"
  c_unmarshal :: "bytes \<Rightarrow> string + json"

record 'f Fh =
  fh_vol :: 'f
  fh_clock :: nat
  fh_seq :: "64 word"
  fh_audit :: "AuditEntry list"
  fh_files :: Files
  fh_logged :: "(string \<times> string) list"
  fh_created :: "string list"
  fh_saved :: "string list"
  fh_failures :: "(string \<times> string) list"
  fh_warnings :: "string list list"
  fh_prev :: "doc option"
  fh_meta :: "metaEntry list"

definition maxDepth :: nat where "maxDepth = 22"

definition duplicateFolder :: "'f Cfg \<Rightarrow> string" where
  "duplicateFolder c = path_join [c_folder c, ''.jostraca'', ''generated'']"

definition wstrOf :: "string \<Rightarrow> string" where
  "wstrOf whence = (if whence = [] then [] else whence @ '':'')"

section \<open>State access\<close>

definition sample :: "'f Cfg \<Rightarrow> ('f Fh, int) comp" where
  "sample c s = (s\<lparr>fh_clock := Suc (fh_clock s)\<rparr>, Inr (c_now c (fh_clock s)))"

definition appendAudit :: "string \<Rightarrow> (string \<times> aval) list \<Rightarrow> ('f Fh, unit) comp" where
  "appendAudit tag data = modify (\<lambda>s. s\<lparr>fh_audit := fh_audit s @ [\<lparr>ae_Tag = tag, ae_Data = data\<rparr>]\<rparr>)"

definition warn :: "string list \<Rightarrow> ('f Fh, unit) comp" where
  "warn args = modify (\<lambda>s. s\<lparr>fh_warnings := fh_warnings s @ [args]\<rparr>)"

text \<open>A query of the provider, and a call that changes its state and gives its error.\<close>

definition fs_ask :: "('f \<Rightarrow> 'a) \<Rightarrow> ('f Fh, 'a) comp" where
  "fs_ask f = gets (\<lambda>s. f (fh_vol s))"

definition fs_do :: "('f \<Rightarrow> 'f \<times> fs_error option) \<Rightarrow> ('f Fh, fs_error option) comp" where
  "fs_do f s = (case f (fh_vol s) of (v, r) \<Rightarrow> (s\<lparr>fh_vol := v\<rparr>, Inr r))"

section \<open>Files reported\<close>

definition file_kinds :: "string list" where
  "file_kinds = [''preserved'', ''written'', ''presented'', ''diffed'', ''merged'', ''conflicted'',
     ''unchanged'', ''unmerged'']"

definition slot_of :: "string \<Rightarrow> Files \<Rightarrow> string list" where
  "slot_of kind f =
     (if kind = ''preserved'' then fl_Preserved f
      else if kind = ''written'' then fl_Written f
      else if kind = ''presented'' then fl_Presented f
      else if kind = ''diffed'' then fl_Diffed f
      else if kind = ''merged'' then fl_Merged f
      else if kind = ''conflicted'' then fl_Conflicted f
      else if kind = ''unchanged'' then fl_Unchanged f
      else if kind = ''unmerged'' then fl_Unmerged f
      else [])"

definition push_slot :: "string \<Rightarrow> string \<Rightarrow> Files \<Rightarrow> Files" where
  "push_slot kind p f =
     (if kind = ''preserved'' then f\<lparr>fl_Preserved := fl_Preserved f @ [p]\<rparr>
      else if kind = ''written'' then f\<lparr>fl_Written := fl_Written f @ [p]\<rparr>
      else if kind = ''presented'' then f\<lparr>fl_Presented := fl_Presented f @ [p]\<rparr>
      else if kind = ''diffed'' then f\<lparr>fl_Diffed := fl_Diffed f @ [p]\<rparr>
      else if kind = ''merged'' then f\<lparr>fl_Merged := fl_Merged f @ [p]\<rparr>
      else if kind = ''conflicted'' then f\<lparr>fl_Conflicted := fl_Conflicted f @ [p]\<rparr>
      else if kind = ''unchanged'' then f\<lparr>fl_Unchanged := fl_Unchanged f @ [p]\<rparr>
      else if kind = ''unmerged'' then f\<lparr>fl_Unmerged := fl_Unmerged f @ [p]\<rparr>
      else f)"

definition filelog :: "string \<Rightarrow> string \<Rightarrow> ('f Fh, unit) comp" where
  "filelog kind p s =
     (if kind \<notin> set file_kinds then warn [''filelog'', ''invalid kind: '' @ kind] s
      else if (kind, p) \<in> set (fh_logged s) then warn [''filelog'', kind, ''duplicate: '' @ p] s
      else (s\<lparr>fh_logged := (kind, p) # fh_logged s, fh_files := push_slot kind p (fh_files s)\<rparr>, Inr ()))"

section \<open>Temporary names\<close>

definition hex_encode :: "bytes \<Rightarrow> string" where
  "hex_encode b = concat (map (\<lambda>c. [hex_digit (byte c div 16), hex_digit (byte c mod 16)]) b)"

definition digit36 :: "nat \<Rightarrow> char" where
  "digit36 n = ''0123456789abcdefghijklmnopqrstuvwxyz'' ! n"

fun show36 :: "nat \<Rightarrow> string" where
  "show36 n = (if n < 36 then [digit36 n] else show36 (n div 36) @ [digit36 (n mod 36)])"

declare show36.simps [simp del]

text \<open>\<^verbatim>\<open>binary.LittleEndian.PutUint32\<close>.\<close>

definition le32 :: "32 word \<Rightarrow> bytes" where
  "le32 n = map (\<lambda>i. char_of (unat (ucast (drop_bit (8 * i) n) :: 8 word))) [0, 1, 2, 3]"

definition tmpSuffix :: string where "tmpSuffix = ''.jostraca-tmp''"

definition tmp_suffix_of :: "'f Cfg \<Rightarrow> 64 word \<Rightarrow> string" where
  "tmp_suffix_of c n =
     (let rnd = (case c_rand c n of Some b \<Rightarrow> b | None \<Rightarrow> le32 (ucast n))
      in tmpSuffix @ ''-'' @ show_nat (c_pid c) @ ''-'' @ show36 (unat (n + 1)) @ ''-'' @ hex_encode rnd)"

definition tmppathFor :: "'f Cfg \<Rightarrow> string \<Rightarrow> ('f Fh, string) comp" where
  "tmppathFor c p s =
     (s\<lparr>fh_seq := fh_seq s + 1\<rparr>, Inr (p @ tmp_suffix_of c (fh_seq s)))"

section \<open>Atomic writes\<close>

definition removeTemp :: "'f Cfg \<Rightarrow> string \<Rightarrow> ('f Fh, unit) comp" where
  "removeTemp c tmp =
     bnd (fs_do (\<lambda>v. api_Remove (c_api c) v tmp)) (\<lambda>r.
       case r of
         None \<Rightarrow> ret ()
       | Some e \<Rightarrow> if isErrNotExist e then ret ()
                   else warn [''writeFileAtomic'', ''temp cleanup failed: '' @ tmp])"

definition tmpPathAttempts :: nat where "tmpPathAttempts = 9"

text \<open>The loop over candidate names; None is an exhausted loop.\<close>

fun try_temps :: "'f Cfg \<Rightarrow> string \<Rightarrow> bytes \<Rightarrow> nat \<Rightarrow> ('f Fh, string option) comp" where
  "try_temps c p content 0 = ret None"
| "try_temps c p content (Suc k) =
     bnd (tmppathFor c p) (\<lambda>cand.
       case api_WriteFileExcl (c_api c) of
         Some excl \<Rightarrow>
           bnd (fs_do (\<lambda>v. excl v cand content)) (\<lambda>werr.
             case werr of
               None \<Rightarrow> ret (Some cand)
             | Some e \<Rightarrow>
                 if \<not> isErrExist e then seq (removeTemp c cand) (fail (ErrFs e))
                 else try_temps c p content k)
       | None \<Rightarrow>
           bnd (fs_ask (\<lambda>v. api_Exists (c_api c) v cand)) (\<lambda>taken.
             if taken then try_temps c p content k
             else bnd (fs_do (\<lambda>v. api_WriteFile (c_api c) v cand content)) (\<lambda>werr.
               case werr of
                 Some e \<Rightarrow> seq (removeTemp c cand) (fail (ErrFs e))
               | None \<Rightarrow> ret (Some cand))))"

text \<open>A target whose name ends in a slash must be below an existing directory.\<close>

definition check_slash_target :: "'f Cfg \<Rightarrow> string \<Rightarrow> ('f Fh, unit) comp" where
  "check_slash_target c p =
     (let dir = trim_right SLASH p
      in if dir \<noteq> p \<and> dir \<noteq> [] then
           bnd (fs_ask (\<lambda>v. api_Stat (c_api c) v dir)) (\<lambda>st.
             case st of
               Inl e \<Rightarrow> bnd (tmppathFor c p) (\<lambda>tmp. fail (ErrFs (PathError ''open'' tmp FsNotExist)))
             | Inr fi \<Rightarrow>
                 if \<not> fi_IsDir fi then
                   bnd (tmppathFor c p) (\<lambda>tmp. fail (ErrFs (PathError ''open'' tmp FsNotDir)))
                 else ret ())
         else ret ())"

text \<open>The mode of the temporary file: the one asked for, else the target's own; best effort.\<close>

definition copy_mode :: "'f Cfg \<Rightarrow> string \<Rightarrow> string \<Rightarrow> FileMode \<Rightarrow> ('f Fh, unit) comp" where
  "copy_mode c tmp p mode =
     (case api_Chmod (c_api c) of
        None \<Rightarrow> ret ()
      | Some chmod \<Rightarrow>
          if mode \<noteq> 0 then bnd (fs_do (\<lambda>v. chmod v tmp mode)) (\<lambda>_. ret ())
          else bnd (fs_ask (\<lambda>v. api_Stat (c_api c) v p)) (\<lambda>st.
            case st of
              Inr fi \<Rightarrow> if \<not> fi_IsDir fi then bnd (fs_do (\<lambda>v. chmod v tmp (fi_Mode fi))) (\<lambda>_. ret ())
                        else ret ()
            | Inl e \<Rightarrow> ret ()))"

definition writeAtomicMode :: "'f Cfg \<Rightarrow> string \<Rightarrow> bytes \<Rightarrow> FileMode \<Rightarrow> ('f Fh, unit) comp" where
  "writeAtomicMode c p content mode =
     seq (check_slash_target c p)
       (bnd (try_temps c p content tmpPathAttempts) (\<lambda>found.
          case found of
            None \<Rightarrow> fail (ErrNoTempPath p)
          | Some tmp \<Rightarrow>
              seq (copy_mode c tmp p mode)
                (bnd (fs_do (\<lambda>v. api_Rename (c_api c) v tmp p)) (\<lambda>r.
                   case r of
                     Some e \<Rightarrow> seq (removeTemp c tmp) (fail (ErrFs e))
                   | None \<Rightarrow> ret ()))))"

definition writeAtomic :: "'f Cfg \<Rightarrow> string \<Rightarrow> bytes \<Rightarrow> ('f Fh, unit) comp" where
  "writeAtomic c p content = writeAtomicMode c p content 0"

definition chmodBits :: FileMode where
  "chmodBits = (ModePerm OR ModeSetuid OR ModeSetgid OR ModeSticky)"

definition chmodUnchanged :: "'f Cfg \<Rightarrow> string \<Rightarrow> FileMode \<Rightarrow> ('f Fh, bool) comp" where
  "chmodUnchanged c p mode =
     (if mode = 0 \<or> ct_Dryrun (c_control c) then ret False
      else (case api_Chmod (c_api c) of
              None \<Rightarrow> ret False
            | Some chmod \<Rightarrow>
                bnd (fs_ask (\<lambda>v. api_Stat (c_api c) v p)) (\<lambda>st.
                  if (case st of Inr fi \<Rightarrow> fi_Mode fi AND chmodBits = mode AND chmodBits | Inl e \<Rightarrow> False)
                  then ret False
                  else bnd (fs_do (\<lambda>v. chmod v p mode)) (\<lambda>r.
                    case r of
                      Some e \<Rightarrow> seq (warn [''save'', ''chmod of unchanged file failed: '' @ p]) (ret False)
                    | None \<Rightarrow> ret True))))"

section \<open>Directories\<close>

definition ensureFolder :: "'f Cfg \<Rightarrow> string \<Rightarrow> ('f Fh, unit) comp" where
  "ensureFolder c p =
     (if p = [] \<or> p = DOT \<or> p = ''/'' then ret ()
      else if ct_Dryrun (c_control c) then ret ()
      else bnd (gets (\<lambda>s. p \<in> set (fh_created s))) (\<lambda>known.
        if known then ret ()
        else bnd (fs_do (\<lambda>v. api_MkdirAll (c_api c) v p)) (\<lambda>r.
          case r of
            Some e \<Rightarrow> fail (ErrFs e)
          | None \<Rightarrow> modify (\<lambda>s. s\<lparr>fh_created := p # fh_created s\<rparr>))))"

definition ensureDirOf :: "'f Cfg \<Rightarrow> string \<Rightarrow> ('f Fh, unit) comp" where
  "ensureDirOf c p =
     (let dir = parentDir p
      in if dir = [] \<or> dir = DOT \<or> dir = ''/'' then ret () else ensureFolder c dir)"

section \<open>Audited calls\<close>

definition validPath :: "string \<Rightarrow> string \<Rightarrow> ('f Fh, unit) comp" where
  "validPath p errmark =
     (if p = [] then fail (ErrPathRefused (''ERROR:'' @ errmark @ '' invalid path, path='' @ p))
      else if maxDepth < pathDepth p then fail (ErrPathRefused (errmark @ '' path too deep, path='' @ p))
      else ret ())"

definition existsFile :: "'f Cfg \<Rightarrow> string \<Rightarrow> string \<Rightarrow> ('f Fh, bool) comp" where
  "existsFile c p whence =
     bnd (sample c) (\<lambda>when.
       seq (validPath p (''FileHandler:existsFile:from:'' @ wstrOf whence))
         (bnd (fs_ask (\<lambda>v. api_Exists (c_api c) v (canonOutPath p))) (\<lambda>ex.
            seq (appendAudit (''FileHandler:existsFile:'' @ wstrOf whence)
                  [(''path'', AStr p), (''when'', AInt when), (''exists'', ABool ex)])
              (ret ex))))"

definition load :: "'f Cfg \<Rightarrow> string \<Rightarrow> string \<Rightarrow> string \<Rightarrow> ('f Fh, bytes) comp" where
  "load c p full whence =
     bnd (sample c) (\<lambda>when.
       let wstr = wstrOf whence
       in seq (validPath p (''FileHandler:loadFile:'' @ wstr))
            (bnd (fs_ask (\<lambda>v. api_ReadFile (c_api c) v full)) (\<lambda>r.
               case r of
                 Inl e \<Rightarrow>
                   seq (appendAudit (''ERROR:FileHandler:loadFile:'' @ wstr)
                         [(''path'', AStr p), (''when'', AInt when), (''err'', AErr (ErrFs e))])
                     (fail (ErrFh (''FileHandler:loadFile:'' @ wstr @ '' path='' @ p @ '' err='') (ErrFs e)))
               | Inr b \<Rightarrow>
                   seq (appendAudit (''FileHandler:loadFile:'' @ wstr)
                         [(''path'', AStr p), (''when'', AInt when), (''size'', AInt (int (length b)))])
                     (ret b))))"

definition loadFile :: "'f Cfg \<Rightarrow> string \<Rightarrow> string \<Rightarrow> ('f Fh, bytes) comp" where
  "loadFile c p whence = load c p (canonOutPath p) whence"

definition loadSource :: "'f Cfg \<Rightarrow> string \<Rightarrow> string \<Rightarrow> ('f Fh, bytes) comp" where
  "loadSource c p whence = load c p p whence"

definition loadJSON :: "'f Cfg \<Rightarrow> string \<Rightarrow> string \<Rightarrow> ('f Fh, doc) comp" where
  "loadJSON c p whence =
     bnd (sample c) (\<lambda>when.
       bnd (attempt (loadFile c p whence)) (\<lambda>r.
         let wstr = wstrOf whence;
             parsed = (case r of
               Inl e \<Rightarrow> Inl e
             | Inr b \<Rightarrow> (case c_unmarshal c b of Inl msg \<Rightarrow> Inl (ErrUnmarshal msg) | Inr v \<Rightarrow> Inr (b, v)))
         in (case parsed of
               Inl e \<Rightarrow>
                 seq (appendAudit (''ERROR:FileHandler:loadJSON:'' @ wstr)
                       [(''path'', AStr p), (''when'', AInt when), (''err'', AErr e)])
                   (fail (ErrFh (''FileHandler:loadJSON:'' @ wstr @ '' path='' @ p @ '' err='') e))
             | Inr (b, v) \<Rightarrow>
                 seq (appendAudit (''FileHandler:loadJSON:'' @ wstr)
                       [(''path'', AStr p), (''when'', AInt when), (''size'', AInt (int (length b)))])
                   (ret (obj_of (Some v))))))"

definition saveFile :: "'f Cfg \<Rightarrow> string \<Rightarrow> bytes \<Rightarrow> FileMode \<Rightarrow> string \<Rightarrow> ('f Fh, unit) comp" where
  "saveFile c p content mode whence =
     bnd (sample c) (\<lambda>when.
       seq (validPath p ''saveFile:'')
         (let wstr = wstrOf whence; full = canonOutPath p
          in bnd (fs_ask (\<lambda>v. api_Exists (c_api c) v full)) (\<lambda>existed.
            bnd (attempt (seq (ensureDirOf c full)
                   (if ct_Dryrun (c_control c) then ret () else writeAtomicMode c full content mode))) (\<lambda>r.
              case r of
                Inl e \<Rightarrow>
                  seq (appendAudit (''ERROR:FileHandler:saveFile:'' @ wstr)
                        [(''path'', AStr full), (''when'', AInt when),
                         (''size'', AInt (int (length content))), (''err'', AErr e)])
                    (fail (ErrFh (''FileHandler:saveFile:'' @ wstr @ '' path='' @ full @ '':'') e))
              | Inr _ \<Rightarrow>
                  appendAudit (''FileHandler:saveFile:'' @ wstr)
                    [(''path'', AStr full), (''when'', AInt when), (''existed'', ABool existed),
                     (''size'', AInt (int (length content)))]))))"

definition saveJSON :: "'f Cfg \<Rightarrow> string \<Rightarrow> bytes \<Rightarrow> string \<Rightarrow> ('f Fh, unit) comp" where
  "saveJSON c p doc whence =
     bnd (sample c) (\<lambda>when.
       bnd (attempt (saveFile c p doc 0 whence)) (\<lambda>r.
         let wstr = wstrOf whence
         in (case r of
               Inl e \<Rightarrow>
                 seq (appendAudit (''ERROR:FileHandler:saveJSON:'' @ wstr)
                       [(''path'', AStr p), (''when'', AInt when), (''err'', AErr e)])
                   (fail (ErrFh (''FileHandler:saveJSON:'' @ wstr @ '' path='' @ p @ '' err='') e))
             | Inr _ \<Rightarrow>
                 appendAudit (''FileHandler:saveJSON:'' @ wstr)
                   [(''path'', AStr p), (''when'', AInt when), (''size'', AInt (int (length doc)))])))"

definition copyFile :: "'f Cfg \<Rightarrow> string \<Rightarrow> string \<Rightarrow> string \<Rightarrow> ('f Fh, unit) comp" where
  "copyFile c src to whence =
     bnd (sample c) (\<lambda>when.
       let wstr = wstrOf whence; fullto = canonOutPath to; fullfrom = canonOutPath src
       in seq (validPath src (''FileHandler:copyFile:from:'' @ wstr))
            (seq (validPath to (''FileHandler:copyFile:to:'' @ wstr))
               (bnd (fs_ask (\<lambda>v. api_Exists (c_api c) v fullto)) (\<lambda>existed.
                  bnd (fs_ask (\<lambda>v. api_ReadFile (c_api c) v fullfrom)) (\<lambda>got.
                    bnd (attempt (case got of
                           Inl e \<Rightarrow> fail (ErrFs e)
                         | Inr content \<Rightarrow>
                             seq (ensureDirOf c fullto)
                               (if ct_Dryrun (c_control c) then ret () else writeAtomic c fullto content))) (\<lambda>r.
                      case r of
                        Inl e \<Rightarrow>
                          seq (appendAudit (''ERROR:FileHandler:copyFile:'' @ wstr)
                                [(''topath'', AStr to), (''frompath'', AStr src), (''when'', AInt when),
                                 (''err'', AErr e)])
                            (fail (ErrFh (''FileHandler:copyFile:'' @ wstr @ '' topath='' @ to @
                              '' frompath='' @ src @ '' err='') e))
                      | Inr _ \<Rightarrow>
                          appendAudit (''FileHandler:copyFile:'' @ wstr)
                            [(''topath'', AStr to), (''frompath'', AStr src), (''when'', AInt when),
                             (''existed'', ABool existed),
                             (''size'', AInt (int (case got of Inr b \<Rightarrow> length b | Inl _ \<Rightarrow> 0)))]))))))"

section \<open>The merge baseline\<close>

definition writeDuplicate :: "'f Cfg \<Rightarrow> string \<Rightarrow> bytes \<Rightarrow> ('f Fh, unit) comp" where
  "writeDuplicate c rpath content =
     (if ct_Dryrun (c_control c) \<or> \<not> Duplicate (c_control c) then ret ()
      else let dup = duplicateFolder c @ ''/'' @ rpath;
               root = path_clean (duplicateFolder c);
               cleaned = path_clean dup
           in if cleaned \<noteq> root \<and> \<not> has_prefix cleaned (root @ ''/'') then
                warn [''save'', ''baseline path escapes the duplicate folder, skipping: '' @ dup]
              else seq (ensureDirOf c dup) (writeAtomic c dup content))"

end
