(* ===== verification/FileHandler.thy ===== *)
theory FileHandler
  imports FhLow Merge
begin

text \<open>
  Saving a file under the existing-file modes (\<^verbatim>\<open>saveAs\<close> and \<^verbatim>\<open>saveMerge\<close> of
  \<^verbatim>\<open>go/filehandler.go\<close>), and the handler's construction and final bookkeeping
  (\<^verbatim>\<open>newFileHandler\<close>, and \<^verbatim>\<open>load\<close> and \<^verbatim>\<open>done\<close> of \<^verbatim>\<open>go/buildmeta.go\<close>). \<^verbatim>\<open>saveAs\<close> is one long
  function; its branches are the definitions \<open>save_preserve\<close> to \<open>save_finish\<close>, which hand on the
  function's local variables in \<open>SaveVars\<close>.
\<close>

definition protectMarker :: string where "protectMarker = ''JOSTRACA_PROTECT''"
definition metaFilename :: string where "metaFilename = ''jostraca.meta.log''"

definition mergeWhy :: "MergeOutcome \<Rightarrow> string" where
  "mergeWhy out = (case out of
     MergeSame \<Rightarrow> ''merge-same-0'' | MergeClean \<Rightarrow> ''merge-clean-0''
   | MergeUnresolved \<Rightarrow> ''merge-unresolved-0'' | MergeMerged \<Rightarrow> ''merge-run-0'')"

definition fingerprint :: "'f Cfg \<Rightarrow> bytes \<Rightarrow> string" where
  "fingerprint c b = take 16 (hex_encode (c_sha256 c b))"

record modeBits =
  mb_write :: bool
  mb_preserve :: bool
  mb_present :: bool
  mb_diff :: bool
  mb_merge :: bool
  mb_conflictFail :: bool

definition boolOr :: "bool option \<Rightarrow> bool \<Rightarrow> bool" where
  "boolOr p def = (case p of None \<Rightarrow> def | Some b \<Rightarrow> b)"

definition modesFor :: "'f Cfg \<Rightarrow> bool \<Rightarrow> modeBits" where
  "modesFor c isText =
     (let t = ex_Txt (c_existing c); b = ex_Bin (c_existing c)
      in if isText then
           \<lparr>mb_write = boolOr (et_Write t) True, mb_preserve = boolOr (et_Preserve t) False,
            mb_present = boolOr (et_Present t) False, mb_diff = boolOr (et_Diff t) False,
            mb_merge = boolOr (et_Merge t) False, mb_conflictFail = (et_Conflict t = ConflictFail)\<rparr>
         else
           \<lparr>mb_write = boolOr (eb_Write b) True, mb_preserve = boolOr (eb_Preserve b) False,
            mb_present = boolOr (eb_Present b) False, mb_diff = False, mb_merge = False,
            mb_conflictFail = False\<rparr>)"

definition pick :: "bool \<Rightarrow> string \<Rightarrow> string \<Rightarrow> string" where
  "pick b yes no = (if b then yes else no)"

section \<open>Records of one save\<close>

record SaveVars =
  sv_write :: bool
  sv_unchanged :: bool
  sv_final :: bool
  sv_landed :: bool
  sv_why :: "string list"
  sv_meta :: metaEntry

definition because :: "string \<Rightarrow> SaveVars \<Rightarrow> SaveVars" where
  "because w sv = sv\<lparr>sv_why := sv_why sv @ [w]\<rparr>"

definition decision :: "string \<Rightarrow> metaEntry \<Rightarrow> string list \<Rightarrow> string \<Rightarrow> ('f Fh, unit) comp" where
  "decision tag m why p =
     appendAudit (tag @ me_Action m)
       [(''action'', AStr (me_Action m)), (''path'', AStr p), (''exists'', ABool (me_Exists m)),
        (''actions'', AStrs (me_Actions m)), (''protect'', ABool (me_Protect m)),
        (''conflict'', ABool (me_Conflict m)), (''when'', AInt (me_When m)),
        (''hwhen'', AInt (HumanifyDigits (me_When m))), (''why'', AStrs why)]"

text \<open>The closure \<^verbatim>\<open>record\<close>: one clock sample, the action, and its decision record.\<close>

definition record_action :: "'f Cfg \<Rightarrow> string \<Rightarrow> string \<Rightarrow> string \<Rightarrow> SaveVars \<Rightarrow> ('f Fh, SaveVars) comp" where
  "record_action c dtag p action sv =
     bnd (sample c) (\<lambda>t.
       let m = (sv_meta sv)\<lparr>me_Action := action, me_When := t,
                 me_Actions := me_Actions (sv_meta sv) @ [action]\<rparr>
       in seq (decision dtag m (sv_why sv) p) (ret (sv\<lparr>sv_meta := m\<rparr>)))"

text \<open>The write and skip records, whose decision comes at the end of the save.\<close>

definition final_action :: "'f Cfg \<Rightarrow> string \<Rightarrow> SaveVars \<Rightarrow> ('f Fh, SaveVars) comp" where
  "final_action c action sv =
     bnd (sample c) (\<lambda>t.
       ret (sv\<lparr>sv_final := True,
             sv_meta := (sv_meta sv)\<lparr>me_Action := action, me_When := t,
               me_Actions := me_Actions (sv_meta sv) @ [action]\<rparr>\<rparr>))"

text \<open>An unchanged file still takes an explicit mode.\<close>

definition apply_mode :: "'f Cfg \<Rightarrow> string \<Rightarrow> FileMode \<Rightarrow> SaveVars \<Rightarrow> ('f Fh, SaveVars) comp" where
  "apply_mode c p mode sv =
     bnd (chmodUnchanged c p mode) (\<lambda>did. ret (if did then because ''chmod-0'' sv else sv))"

section \<open>The branches for an existing file\<close>

definition save_preserve ::
  "'f Cfg \<Rightarrow> string \<Rightarrow> string \<Rightarrow> string \<Rightarrow> modeBits \<Rightarrow> SaveVars \<Rightarrow> ('f Fh, SaveVars) comp" where
  "save_preserve c dtag whence p modes sv =
     (if mb_preserve modes then
        let sv = because ''preserve-0'' sv
        in if me_Protect (sv_meta sv) then ret ((because ''protect-0'' sv)\<lparr>sv_write := False\<rparr>)
           else if \<not> sv_unchanged sv then
             let sv = because ''content-0'' sv
             in seq (copyFile c p (annotatedPath p ''old'') (whence @ ''preserve:''))
                  (seq (filelog ''preserved'' p) (record_action c dtag p ''preserve'' sv))
           else ret sv
      else ret sv)"

definition save_present ::
  "'f Cfg \<Rightarrow> string \<Rightarrow> string \<Rightarrow> string \<Rightarrow> bytes \<Rightarrow> modeBits \<Rightarrow> SaveVars \<Rightarrow> ('f Fh, SaveVars) comp" where
  "save_present c dtag whence p content modes sv =
     (if mb_write modes \<and> \<not> me_Protect (sv_meta sv) then
        ret ((because ''write-0'' sv)\<lparr>sv_write := True\<rparr>)
      else if mb_present modes then
        let sv = because ''present-0'' sv
        in if \<not> sv_unchanged sv then
             let sv = because ''content-1'' sv
             in seq (saveFile c (annotatedPath p ''new'') content 0 (whence @ ''present:''))
                  (seq (filelog ''presented'' p) (record_action c dtag p ''present'' sv))
           else ret sv
      else ret sv)"

definition save_diff ::
  "'f Cfg \<Rightarrow> string \<Rightarrow> string \<Rightarrow> string \<Rightarrow> bytes \<Rightarrow> bytes \<Rightarrow> FileMode \<Rightarrow> SaveVars \<Rightarrow> ('f Fh, SaveVars) comp" where
  "save_diff c dtag whence p content existing mode sv0 =
     (let sv = (because ''diff-0'' sv0)\<lparr>sv_write := False\<rparr>
      in if \<not> sv_unchanged sv then
           let sv = because ''content-2'' sv
           in bnd (gets (\<lambda>s. meta_last (fh_prev s))) (\<lambda>last.
             case Diff content existing
                 \<lparr>ds_when = c_when c, ds_last = last, ds_kind = ''diff'', ds_labels = None\<rparr> of
               None \<Rightarrow> fail ErrPanic
             | Some d \<Rightarrow>
                 let rendered = dr_content d; conflict = (rendered \<noteq> content)
                 in seq (saveFile c p rendered mode (whence @ ''diff''))
                      (seq (filelog ''diffed'' p)
                        (seq (if conflict then filelog ''conflicted'' p else ret ())
                          (record_action c dtag p ''diff''
                            (sv\<lparr>sv_landed := True,
                              sv_meta := (sv_meta sv)\<lparr>me_Conflict := conflict\<rparr>\<rparr>)))))
         else
           bnd (apply_mode c p mode sv) (\<lambda>sv.
             seq (filelog ''unchanged'' p) (ret (sv\<lparr>sv_landed := True\<rparr>))))"

text \<open>\<^verbatim>\<open>saveMerge\<close>; the value is whether the generate landed.\<close>

definition saveMerge ::
  "'f Cfg \<Rightarrow> string \<Rightarrow> bytes \<Rightarrow> bytes \<Rightarrow> bytes \<Rightarrow> bool \<Rightarrow> string \<Rightarrow> FileMode \<Rightarrow> bool \<Rightarrow> SaveVars
     \<Rightarrow> ('f Fh, SaveVars \<times> bool) comp" where
  "saveMerge c p content existing baseline earlier whence mode conflictFail sv0 =
     bnd (gets (\<lambda>s. meta_last (fh_prev s))) (\<lambda>last.
       case (if earlier then
               Some (\<lparr>mr_content = content, mr_conflict = False, mr_outcome = MergeClean\<rparr>, ''merge-earlier-0'')
             else map_option (\<lambda>r. (r, mergeWhy (mr_outcome r)))
               (Merge content baseline existing
                  \<lparr>ds_when = c_when c, ds_last = last, ds_kind = ''merge'', ds_labels = None\<rparr>)) of
         None \<Rightarrow> fail ErrPanic
       | Some (res, w) \<Rightarrow>
           let sv = because w sv0;
               unresolved = (mr_outcome res = MergeUnresolved);
               conflict = (mr_conflict res \<or> unresolved)
           in bnd (if conflict \<and> conflictFail then
                     seq (modify (\<lambda>s. s\<lparr>fh_failures := fh_failures s @
                            [(p, if unresolved then ''unresolved'' else ''conflict'')]\<rparr>))
                       (ret (because ''conflict-fail-0'' sv, False))
                   else if unresolved then bnd (apply_mode c p mode sv) (\<lambda>sv. ret (sv, False))
                   else seq (saveFile c p (mr_content res) mode (whence @ ''merge'')) (ret (sv, True)))
                (\<lambda>(sv, landed).
                  seq (filelog ''merged'' p)
                    (seq (if conflict then filelog ''conflicted'' p else ret ())
                      (ret (sv\<lparr>sv_meta := (sv_meta sv)\<lparr>me_Conflict := conflict\<rparr>\<rparr>, landed)))))"

text \<open>The baseline of the file: None when duplicates are off or there is none.\<close>

definition load_baseline :: "'f Cfg \<Rightarrow> string \<Rightarrow> SaveVars \<Rightarrow> ('f Fh, SaveVars \<times> bytes option) comp" where
  "load_baseline c rpath sv =
     (if Duplicate (c_control c) then
        let sv = because ''duplicate-0'' sv; dpath = path_join [duplicateFolder c, rpath]
        in bnd (existsFile c dpath []) (\<lambda>has.
             if has then
               let sv = because ''dupexists-0'' sv
               in bnd (loadFile c dpath []) (\<lambda>b. ret (sv, Some b))
             else ret (sv, None))
      else ret (sv, None))"

definition save_merge ::
  "'f Cfg \<Rightarrow> string \<Rightarrow> string \<Rightarrow> string \<Rightarrow> string \<Rightarrow> bytes \<Rightarrow> bytes \<Rightarrow> FileMode \<Rightarrow> modeBits \<Rightarrow> SaveVars
     \<Rightarrow> ('f Fh, SaveVars) comp" where
  "save_merge c dtag whence p rpath content existing mode modes sv0 =
     (let sv = because ''merge-0'' sv0
      in if \<not> sv_unchanged sv then
           bnd (load_baseline c rpath (because ''content-3'' sv)) (\<lambda>(sv, base).
             bnd (gets (\<lambda>s. priorFingerprints (fh_prev s) rpath)) (\<lambda>prior.
               let earlier = (base \<noteq> Some existing \<and> hasFingerprint prior (fingerprint c existing))
               in if base \<noteq> None \<or> earlier then
                    bnd (saveMerge c p content existing (case base of Some b \<Rightarrow> b | None \<Rightarrow> []) earlier
                          whence mode (mb_conflictFail modes) (sv\<lparr>sv_write := False\<rparr>)) (\<lambda>(sv, merged).
                      record_action c dtag p ''merge'' (sv\<lparr>sv_landed := merged\<rparr>))
                  else
                    let sv = because ''merge-nobase-0'' sv
                    in seq (filelog ''unmerged'' p)
                      (if mb_conflictFail modes then
                         seq (modify (\<lambda>s. s\<lparr>fh_failures := fh_failures s @ [(p, ''nobase'')]\<rparr>))
                           (ret ((because ''conflict-fail-0'' sv)\<lparr>sv_write := False\<rparr>))
                       else ret sv)))
         else
           bnd (apply_mode c p mode ((because ''unchanged-0'' sv)\<lparr>sv_write := False\<rparr>)) (\<lambda>sv.
             seq (filelog ''unchanged'' p) (ret (sv\<lparr>sv_landed := True\<rparr>))))"

definition save_exists ::
  "'f Cfg \<Rightarrow> string \<Rightarrow> string \<Rightarrow> string \<Rightarrow> string \<Rightarrow> bytes \<Rightarrow> FileMode \<Rightarrow> modeBits \<Rightarrow> SaveVars
     \<Rightarrow> ('f Fh, SaveVars) comp" where
  "save_exists c dtag whence p rpath content mode modes sv0 =
     bnd (loadFile c p []) (\<lambda>existing.
       let protect = str_contains existing protectMarker;
           unchanged = (existing = content);
           sv = (because ''exists-0'' sv0)\<lparr>sv_unchanged := unchanged, sv_landed := unchanged,
                  sv_meta := (sv_meta sv0)\<lparr>me_Protect := protect\<rparr>\<rparr>
       in bnd (save_preserve c dtag whence p modes sv) (\<lambda>sv.
          bnd (save_present c dtag whence p content modes sv) (\<lambda>sv.
            if protect then ret sv
            else let sv = because ''not-protect-1'' sv
                 in if mb_diff modes then save_diff c dtag whence p content existing mode sv
                    else if mb_merge modes then
                      save_merge c dtag whence p rpath content existing mode modes sv
                    else ret sv)))"

section \<open>The end of a save\<close>

definition save_write ::
  "'f Cfg \<Rightarrow> string \<Rightarrow> string \<Rightarrow> bytes \<Rightarrow> FileMode \<Rightarrow> SaveVars \<Rightarrow> ('f Fh, SaveVars) comp" where
  "save_write c whence p content mode sv =
     (if sv_write sv then
        bnd (if sv_unchanged sv then
               bnd (apply_mode c p mode (because ''unchanged-0'' sv)) (\<lambda>sv.
                 seq (filelog ''unchanged'' p) (ret sv))
             else
               let sv = because ''write-1'' sv
               in seq (saveFile c p content mode (whence @ ''write''))
                    (seq (filelog ''written'' p) (ret sv)))
          (\<lambda>sv. bnd (final_action c ''write'' sv) (\<lambda>sv. ret (sv\<lparr>sv_landed := True\<rparr>)))
      else if me_Actions (sv_meta sv) = [] then final_action c ''skip'' (because ''skip-0'' sv)
      else ret sv)"

definition save_duplicate ::
  "'f Cfg \<Rightarrow> string \<Rightarrow> string \<Rightarrow> bytes \<Rightarrow> SaveVars \<Rightarrow> ('f Fh, SaveVars) comp" where
  "save_duplicate c p rpath content sv0 =
     (if Duplicate (c_control c) then
        let sv = because ''duplicate-1'' sv0
        in if withinFolder (c_windows c) (c_folder c) p \<and> path_base p \<noteq> metaFilename then
             let sv = because ''within-0'' sv
             in if sv_landed sv then seq (writeDuplicate c rpath content) (ret sv)
                else ret (because ''hold-0'' sv)
           else ret sv
      else ret sv0)"

text \<open>The final decision record, the fingerprints of a merge save, and the meta entry.\<close>

definition save_finish ::
  "'f Cfg \<Rightarrow> string \<Rightarrow> string \<Rightarrow> string \<Rightarrow> bytes \<Rightarrow> modeBits \<Rightarrow> SaveVars \<Rightarrow> ('f Fh, unit) comp" where
  "save_finish c dtag p rpath content modes sv =
     seq (if sv_final sv then decision dtag (sv_meta sv) (sv_why sv) p else ret ())
       (bnd (gets (\<lambda>s. priorFingerprints (fh_prev s) rpath)) (\<lambda>prior.
          let m = (if mb_merge modes then
                     (sv_meta sv)\<lparr>me_HasFingerprints := True,
                       me_Fingerprints := (if sv_landed sv then withFingerprint prior (fingerprint c content)
                                           else prior)\<rparr>
                   else sv_meta sv)
          in modify (\<lambda>s. s\<lparr>fh_meta := add_entry m (fh_meta s)\<rparr>)))"

definition note_save :: "string \<Rightarrow> ('f Fh, unit) comp" where
  "note_save p s =
     (if p \<in> set (fh_saved s) then warn [''save'', ''duplicate save, later content wins: '' @ p] s
      else (s\<lparr>fh_saved := p # fh_saved s\<rparr>, Inr ()))"

definition start_vars :: "string \<Rightarrow> bool \<Rightarrow> SaveVars" where
  "start_vars rpath ex =
     \<lparr>sv_write = (\<not> ex), sv_unchanged = False, sv_final = False, sv_landed = False,
      sv_why = [''start<'' @ pick (\<not> ex) ''w'' ''W'' @ pick ex ''x'' ''X'' @ ''>''],
      sv_meta = \<lparr>me_Path = rpath, me_Action = ''init'', me_Exists = ex, me_Actions = [],
        me_Protect = False, me_Conflict = False, me_When = 0, me_Fingerprints = [],
        me_HasFingerprints = False\<rparr>\<rparr>"

definition saveAs ::
  "'f Cfg \<Rightarrow> string \<Rightarrow> bytes \<Rightarrow> string \<Rightarrow> bool \<Rightarrow> FileMode \<Rightarrow> bool \<Rightarrow> ('f Fh, unit) comp" where
  "saveAs c p0 content whence tagged mode isText =
     (if p0 = [] then fail ErrInvalidPath
      else
        let dtag = ''FileHandler:save:'' @ (if tagged then wstrOf whence else []);
            p = canonOutPath p0;
            modes = modesFor c isText;
            rpath = relative (c_folder c) p
        in seq (note_save p)
          (bnd (fs_ask (\<lambda>v. api_Exists (c_api c) v p)) (\<lambda>ex.
           bnd (if ex then save_exists c dtag whence p rpath content mode modes (start_vars rpath ex)
                else ret (start_vars rpath ex)) (\<lambda>sv.
           bnd (save_write c whence p content mode sv) (\<lambda>sv.
           bnd (save_duplicate c p rpath content sv) (\<lambda>sv.
             save_finish c dtag p rpath content modes sv))))))"

definition save :: "'f Cfg \<Rightarrow> string \<Rightarrow> bytes \<Rightarrow> string \<Rightarrow> ('f Fh, unit) comp" where
  "save c p content whence =
     saveAs c p content whence False 0 (\<not> IsBinExt (c_windows c) (canonOutPath p))"

definition saveBinary :: "'f Cfg \<Rightarrow> string \<Rightarrow> bytes \<Rightarrow> string \<Rightarrow> ('f Fh, unit) comp" where
  "saveBinary c p content whence = saveAs c p content whence True 0 False"

definition saveMode :: "'f Cfg \<Rightarrow> string \<Rightarrow> bytes \<Rightarrow> string \<Rightarrow> FileMode \<Rightarrow> ('f Fh, unit) comp" where
  "saveMode c p content whence mode =
     saveAs c p content whence False mode (\<not> IsBinExt (c_windows c) (canonOutPath p))"

text \<open>\<^verbatim>\<open>copy\<close>: a tree-walk entry with a binary extension.\<close>

definition fh_copy :: "'f Cfg \<Rightarrow> string \<Rightarrow> string \<Rightarrow> ('f Fh, unit) comp" where
  "fh_copy c src to =
     bnd (loadSource c src ''copy:'') (\<lambda>raw.
       if IsBinExt (c_windows c) src \<or> IsBinContent raw then saveBinary c to raw ''copy:''
       else save c to raw ''copy:'')"

section \<open>The run's beginning and end\<close>

definition metaPath :: "'f Cfg \<Rightarrow> string" where
  "metaPath c = path_join [c_folder c, ''.jostraca'', metaFilename]"

definition gitignorePath :: "'f Cfg \<Rightarrow> string" where
  "gitignorePath c = path_join [c_folder c, ''.jostraca'', ''.gitignore'']"

definition noFiles :: Files where
  "noFiles = \<lparr>fl_Preserved = [], fl_Written = [], fl_Presented = [], fl_Diffed = [],
     fl_Merged = [], fl_Conflicted = [], fl_Unchanged = [], fl_Unmerged = []\<rparr>"

definition startFh :: "'f \<Rightarrow> nat \<Rightarrow> 64 word \<Rightarrow> 'f Fh" where
  "startFh vol clock sq =
     \<lparr>fh_vol = vol, fh_clock = clock, fh_seq = sq, fh_audit = [], fh_files = noFiles, fh_logged = [],
      fh_created = [], fh_saved = [], fh_failures = [], fh_warnings = [], fh_prev = None, fh_meta = []\<rparr>"

text \<open>\<^verbatim>\<open>newBuildMeta\<close>: the previous log, or an empty one when it cannot be read.\<close>

definition loadMeta :: "'f Cfg \<Rightarrow> ('f Fh, unit) comp" where
  "loadMeta c =
     bnd (existsFile c (metaPath c) []) (\<lambda>has.
       if \<not> has then ret ()
       else bnd (attempt (loadJSON c (metaPath c) [])) (\<lambda>r.
         case r of
           Inl e \<Rightarrow> seq (warn [''meta'', ''unreadable meta log, continuing with empty state: '' @ metaPath c])
                      (modify (\<lambda>s. s\<lparr>fh_prev := Some []\<rparr>))
         | Inr d \<Rightarrow> modify (\<lambda>s. s\<lparr>fh_prev := Some d\<rparr>)))"

text \<open>\<^verbatim>\<open>done\<close>: the log of the run, and the ignore file beside it.\<close>

definition metaDone :: "'f Cfg \<Rightarrow> ('f Fh, unit) comp" where
  "metaDone c =
     bnd (sample c) (\<lambda>last.
     bnd (gets fh_meta) (\<lambda>entries.
       seq (saveJSON c (metaPath c) (encode last entries) [])
         (if \<not> ct_Version (c_control c) then
            saveFile c (gitignorePath c) ([NL] @ ''jostraca.meta.log'' @ [NL] @ ''generated'' @ [NL]) 0 []
          else ret ())))"

end
