(* ===== verification/FhFrame.thy ===== *)
theory FhFrame
  imports FileHandler
begin

text \<open>
  What the handler's calls leave alone. First the parts of the state a call never touches
  (\<open>same_vol\<close>: the volume); then, for any provider that meets the contract, that the atomic write
  either publishes the whole content or leaves every file as it was, and which files a save can
  reach at all.
\<close>

definition same_vol :: "'f Fh \<Rightarrow> 'f Fh \<Rightarrow> bool" where
  "same_vol s s' = (fh_vol s' = fh_vol s)"

lemma order_same_vol [simp]: "order_rel same_vol"
  by (simp add: order_rel_def same_vol_def)

named_theorems quiet

lemma same_vol_prims [quiet]:
  "keeps same_vol (sample c)" "keeps same_vol (appendAudit tag data)" "keeps same_vol (warn args)"
  "keeps same_vol (filelog kind p)" "keeps same_vol (note_save p)" "keeps same_vol (tmppathFor c p)"
  "keeps same_vol (fs_ask g)" "keeps same_vol (gets h)" "keeps same_vol (ret x)" "keeps same_vol (fail e)"
  by (auto simp: keeps_def same_vol_def sample_def appendAudit_def warn_def modify_def filelog_def
      note_save_def tmppathFor_def fs_ask_def gets_def ret_def fail_def split: if_splits)

lemma same_vol_modify [quiet]:
  "keeps same_vol (modify (\<lambda>s. s\<lparr>fh_failures := f s\<rparr>))"
  "keeps same_vol (modify (\<lambda>s. s\<lparr>fh_meta := g s\<rparr>))"
  "keeps same_vol (modify (\<lambda>s. s\<lparr>fh_prev := h s\<rparr>))"
  "keeps same_vol (modify (\<lambda>s. s\<lparr>fh_created := d s\<rparr>))"
  by (auto simp: keeps_def same_vol_def modify_def)

lemma same_vol_bnd [quiet]:
  "keeps same_vol m \<Longrightarrow> (\<And>x. keeps same_vol (f x)) \<Longrightarrow> keeps same_vol (bnd m f)"
  "keeps same_vol m1 \<Longrightarrow> keeps same_vol m2 \<Longrightarrow> keeps same_vol (seq m1 m2)"
  "keeps same_vol m \<Longrightarrow> keeps same_vol (attempt m)"
  by (simp_all add: keeps_bnd keeps_seq keeps_attempt)

lemmas quiet_control [quiet] = keeps_if keeps_option keeps_sum keeps_prod keeps_Let

lemma same_vol_calls [quiet]:
  "keeps same_vol (decision tag m why p)" "keeps same_vol (record_action c dtag p action sv)"
  "keeps same_vol (final_action c action sv)" "keeps same_vol (validPath p mark)"
  "keeps same_vol (existsFile c p whence)" "keeps same_vol (load c p full whence)"
  unfolding decision_def record_action_def final_action_def validPath_def existsFile_def load_def
  by (intro quiet)+

lemma same_vol_loads [quiet]:
  "keeps same_vol (loadFile c p whence)" "keeps same_vol (loadSource c p whence)"
  "keeps same_vol (loadJSON c p whence)" "keeps same_vol (load_baseline c rpath sv)"
  "keeps same_vol (save_finish c dtag p rpath content modes sv)"
  unfolding loadFile_def loadSource_def loadJSON_def load_baseline_def save_finish_def
  by (intro quiet)+

section \<open>A dry run\<close>

lemma dry_low:
  assumes "ct_Dryrun (c_control c)"
  shows "keeps same_vol (ensureFolder c p)" "keeps same_vol (ensureDirOf c p)"
    "keeps same_vol (chmodUnchanged c p mode)" "keeps same_vol (apply_mode c p mode sv)"
    "keeps same_vol (saveFile c p content mode whence)" "keeps same_vol (saveJSON c p content whence)"
    "keeps same_vol (copyFile c p q whence)" "keeps same_vol (writeDuplicate c p content)"
proof -
  show 1: "keeps same_vol (ensureFolder c p)" for p
    using assms by (simp add: ensureFolder_def quiet)
  show 2: "keeps same_vol (ensureDirOf c p)" for p
    unfolding ensureDirOf_def by (intro quiet 1)
  show 3: "keeps same_vol (chmodUnchanged c p mode)" for p mode
    using assms by (simp add: chmodUnchanged_def quiet)
  show "keeps same_vol (apply_mode c p mode sv)"
    unfolding apply_mode_def by (intro quiet 3)
  show 4: "keeps same_vol (saveFile c p content mode whence)" for p content mode whence
    unfolding saveFile_def by (intro quiet 2) (simp_all add: assms)
  show "keeps same_vol (saveJSON c p content whence)"
    unfolding saveJSON_def by (intro quiet 4)
  show "keeps same_vol (copyFile c p q whence)"
    unfolding copyFile_def by (intro quiet 2) (simp_all add: assms)
  show "keeps same_vol (writeDuplicate c p content)"
    using assms by (simp add: writeDuplicate_def quiet)
qed

lemma dry_saveAs:
  assumes "ct_Dryrun (c_control c)"
  shows "keeps same_vol (saveAs c p content whence tagged mode isText)"
  unfolding saveAs_def save_exists_def save_preserve_def save_present_def save_diff_def save_merge_def
    saveMerge_def save_write_def save_duplicate_def
  by (intro quiet dry_low assms)

lemma dry_metaDone: "ct_Dryrun (c_control c) \<Longrightarrow> keeps same_vol (metaDone c)"
  unfolding metaDone_def by (intro quiet dry_low)

section \<open>Temporary names are siblings\<close>

lemma show36_chars: "set (show36 n) \<subseteq> set ''0123456789abcdefghijklmnopqrstuvwxyz''"
proof (induction n rule: show36.induct)
  case (1 n)
  have d: "digit36 m \<in> set ''0123456789abcdefghijklmnopqrstuvwxyz''" if "m < 36" for m
    unfolding digit36_def using that by (intro nth_mem) simp
  show ?case
  proof (cases "n < 36")
    case True
    then show ?thesis using d [of n] by (subst show36.simps) simp
  next
    case False
    then show ?thesis using d [of "n mod 36"] 1 by (subst show36.simps) simp
  qed
qed

lemma show_nat_chars: "set (show_nat n) \<subseteq> set ''0123456789''"
proof (induction n rule: show_nat.induct)
  case (1 n)
  have "list_all (\<lambda>m. char_of (m + 48 :: nat) \<in> set ''0123456789'') [0..<10]" by code_simp
  then have d: "char_of (m + 48) \<in> set ''0123456789''" if "m < 10" for m :: nat
    using that by (simp only: list_all_iff) simp
  show ?case
  proof (cases "n < 10")
    case True
    then show ?thesis using d [of n] by (subst show_nat.simps) simp
  next
    case False
    then show ?thesis using d [of "n mod 10"] 1 by (subst show_nat.simps) simp
  qed
qed

lemma hex_encode_chars: "set (hex_encode b) \<subseteq> set ''0123456789abcdef''"
proof -
  have d: "hex_digit m \<in> set ''0123456789abcdef''" if "m < 16" for m
    unfolding hex_digit_def using that by (intro nth_mem) simp
  have "hex_digit (byte c div 16) \<in> set ''0123456789abcdef''" "hex_digit (byte c mod 16) \<in> set ''0123456789abcdef''" for c
    using byte_256 [of c] by (intro d; simp add: less_mult_imp_div_less)+
  then show ?thesis unfolding hex_encode_def by auto
qed

lemma tmp_suffix_plain: "plain_suffix (tmp_suffix_of c n)"
proof -
  let ?ok = "''0123456789abcdefghijklmnopqrstuvwxyz.-''"
  have "list_all (\<lambda>c. c \<in> set ?ok) ''0123456789abcdefghijklmnopqrstuvwxyz''"
    "list_all (\<lambda>c. c \<in> set ?ok) ''0123456789''" "list_all (\<lambda>c. c \<in> set ?ok) ''0123456789abcdef''"
    "list_all (\<lambda>c. c \<in> set ?ok) ''.jostraca-tmp''" "list_all (\<lambda>c. c \<in> set ?ok) ''-''"
    by code_simp+
  then have ok: "set ''0123456789abcdefghijklmnopqrstuvwxyz'' \<subseteq> set ?ok" "set ''0123456789'' \<subseteq> set ?ok"
    "set ''0123456789abcdef'' \<subseteq> set ?ok" "set ''.jostraca-tmp'' \<subseteq> set ?ok" "set ''-'' \<subseteq> set ?ok"
    unfolding list_all_iff by blast+
  have "set (tmp_suffix_of c n) \<subseteq> set ?ok"
    unfolding tmp_suffix_of_def tmpSuffix_def Let_def set_append
    by (intro Un_least ok(4,5) subset_trans [OF show36_chars ok(1)] subset_trans [OF show_nat_chars ok(2)]
        subset_trans [OF hex_encode_chars ok(3)])
  moreover have "SLASH \<notin> set ?ok" "BSLASH \<notin> set ?ok" by simp_all
  moreover have "CHR ''j'' \<in> set (tmp_suffix_of c n)" by (simp add: tmp_suffix_of_def tmpSuffix_def Let_def)
  moreover have "CHR ''j'' \<noteq> CHR ''.''" by simp
  ultimately show ?thesis unfolding plain_suffix_def by blast
qed

section \<open>Over a provider that keeps its contract\<close>

locale fh_run = fs_siblings api key inv
  for api :: "'f FS" and key inv +
  fixes c :: "'f Cfg"
  assumes c_api: "c_api c = api"
begin

text \<open>Every file but those at the keys \<open>K\<close> survives.\<close>

definition kept :: "string set \<Rightarrow> 'f Fh \<Rightarrow> 'f Fh \<Rightarrow> bool" where
  "kept K s s' =
     (inv (fh_vol s) \<longrightarrow> inv (fh_vol s') \<and> spares api key K (fh_vol s) (fh_vol s'))"

lemma order_kept [simp]: "order_rel (kept K)"
  unfolding order_rel_def kept_def by (meson spares_refl spares_trans)

lemma kept_quiet: "keeps same_vol m \<Longrightarrow> keeps (kept K) m"
  by (auto simp: keeps_def same_vol_def kept_def)

lemma kept_mono: "keeps (kept K) m \<Longrightarrow> K \<subseteq> L \<Longrightarrow> keeps (kept L) m"
  unfolding keeps_def kept_def by (blast intro: spares_mono)

lemmas kept_bnd = keeps_bnd [OF order_kept] and kept_seq = keeps_seq [OF order_kept]

lemma kept_fs_do:
  assumes "\<And>v v' r. inv v \<Longrightarrow> f v = (v', r) \<Longrightarrow> inv v' \<and> spares api key K v v'"
  shows "keeps (kept K) (fs_do f)"
  using assms by (auto simp: keeps_def kept_def fs_do_def split: prod.splits)

lemma kept_mkdir: "keeps (kept {}) (fs_do (\<lambda>v. api_MkdirAll api v p))"
proof (rule kept_fs_do)
  fix v v' r
  assume "inv v" "api_MkdirAll api v p = (v', r)"
  from mkdir_frame [OF this] show "inv v' \<and> spares api key {} v v'" by (simp add: spares_of_only)
qed

lemma kept_chmod:
  assumes "api_Chmod api = Some ch"
  shows "keeps (kept {}) (fs_do (\<lambda>v. ch v p m))"
proof (rule kept_fs_do)
  fix v v' r
  assume "inv v" "ch v p m = (v', r)"
  from chmod_frame [OF this(1) assms this(2)] show "inv v' \<and> spares api key {} v v'"
    by (simp add: spares_of_only)
qed

lemma kept_ensureFolder: "keeps (kept {}) (ensureFolder c p)"
  unfolding ensureFolder_def c_api
  by (intro kept_bnd kept_mkdir keeps_rules order_kept kept_quiet [OF same_vol_modify(4)])

lemma kept_ensureDirOf: "keeps (kept {}) (ensureDirOf c p)"
  unfolding ensureDirOf_def by (intro kept_ensureFolder keeps_rules order_kept)

text \<open>The temporary file: where nothing could be read before, the whole content now can.\<close>

lemma remove_new:
  assumes "inv (fh_vol t)" and "held api (fh_vol s) tmp = None" and "only_changes api key {key tmp} (fh_vol s) (fh_vol t)"
    and "removeTemp c tmp t = (s', r)"
  shows "inv (fh_vol s') \<and> only_changes api key {key tmp} (fh_vol s) (fh_vol s') \<and> r = Inr ()"
proof -
  obtain v e where rm: "api_Remove api (fh_vol t) tmp = (v, e)" by (meson surj_pair)
  have f: "inv v \<and> only_changes api key {key tmp} (fh_vol t) v" by (rule remove_frame [OF assms(1) rm])
  have "fh_vol s' = v \<and> r = Inr ()"
    using assms(4) rm
    by (auto simp: removeTemp_def bnd_def fs_do_def c_api ret_def warn_def modify_def split: option.splits if_splits)
  then show ?thesis using f only_changes_trans [OF assms(3)] by simp
qed

lemma fresh_spares:
  assumes "held api v tmp = None" and "only_changes api key {key tmp} v v'"
  shows "spares api key {} v v'"
proof -
  have "held api v' q = held api v q" if "held api v q \<noteq> None" for q
  proof (cases "key q = key tmp")
    case True
    then show ?thesis using held_key [OF True, of v] assms(1) that by simp
  next
    case False
    then show ?thesis using assms(2) by (simp add: only_changes_def)
  qed
  then show ?thesis by (simp add: spares_def)
qed

definition temp_result :: "string \<Rightarrow> bytes \<Rightarrow> 'f \<Rightarrow> 'f \<Rightarrow> error + string option \<Rightarrow> bool" where
  "temp_result p content v v' r =
     (inv v' \<and>
      (case r of
         Inr (Some tmp) \<Rightarrow>
           key tmp \<noteq> key p \<and> held api v tmp = None \<and> held api v' tmp = Some content \<and>
           only_changes api key {key tmp} v v'
       | _ \<Rightarrow> spares api key {} v v'))"

lemma temp_result_step:
  assumes "only_changes api key {} v w" and "temp_result p content w v' r"
  shows "temp_result p content v v' r"
proof -
  have h: "held api w q = held api v q" for q using assms(1) by (simp add: only_changes_def)
  show ?thesis
    using assms(2) unfolding temp_result_def spares_def only_changes_def h
    by (simp split: sum.splits option.splits)
qed

lemma failed_temp:
  assumes "inv (fh_vol t)" and "held api (fh_vol s) tmp = None"
    and "only_changes api key {key tmp} (fh_vol s) (fh_vol t)"
    and "seq (removeTemp c tmp) (fail e) t = (s', r)"
  shows "inv (fh_vol s') \<and> spares api key {} (fh_vol s) (fh_vol s') \<and> r = Inl e"
proof -
  obtain u x where rm: "removeTemp c tmp t = (u, x)" by (meson surj_pair)
  from remove_new [OF assms(1-3) rm] have u: "inv (fh_vol u)" "only_changes api key {key tmp} (fh_vol s) (fh_vol u)"
    "x = Inr ()" by auto
  then have "s' = u" "r = Inl e" using assms(4) rm by (auto simp: seq_def bnd_def fail_def)
  then show ?thesis using u fresh_spares [OF assms(2) u(2)] by simp
qed

lemma try_temps_result:
  assumes "inv (fh_vol s)" and "try_temps c p content k s = (s', r)"
  shows "temp_result p content (fh_vol s) (fh_vol s') r"
  using assms
proof (induction k arbitrary: s)
  case 0
  then show ?case by (auto simp: ret_def temp_result_def)
next
  case (Suc k)
  define cand where "cand = p @ tmp_suffix_of c (fh_seq s)"
  define t where "t = s\<lparr>fh_seq := fh_seq s + 1\<rparr>"
  have vt: "fh_vol t = fh_vol s" by (simp add: t_def)
  have kc: "key cand \<noteq> key p" unfolding cand_def by (rule key_suffix [OF tmp_suffix_plain])
  have tmp: "bnd (tmppathFor c p) f s = f cand t" for f :: "string \<Rightarrow> ('f Fh, string option) comp"
    by (simp add: bnd_def tmppathFor_def cand_def t_def)
  show ?case
  proof (cases "api_WriteFileExcl api")
    case (Some w)
    obtain v e where w: "w (fh_vol s) cand content = (v, e)" by (meson surj_pair)
    define u where "u = t\<lparr>fh_vol := v\<rparr>"
    have fr: "inv v \<and> only_changes api key {key cand} (fh_vol s) v" by (rule excl_frame [OF Suc.prems(1) Some w])
    have run: "(case e of None \<Rightarrow> ret (Some cand)
        | Some e \<Rightarrow> if \<not> isErrExist e then seq (removeTemp c cand) (fail (ErrFs e))
                    else try_temps c p content k) u = (s', r)"
      using Suc.prems(2) Some w
      by (simp add: tmp c_api) (simp add: bnd_def fs_do_def vt u_def)
    show ?thesis
    proof (cases e)
      case None
      then show ?thesis using run excl_ok [OF Suc.prems(1) Some w [unfolded None]] fr kc
        by (auto simp: ret_def u_def temp_result_def)
    next
      case e: (Some err)
      show ?thesis
      proof (cases "isErrExist err")
        case True
        then have o: "only_changes api key {} (fh_vol s) v"
          using excl_exist [OF Suc.prems(1) Some w [unfolded e]] by (simp add: isErrExist_def)
        have "temp_result p content v (fh_vol s') r"
          using Suc.IH [of u] run fr True e by (simp add: u_def)
        then show ?thesis by (rule temp_result_step [OF o])
      next
        case False
        then have "held api (fh_vol s) cand = None"
          using excl_fail [OF Suc.prems(1) Some w [unfolded e]] unfolding isErrExist_def by blast
        then show ?thesis using failed_temp [of u s cand "ErrFs err" s' r] run fr False e
          by (simp add: u_def temp_result_def)
      qed
    qed
  next
    case None
    have run: "(if api_Exists api (fh_vol s) cand then try_temps c p content k
        else bnd (fs_do (\<lambda>v. api_WriteFile api v cand content)) (\<lambda>werr.
               case werr of Some e \<Rightarrow> seq (removeTemp c cand) (fail (ErrFs e))
               | None \<Rightarrow> ret (Some cand))) t = (s', r)"
      using Suc.prems(2) None by (simp add: tmp c_api fs_ask_def vt cong: if_cong)
    show ?thesis
    proof (cases "api_Exists api (fh_vol s) cand")
      case True
      then show ?thesis using Suc.IH [of t] Suc.prems(1) run by (simp add: vt)
    next
      case False
      obtain v e where w: "api_WriteFile api (fh_vol s) cand content = (v, e)" by (meson surj_pair)
      define u where "u = t\<lparr>fh_vol := v\<rparr>"
      have fr: "inv v \<and> only_changes api key {key cand} (fh_vol s) v" by (rule write_frame [OF Suc.prems(1) w])
      have new: "held api (fh_vol s) cand = None" using held_exists False by blast
      have run: "(case e of Some e \<Rightarrow> seq (removeTemp c cand) (fail (ErrFs e)) | None \<Rightarrow> ret (Some cand)) u = (s', r)"
        using run False w by (simp add: bnd_def [of "fs_do _"] fs_do_def vt u_def)
      show ?thesis
      proof (cases e)
        case None
        then show ?thesis using run write_ok [OF Suc.prems(1) w [unfolded None]] fr kc new
          by (auto simp: ret_def u_def temp_result_def)
      next
        case (Some err)
        then show ?thesis using failed_temp [of u s cand "ErrFs err" s' r] run fr new
          by (simp add: u_def temp_result_def)
      qed
    qed
  qed
qed

text \<open>The atomic write: the whole content, or nothing at all.\<close>

lemma kept_check_slash: "keeps same_vol (check_slash_target c p)"
  unfolding check_slash_target_def by (intro quiet)

lemma copy_mode_frame:
  assumes "inv (fh_vol s)" and "copy_mode c tmp p mode s = (s', r)"
  shows "inv (fh_vol s') \<and> only_changes api key {} (fh_vol s) (fh_vol s') \<and> r = Inr ()"
proof -
  have ch: "inv (fh_vol s') \<and> only_changes api key {} (fh_vol s) (fh_vol s') \<and> r = Inr ()"
    if "api_Chmod api = Some ch" "bnd (fs_do (\<lambda>v. ch v tmp m)) (\<lambda>_. ret ()) s = (s', r)" for ch m
  proof -
    obtain v e where v: "ch (fh_vol s) tmp m = (v, e)" by (meson surj_pair)
    from chmod_frame [OF assms(1) that(1) v] that(2) v show ?thesis
      by (auto simp: bnd_def fs_do_def ret_def)
  qed
  show ?thesis
  proof (cases "api_Chmod api")
    case None
    then show ?thesis using assms by (simp add: copy_mode_def c_api ret_def)
  next
    case (Some chm)
    show ?thesis
    proof (cases "mode = 0")
      case False
      then show ?thesis using assms(2) ch [OF Some] by (simp add: copy_mode_def c_api Some)
    next
      case True
      then show ?thesis using assms ch [OF Some]
        by (auto simp: copy_mode_def c_api Some fs_ask_def ret_def split: sum.splits if_splits)
    qed
  qed
qed

lemma writeAtomicMode_result:
  assumes "inv (fh_vol s)" and "writeAtomicMode c p content mode s = (s', r)"
  shows "inv (fh_vol s') \<and>
    (case r of
       Inr _ \<Rightarrow> held api (fh_vol s') p = Some content \<and> spares api key {key p} (fh_vol s) (fh_vol s')
     | Inl _ \<Rightarrow> spares api key {} (fh_vol s) (fh_vol s'))"
  using assms(2) unfolding writeAtomicMode_def seq_def
proof (cases rule: bnd_cases)
  case (error e)
  then have "fh_vol s' = fh_vol s" using keepsD [OF kept_check_slash] by (auto simp: same_vol_def)
  then show ?thesis using error assms(1) by simp
next
  case (step x s1)
  then have s1: "fh_vol s1 = fh_vol s" using keepsD [OF kept_check_slash] by (auto simp: same_vol_def)
  show ?thesis using step(2)
  proof (cases rule: bnd_cases)
    case (error e)
    then show ?thesis using try_temps_result [OF _ error(1)] assms(1) s1 by (simp add: temp_result_def)
  next
    case tmp: (step found s2)
    have t: "temp_result p content (fh_vol s) (fh_vol s2) (Inr found)"
      using try_temps_result [OF _ tmp(1)] assms(1) s1 by simp
    show ?thesis
    proof (cases found)
      case None
      then show ?thesis using tmp(2) t by (auto simp: fail_def temp_result_def)
    next
      case (Some f)
      from t Some have f: "inv (fh_vol s2)" "key f \<noteq> key p" "held api (fh_vol s) f = None"
        "held api (fh_vol s2) f = Some content" "only_changes api key {key f} (fh_vol s) (fh_vol s2)"
        by (auto simp: temp_result_def)
      obtain s3 x where cm: "copy_mode c f p mode s2 = (s3, x)" by (meson surj_pair)
      from copy_mode_frame [OF f(1) cm] have c3: "inv (fh_vol s3)" "only_changes api key {} (fh_vol s2) (fh_vol s3)"
        "x = Inr ()" by auto
      obtain v e where rn: "api_Rename api (fh_vol s3) f p = (v, e)" by (meson surj_pair)
      define s4 where "s4 = s3\<lparr>fh_vol := v\<rparr>"
      have run: "(case e of Some e \<Rightarrow> seq (removeTemp c f) (fail (ErrFs e)) | None \<Rightarrow> ret ()) s4 = (s', r)"
        using tmp(2) Some cm c3(3) rn by (cases e) (simp_all add: seq_def bnd_def fs_do_def c_api s4_def)
      have to3: "only_changes api key {key f} (fh_vol s) (fh_vol s3)"
        using f(5) c3(2) by (auto simp: only_changes_def)
      have fr: "inv v \<and> only_changes api key {key f, key p} (fh_vol s3) v" by (rule rename_frame [OF c3(1) rn])
      show ?thesis
      proof (cases e)
        case None
        have "held api (fh_vol s3) f = Some content" using f(4) c3(2) by (simp add: only_changes_def)
        then have ok: "held api v p = Some content"
          using rename_ok [OF c3(1) rn [unfolded None] f(2)] by simp
        have o: "only_changes api key {key f, key p} (fh_vol s) v"
          using to3 fr by (auto simp: only_changes_def)
        have "held api v q = held api (fh_vol s) q" if q: "key q \<noteq> key p" "held api (fh_vol s) q \<noteq> None" for q
        proof -
          have "key q \<noteq> key f" using held_key [of q f "fh_vol s"] f(3) q(2) by metis
          then show ?thesis using o q(1) by (simp add: only_changes_def)
        qed
        then have "spares api key {key p} (fh_vol s) v" by (simp add: spares_def)
        then show ?thesis using run None ok fr by (auto simp: ret_def s4_def)
      next
        case (Some err)
        have o: "only_changes api key {} (fh_vol s3) v" by (rule rename_fail [OF c3(1) rn [unfolded Some]])
        have "only_changes api key {key f} (fh_vol s) v" using to3 o by (auto simp: only_changes_def)
        then show ?thesis using failed_temp [of s4 s f "ErrFs err" s' r] run fr f(3) Some
          by (simp add: s4_def)
      qed
    qed
  qed
qed

end

end
