(* ===== verification/PathProps.thy ===== *)
theory PathProps
  imports OutPath
begin

text \<open>
  What the path rules guarantee: a path composed from the output folder and an accepted name is
  inside that folder, and its key relative to the folder is a path of plain segments, so the merge
  baseline it names stays under the baseline folder.
\<close>

lemma canonOutPath_cases:
  "canonOutPath p = path_clean (fwd p) \<or> canonOutPath p = path_clean (fwd p) @ ''/''"
  by (simp add: canonOutPath_def Let_def)

lemma isAbsFromPathOn_posix [simp]: "isAbsFromPathOn p False = rooted p"
  by (cases p) (auto simp: isAbsFromPathOn_def)

lemma isAbsPath_rooted [simp]: "isAbsPath p = rooted p"
  by (simp add: isAbsPath_def rooted_def)

lemma path_clean_slash: "p \<noteq> [] \<Longrightarrow> path_clean (p @ ''/'') = path_clean p"
  using segments_append [of p "[]"]
  by (simp add: path_clean_def rooted_append clean_segs_def clean_step_def segments_def)

lemma segs_of_join:
  "norm_segs r segs \<Longrightarrow> segs \<noteq> [] \<Longrightarrow> segments (join_with ''/'' segs) = segs"
  by (rule segments_join) (auto dest: norm_segs_no_slash)

lemma segments_plain: "SLASH \<notin> set w \<Longrightarrow> segments w = [w]"
  unfolding segments_def by (rule split_by_plain) auto

text \<open>A cleaned path that does not leave its starting directory.\<close>

lemma no_escape:
  assumes "norm_segs False segs" and "DOTDOT \<notin> set segs"
  shows "unsegment False segs \<noteq> DOTDOT \<and> \<not> has_prefix (unsegment False segs) ''../''"
proof (cases "segs = []")
  case True
  then show ?thesis by (simp add: unsegment_def)
next
  case False
  let ?j = "join_with ''/'' segs"
  have j: "segments ?j = segs" by (rule segs_of_join [OF assms(1) False])
  have "?j \<noteq> DOTDOT"
  proof
    assume "?j = DOTDOT"
    then have "segs = [DOTDOT]" using j segments_plain [of DOTDOT] by simp
    then show False using assms(2) by simp
  qed
  moreover have "\<not> has_prefix ?j ''../''"
  proof
    assume "has_prefix ?j ''../''"
    then obtain t where "?j = DOTDOT @ SLASH # t" by (auto simp: has_prefix_iff)
    then have "segs = segments DOTDOT @ segments t" using j segments_append [of DOTDOT t] by simp
    then show False using assms(2) segments_plain [of DOTDOT] by simp
  qed
  ultimately show ?thesis using False by (simp add: unsegment_def)
qed

lemma unsegment_dot: "norm_segs r segs \<Longrightarrow> unsegment r segs = DOT \<longleftrightarrow> \<not> r \<and> segs = []"
proof -
  assume n: "norm_segs r segs"
  have "join_with ''/'' segs \<noteq> DOT" if "segs \<noteq> []"
  proof
    assume "join_with ''/'' segs = DOT"
    then have "segs = [DOT]" using segs_of_join [OF n that] segments_plain [of DOT] by simp
    then show False using norm_segs_member [OF n, of DOT] by (simp add: plain_seg_def)
  qed
  then show ?thesis by (auto simp: unsegment_def)
qed

lemma unsegment_slash: "norm_segs r segs \<Longrightarrow> unsegment r segs = ''/'' \<longleftrightarrow> r \<and> segs = []"
  using join_not_Nil [of r segs] join_not_rooted [of r segs]
  by (auto simp: unsegment_def)

text \<open>The path composed from a folder and an accepted name, canonicalised.\<close>

lemma composed_path:
  assumes "folder \<noteq> []" and "validName name"
  obtains r A K t where
    "canonFolder folder = unsegment r A" "norm_segs r A" "\<forall>s \<in> set K. plain_seg s"
    "K = kept_segs (segments (fwd name))"
    "canonOutPath (folder @ ''/'' @ name) = unsegment r (A @ K) @ t" "t = [] \<or> t = ''/''"
    "path_clean (fwd (folder @ ''/'' @ name)) = unsegment r (A @ K)"
proof -
  let ?r = "rooted (fwd folder)"
  let ?A = "clean_segs ?r (segments (fwd folder))" and ?K = "kept_segs (segments (fwd name))"
  have nA: "norm_segs ?r ?A" by (rule clean_segs_norm)
  have K: "\<forall>s \<in> set ?K. plain_seg s"
    using kept_segs_plain validName_segments [OF assms(2)] by blast
  have c: "path_clean (fwd (folder @ ''/'' @ name)) = unsegment ?r (?A @ ?K)"
    using clean_composed [OF assms(2,1)] .
  have f: "canonFolder folder = unsegment ?r ?A" by (simp add: canonFolder_clean path_clean_def)
  have "canonOutPath (folder @ ''/'' @ name) = unsegment ?r (?A @ ?K) @ []
      \<or> canonOutPath (folder @ ''/'' @ name) = unsegment ?r (?A @ ?K) @ ''/''"
    using canonOutPath_cases [of "folder @ ''/'' @ name"] c by auto
  then show ?thesis using that [OF f nA K refl _ _ c] by blast
qed

text \<open>The key of such a path relative to the folder has no parent segment.\<close>

lemma segments_join_slash:
  assumes "\<forall>s \<in> set K. plain_seg s" and "K \<noteq> []" and "t = [] \<or> t = ''/''"
  shows "segments (join_with ''/'' K @ t) = K @ (if t = [] then [] else [[]])"
proof -
  have "segments (join_with ''/'' K) = K"
    by (rule segs_of_join [OF norm_segs_plain [OF assms(1), of False] assms(2)])
  moreover have "segments [] = [[]]" by (simp add: segments_def)
  ultimately show ?thesis
    using segments_append [of "join_with ''/'' K" "[]"] assms(3) by auto
qed

lemma join_head:
  assumes "\<forall>s \<in> set K. plain_seg s" and "K \<noteq> []" and "t = [] \<or> t = ''/''"
  shows "\<not> has_prefix (join_with ''/'' K @ t) ''./''" "join_with ''/'' K \<noteq> []"
    "trim_left SLASH (join_with ''/'' K @ t) = join_with ''/'' K @ t"
proof -
  note n = norm_segs_plain [OF assms(1), of False]
  show ne: "join_with ''/'' K \<noteq> []" by (rule join_not_Nil [OF n assms(2)])
  then show "trim_left SLASH (join_with ''/'' K @ t) = join_with ''/'' K @ t"
    using join_not_rooted [OF n assms(2)] by (cases "join_with ''/'' K") (auto intro: trim_left_id)
  show "\<not> has_prefix (join_with ''/'' K @ t) ''./''"
  proof
    assume "has_prefix (join_with ''/'' K @ t) ''./''"
    then obtain u where "join_with ''/'' K @ t = DOT @ SLASH # u" by (auto simp: has_prefix_iff)
    then have "K @ (if t = [] then [] else [[]]) = DOT # segments u"
      using segments_join_slash [OF assms] segments_append [of DOT u] segments_plain [of DOT] by simp
    then have "DOT \<in> set K" using assms(2) by (cases K) auto
    then show False using assms(1) by (auto simp: plain_seg_def)
  qed
qed

lemma trim_left_slash [simp]: "trim_left SLASH (SLASH # s) = trim_left SLASH s" "trim_left c [] = []"
  by (simp_all add: trim_left_def)

lemma relative_key:
  assumes "norm_segs r A" and K: "\<forall>s \<in> set K. plain_seg s" and t: "t = [] \<or> t = ''/''"
    and "BSLASH \<notin> set (unsegment r (A @ K))"
  shows "relative (unsegment r A) (unsegment r (A @ K) @ t) \<in> {[], DOT}
     \<or> K \<noteq> [] \<and> relative (unsegment r A) (unsegment r (A @ K) @ t) = join_with ''/'' K @ t"
proof -
  have f: "fwd (unsegment r (A @ K) @ t) = unsegment r (A @ K) @ t"
    using assms(4) t by (intro fwd_id) auto
  show ?thesis
  proof (cases "A = []")
    case False
    have u: "unsegment r A \<noteq> DOT" "unsegment r A \<noteq> ''/''"
      using unsegment_dot [OF assms(1)] unsegment_slash [OF assms(1)] False by auto
    show ?thesis
    proof (cases "K = []")
      case True
      then show ?thesis using f t u by (auto simp: relative_def)
    next
      case nK: False
      have "unsegment r (A @ K) @ t = unsegment r A @ SLASH # (join_with ''/'' K @ t)"
        using unsegment_prefix [OF False nK, of r] by simp
      then show ?thesis using f u nK join_head [OF K nK t] by (simp add: relative_def has_prefix_iff)
    qed
  next
    case True
    show ?thesis
    proof (cases "K = []")
      case nK: True
      then show ?thesis using True f t by (auto simp: relative_def unsegment_def)
    next
      case nK: False
      then show ?thesis using True f join_head [OF K nK t] by (auto simp: relative_def unsegment_def)
    qed
  qed
qed

lemma relative_no_parent:
  assumes "folder \<noteq> []" and "validName name"
  shows "DOTDOT \<notin> set (segments (relative (canonFolder folder) (canonOutPath (folder @ ''/'' @ name))))"
proof -
  obtain r A K t where f: "canonFolder folder = unsegment r A" and nA: "norm_segs r A"
    and K: "\<forall>s \<in> set K. plain_seg s"
    and p: "canonOutPath (folder @ ''/'' @ name) = unsegment r (A @ K) @ t" and t: "t = [] \<or> t = ''/''"
    and c: "path_clean (fwd (folder @ ''/'' @ name)) = unsegment r (A @ K)"
    by (rule composed_path [OF assms])
  have "BSLASH \<notin> set (unsegment r (A @ K))"
    using fwd_no_bslash [of "path_clean (fwd (folder @ ''/'' @ name))"]
    by (subst (asm) fwd_clean_fwd) (simp only: c not_False_eq_True)
  note k = relative_key [OF nA K t this]
  have "DOTDOT \<notin> set K" using K by (auto simp: plain_seg_def)
  moreover have "DOTDOT \<notin> set (segments [])" "DOTDOT \<notin> set (segments DOT)"
    by (simp_all add: segments_def)
  ultimately show ?thesis
    using k segments_join_slash [OF K _ t] unfolding f p
    by (cases "K = []") (auto split: if_splits)
qed

lemma valid_name_within:
  assumes "folder \<noteq> []" and "validName name"
  shows "withinFolder False (canonFolder folder) (canonOutPath (folder @ ''/'' @ name))"
proof -
  obtain r A K t where f: "canonFolder folder = unsegment r A" and nA: "norm_segs r A"
    and K: "\<forall>s \<in> set K. plain_seg s"
    and p: "canonOutPath (folder @ ''/'' @ name) = unsegment r (A @ K) @ t" "t = [] \<or> t = ''/''"
    and c: "path_clean (fwd (folder @ ''/'' @ name)) = unsegment r (A @ K)"
    by (rule composed_path [OF assms])
  note nAK = norm_segs_append [OF nA K]
  have u: "unsegment r (A @ K) \<noteq> []" using nAK join_not_Nil [OF nAK] by (auto simp: unsegment_def)
  show ?thesis
  proof (cases "A = []")
    case False
    have "unsegment r A \<noteq> DOT" "unsegment r A \<noteq> ''/''"
      using unsegment_dot [OF nA] unsegment_slash [OF nA] False by auto
    moreover have "unsegment r (A @ K) = unsegment r A \<or> has_prefix (unsegment r (A @ K)) (unsegment r A @ ''/'')"
      using unsegment_prefix [OF False, of K r] by (cases "K = []") (auto simp: has_prefix_iff)
    ultimately show ?thesis using f p by (auto simp: withinFolder_def has_prefix_iff)
  next
    case True
    show ?thesis
    proof (cases r)
      case True
      then show ?thesis using f p \<open>A = []\<close> by (auto simp: withinFolder_def unsegment_def rooted_def)
    next
      case False
      have "BSLASH \<notin> set (unsegment r (A @ K))"
        using fwd_no_bslash [of "path_clean (fwd (folder @ ''/'' @ name))"]
        by (subst (asm) fwd_clean_fwd) (simp only: c not_False_eq_True)
      then have b: "BSLASH \<notin> set (unsegment r (A @ K) @ t)" using p(2) by auto
      have "path_clean (unsegment r (A @ K)) = unsegment r (A @ K)"
        using path_clean_idem [of "fwd (folder @ ''/'' @ name)"] unfolding c .
      then have "path_clean (unsegment r (A @ K) @ t) = unsegment r (A @ K)"
        using p(2) path_clean_slash [OF u] by auto
      with fwd_id [OF b] have "path_clean (fwd (unsegment r (A @ K) @ t)) = unsegment r (A @ K)" by simp
      moreover have "\<not> rooted (unsegment r (A @ K) @ t)"
        using rooted_unsegment [OF nAK] rooted_append [OF u] False by simp
      moreover have "DOTDOT \<notin> set (A @ K)" using K True by (auto simp: plain_seg_def)
      ultimately show ?thesis
        using f p True False no_escape [of "A @ K"] nAK by (auto simp: withinFolder_def unsegment_def)
    qed
  qed
qed

text \<open>C13: a file or folder that a build defines stays below the output folder: when \<^verbatim>\<open>validName\<close>
  accepts a name, the path composed from the folder and the name is within the folder.\<close>

theorem validName_contained:
  assumes "folder \<noteq> []" and "validName name"
  shows "withinFolder False (canonFolder folder) (canonOutPath (folder @ ''/'' @ name))"
  using assms by (rule valid_name_within)

theorem validName_contained_witness:
  "withinFolder False (canonFolder ''./out/'') (canonOutPath (''./out/'' @ ''/'' @ ''a/b.txt''))"
  by (rule validName_contained) code_simp+

text \<open>Under a folder of its own, a key without parent segments stays below that folder.\<close>

lemma contained_below:
  assumes "D \<noteq> []" and "clean_segs (rooted D) (segments D) \<noteq> []" and "DOTDOT \<notin> set (segments k)"
  shows "path_clean (D @ ''/'' @ k) = path_clean D \<or> has_prefix (path_clean (D @ ''/'' @ k)) (path_clean D @ ''/'')"
proof -
  have "path_clean (D @ ''/'' @ k)
      = unsegment (rooted D) (clean_segs (rooted D) (segments D) @ kept_segs (segments k))"
    using assms(1,3) by (simp add: path_clean_def segments_append clean_segs_append rooted_append)
  then show ?thesis
    using unsegment_prefix [OF assms(2), of "kept_segs (segments k)" "rooted D"]
    by (cases "kept_segs (segments k) = []") (auto simp: path_clean_def has_prefix_iff)
qed

lemma duplicateFolder_segs:
  assumes "f \<noteq> []"
  defines "D \<equiv> path_join [f, ''.jostraca'', ''generated'']"
  shows "D \<noteq> []" "path_clean D = D" "clean_segs (rooted D) (segments D) \<noteq> []"
proof -
  let ?J = "f @ ''/'' @ ''.jostraca/generated''"
  have D: "D = path_clean ?J" using assms by (simp add: path_join_def)
  have k: "kept_segs (segments ''.jostraca/generated'') = [''.jostraca'', ''generated'']"
    "DOTDOT \<notin> set (segments ''.jostraca/generated'')"
    by (simp_all add: kept_segs_def segments_def)
  have "clean_segs (rooted ?J) (segments ?J)
      = clean_segs (rooted ?J) (segments f) @ [''.jostraca'', ''generated'']"
    using k segments_append [of f "''.jostraca/generated''"] by (simp add: clean_segs_append)
  moreover have "clean_segs (rooted D) (segments D) = clean_segs (rooted ?J) (segments ?J)"
    unfolding D path_clean_def using clean_segs_norm [of "rooted ?J" ?J]
    by (simp only: rooted_unsegment clean_unsegment)
  ultimately show "clean_segs (rooted D) (segments D) \<noteq> []" by simp
  show "D \<noteq> []" "path_clean D = D" unfolding D by simp_all
qed

text \<open>The merge baseline of such a file stays below \<^verbatim>\<open>.jostraca/generated\<close>: the clamp of
  \<^verbatim>\<open>writeDuplicate\<close> never refuses it.\<close>

lemma baseline_contained:
  assumes "folder \<noteq> []" and "validName name"
  defines "D \<equiv> path_join [canonFolder folder, ''.jostraca'', ''generated'']"
  shows "has_prefix (path_clean (D @ ''/'' @ relative (canonFolder folder) (canonOutPath (folder @ ''/'' @ name)))) (D @ ''/'')
    \<or> path_clean (D @ ''/'' @ relative (canonFolder folder) (canonOutPath (folder @ ''/'' @ name))) = D"
proof -
  have "canonFolder folder \<noteq> []" by (simp add: canonFolder_clean)
  note d = duplicateFolder_segs [OF this, folded D_def]
  show ?thesis
    using contained_below [OF d(1,3) relative_no_parent [OF assms(1,2)]] unfolding d(2) by blast
qed

lemma baseline_contained_witness:
  "let D = path_join [canonFolder ''out'', ''.jostraca'', ''generated'']
   in has_prefix (path_clean (D @ ''/'' @ relative (canonFolder ''out'') (canonOutPath (''out'' @ ''/'' @ ''a/b'')))) (D @ ''/'')
    \<or> path_clean (D @ ''/'' @ relative (canonFolder ''out'') (canonOutPath (''out'' @ ''/'' @ ''a/b''))) = D"
  unfolding Let_def by (rule baseline_contained) code_simp+

end
