(* ===== verification/FhSafe.thy ===== *)
theory FhSafe
  imports FhFrame PathProps
begin

text \<open>
  Which files a save can reach, and in what state it can leave its target, over any provider that
  meets the contract. \<open>kept K\<close> bounds the files that may change; \<open>target q B\<close> says that a file which
  was there still holds what it held, or one of the texts in \<open>B\<close>, whole.
\<close>

lemma canonOutPath_idem [simp]: "canonOutPath (canonOutPath p) = canonOutPath p"
proof -
  let ?c = "path_clean (fwd p)"
  have f: "fwd ?c = ?c" by simp
  show ?thesis
  proof (cases "has_suffix (fwd p) ''/'' \<and> \<not> has_suffix ?c ''/''")
    case True
    then have "canonOutPath p = ?c @ ''/''" by (simp add: canonOutPath_def Let_def)
    moreover have "fwd (?c @ ''/'') = ?c @ ''/''" by (simp add: fwd_Cons)
    moreover have "path_clean (?c @ ''/'') = ?c" using path_clean_slash [of ?c] by simp
    moreover have "has_suffix (?c @ ''/'') ''/''" by (auto simp: has_suffix_iff)
    ultimately show ?thesis using True by (simp add: canonOutPath_def Let_def)
  next
    case False
    then have "canonOutPath p = ?c" by (auto simp: canonOutPath_def Let_def)
    then show ?thesis using f by (simp add: canonOutPath_def Let_def)
  qed
qed

section \<open>What a computation yields\<close>

definition yields :: "('a \<Rightarrow> bool) \<Rightarrow> ('s, 'a) comp \<Rightarrow> bool" where
  "yields Q m = (\<forall>s s' x. m s = (s', Inr x) \<longrightarrow> Q x)"

named_theorems yields_rules

lemma yields_True [simp]: "yields (\<lambda>_. True) m"
  by (simp add: yields_def)

lemma yields_ret [yields_rules]: "Q x \<Longrightarrow> yields Q (ret x)"
  by (simp add: yields_def ret_def)

lemma yields_fail [yields_rules]: "yields Q (fail e)"
  by (simp add: yields_def fail_def)

lemma yields_bnd: "yields P m \<Longrightarrow> (\<And>x. P x \<Longrightarrow> yields Q (f x)) \<Longrightarrow> yields Q (bnd m f)"
  unfolding yields_def by (blast dest: bnd_ok)

lemma yields_bnd' [yields_rules]: "(\<And>x. yields Q (f x)) \<Longrightarrow> yields Q (bnd m f)"
  by (rule yields_bnd [OF yields_True])

lemma yields_seq [yields_rules]: "yields Q n \<Longrightarrow> yields Q (seq m n)"
  unfolding seq_def by (rule yields_bnd')

lemma yields_if [yields_rules]:
  "(b \<Longrightarrow> yields Q m) \<Longrightarrow> (\<not> b \<Longrightarrow> yields Q n) \<Longrightarrow> yields Q (if b then m else n)"
  by simp

lemma yields_Let [yields_rules]: "yields Q (f x) \<Longrightarrow> yields Q (let y = x in f y)"
  by simp

lemma yields_option [yields_rules]:
  "(x = None \<Longrightarrow> yields Q m) \<Longrightarrow> (\<And>y. x = Some y \<Longrightarrow> yields Q (f y)) \<Longrightarrow>
   yields Q (case x of None \<Rightarrow> m | Some y \<Rightarrow> f y)"
  by (cases x) auto

lemma yields_prod [yields_rules]:
  "(\<And>a b. x = (a, b) \<Longrightarrow> yields Q (f a b)) \<Longrightarrow> yields Q (case x of (a, b) \<Rightarrow> f a b)"
  by (cases x) auto

lemma yields_mono: "yields P m \<Longrightarrow> (\<And>x. P x \<Longrightarrow> Q x) \<Longrightarrow> yields Q m"
  by (auto simp: yields_def)

lemma keeps_bnd_yields:
  "order_rel R \<Longrightarrow> keeps R m \<Longrightarrow> yields P m \<Longrightarrow> (\<And>x. P x \<Longrightarrow> keeps R (f x)) \<Longrightarrow> keeps R (bnd m f)"
  unfolding keeps_def order_rel_def yields_def by (meson bnd_cases)

section \<open>Writes\<close>

context fh_run
begin

definition put_result :: "string \<Rightarrow> bytes \<Rightarrow> 'f \<Rightarrow> 'f \<Rightarrow> error + 'x \<Rightarrow> bool" where
  "put_result q content v v' r =
     (inv v' \<and>
      (case r of
         Inr _ \<Rightarrow> held api v' q = Some content \<and> spares api key {key q} v v'
       | Inl _ \<Rightarrow> spares api key {} v v'))"

lemma put_result_after:
  "spares api key {} v w \<Longrightarrow> put_result q content w v' r \<Longrightarrow> put_result q content v v' r"
  using spares_trans spares_mono [of api key "{}" v w "{key q}"]
  by (auto simp: put_result_def split: sum.splits)

lemma put_result_spares: "put_result q content v v' r \<Longrightarrow> inv v' \<and> spares api key {key q} v v'"
  using spares_mono [of api key "{}" v v' "{key q}"] by (cases r) (auto simp: put_result_def)

lemma ensure_then_write:
  assumes "inv (fh_vol s)" and "seq (ensureDirOf c d) (writeAtomicMode c q content mode) s = (s', r)"
  shows "put_result q content (fh_vol s) (fh_vol s') r"
  using assms(2) unfolding seq_def
proof (cases rule: bnd_cases)
  case (error e)
  then show ?thesis using keepsD [OF kept_ensureDirOf error(1)] assms(1)
    by (simp add: kept_def put_result_def)
next
  case (step x t)
  have t: "inv (fh_vol t)" "spares api key {} (fh_vol s) (fh_vol t)"
    using keepsD [OF kept_ensureDirOf step(1)] assms(1) by (simp_all add: kept_def)
  have "put_result q content (fh_vol t) (fh_vol s') r"
    using writeAtomicMode_result [OF t(1) step(2)] by (simp add: put_result_def)
  then show ?thesis by (rule put_result_after [OF t(2)])
qed

lemma put_result_quiet:
  assumes "fh_vol t = fh_vol s" and "put_result q content (fh_vol t) w r"
  shows "put_result q content (fh_vol s) w r"
  using assms by simp

lemma sample_bnd: "bnd (sample c) f s = f (c_now c (fh_clock s)) (s\<lparr>fh_clock := Suc (fh_clock s)\<rparr>)"
  by (simp add: bnd_def sample_def)

lemma audit_vol: "appendAudit tag data s = (s', r) \<Longrightarrow> fh_vol s' = fh_vol s \<and> r = Inr ()"
  by (auto simp: appendAudit_def modify_def)

lemma saveFile_result:
  assumes "inv (fh_vol s)" and "\<not> ct_Dryrun (c_control c)"
    and "saveFile c p content mode whence s = (s', r)"
  shows "put_result (canonOutPath p) content (fh_vol s) (fh_vol s') r"
proof -
  define s1 where "s1 = s\<lparr>fh_clock := Suc (fh_clock s)\<rparr>"
  have v1: "fh_vol s1 = fh_vol s" by (simp add: s1_def)
  show ?thesis
  proof (cases "p = [] \<or> maxDepth < pathDepth p")
    case True
    then have "fh_vol s' = fh_vol s \<and> (\<exists>e. r = Inl e)"
      using assms(3) v1 unfolding saveFile_def sample_bnd s1_def [symmetric]
      by (auto simp: validPath_def seq_def split: if_splits)
    then show ?thesis using assms(1) by (auto simp: put_result_def)
  next
    case False
    obtain t x where w: "seq (ensureDirOf c (canonOutPath p)) (writeAtomicMode c (canonOutPath p) content mode) s1 = (t, x)"
      by (meson surj_pair)
    have pr: "put_result (canonOutPath p) content (fh_vol s) (fh_vol t) x"
      using ensure_then_write [OF _ w] assms(1) by (simp add: v1)
    have "fh_vol s' = fh_vol t \<and> (\<exists>e y. x = Inl e \<and> r = Inl y \<or> x = Inr () \<and> r = Inr ())"
      using assms(2,3) w False unfolding saveFile_def sample_bnd s1_def [symmetric]
      by (cases x) (auto simp: validPath_def seq_def [of "ret _"] fs_ask_def Let_def
        bnd_def [of "attempt _"] attempt_def seq_def [of "appendAudit _ _"] bnd_def [of "appendAudit _ _"]
        fail_def dest!: audit_vol split: prod.splits sum.splits)
    then show ?thesis using pr by (auto simp: put_result_def)
  qed
qed

lemma copyFile_result:
  assumes "inv (fh_vol s)" and "\<not> ct_Dryrun (c_control c)"
    and "copyFile c p q whence s = (s', r)"
  shows "(\<exists>b. held api (fh_vol s) (canonOutPath p) = Some b \<and>
        put_result (canonOutPath q) b (fh_vol s) (fh_vol s') r) \<or>
      (\<exists>e. r = Inl e) \<and> fh_vol s' = fh_vol s"
proof -
  define s1 where "s1 = s\<lparr>fh_clock := Suc (fh_clock s)\<rparr>"
  have v1: "fh_vol s1 = fh_vol s" by (simp add: s1_def)
  show ?thesis
  proof (cases "p = [] \<or> maxDepth < pathDepth p \<or> q = [] \<or> maxDepth < pathDepth q")
    case True
    then show ?thesis
      using assms(3) v1 unfolding copyFile_def sample_bnd s1_def [symmetric] Let_def
      by (auto simp: validPath_def seq_def split: if_splits)
  next
    case False
    show ?thesis
    proof (cases "api_ReadFile api (fh_vol s) (canonOutPath p)")
      case (Inl e)
      then show ?thesis
        using assms(3) False v1 unfolding copyFile_def sample_bnd s1_def [symmetric] Let_def c_api
        by (auto simp: validPath_def seq_def [of "ret _"] fs_ask_def bnd_def [of "attempt _"] attempt_def
            seq_def [of "appendAudit _ _"] bnd_def [of "appendAudit _ _"] fail_def dest!: audit_vol
            split: prod.splits sum.splits)
    next
      case (Inr b)
      obtain t x where w: "seq (ensureDirOf c (canonOutPath q)) (writeAtomicMode c (canonOutPath q) b 0) s1 = (t, x)"
        by (meson surj_pair)
      have pr: "put_result (canonOutPath q) b (fh_vol s) (fh_vol t) x"
        using ensure_then_write [OF _ w] assms(1) by (simp add: v1)
      have "fh_vol s' = fh_vol t \<and> (\<exists>e y. x = Inl e \<and> r = Inl y \<or> x = Inr () \<and> r = Inr ())"
        using assms(2,3) w False Inr v1
        unfolding copyFile_def sample_bnd s1_def [symmetric] Let_def c_api writeAtomic_def
        by (cases x) (auto simp: validPath_def seq_def [of "ret _"] fs_ask_def
          bnd_def [of "attempt _"] attempt_def seq_def [of "appendAudit _ _"] bnd_def [of "appendAudit _ _"]
          fail_def dest!: audit_vol split: prod.splits sum.splits)
      then have "put_result (canonOutPath q) b (fh_vol s) (fh_vol s') r"
        using pr by (auto simp: put_result_def)
      then show ?thesis using Inr by (auto simp: held_def)
    qed
  qed
qed

text \<open>The two relations, for every call that writes.\<close>

definition target :: "string \<Rightarrow> bytes set \<Rightarrow> 'f Fh \<Rightarrow> 'f Fh \<Rightarrow> bool" where
  "target q B s s' =
     (inv (fh_vol s) \<longrightarrow> inv (fh_vol s') \<and>
      (held api (fh_vol s) q \<noteq> None \<longrightarrow>
         held api (fh_vol s') q \<noteq> None \<and>
         (held api (fh_vol s') q = held api (fh_vol s) q \<or> held api (fh_vol s') q \<in> Some ` B)))"

lemma order_target [simp]: "order_rel (target q B)"
  unfolding order_rel_def target_def by auto

lemma target_quiet: "keeps same_vol m \<Longrightarrow> keeps (target q B) m"
  by (auto simp: keeps_def same_vol_def target_def)

lemma target_kept:
  assumes "keeps (kept K) m" and "key q \<notin> K"
  shows "keeps (target q B) m"
proof (rule keepsI)
  fix s s' r
  assume "m s = (s', r)"
  from keepsD [OF assms(1) this] assms(2) show "target q B s s'"
    by (auto simp: kept_def target_def spares_def)
qed

lemma kept_saveFile: "keeps (kept {key (canonOutPath p)}) (saveFile c p content mode whence)"
proof (cases "ct_Dryrun (c_control c)")
  case True
  then show ?thesis by (intro kept_quiet dry_low)
next
  case False
  show ?thesis
  proof (rule keepsI)
    fix s s' r
    assume "saveFile c p content mode whence s = (s', r)"
    from saveFile_result [OF _ False this] show "kept {key (canonOutPath p)} s s'"
      by (auto simp: kept_def put_result_def intro: spares_mono split: sum.splits)
  qed
qed

lemma target_saveFile:
  assumes "content \<in> B"
  shows "keeps (target (canonOutPath p) B) (saveFile c p content mode whence)"
proof (cases "ct_Dryrun (c_control c)")
  case True
  then show ?thesis by (intro target_quiet dry_low)
next
  case False
  show ?thesis
  proof (rule keepsI)
    fix s s' r
    assume "saveFile c p content mode whence s = (s', r)"
    from saveFile_result [OF _ False this] show "target (canonOutPath p) B s s'"
      using assms by (auto simp: target_def put_result_def spares_def split: sum.splits)
  qed
qed

lemma kept_copyFile: "keeps (kept {key (canonOutPath q)}) (copyFile c p q whence)"
proof (cases "ct_Dryrun (c_control c)")
  case True
  then show ?thesis by (intro kept_quiet dry_low)
next
  case False
  show ?thesis
  proof (rule keepsI)
    fix s s' r
    assume run: "copyFile c p q whence s = (s', r)"
    show "kept {key (canonOutPath q)} s s'"
      using copyFile_result [OF _ False run] put_result_spares
      by (fastforce simp: kept_def)
  qed
qed

lemma kept_writeDuplicate: "keeps (kept {key (duplicateFolder c @ ''/'' @ rpath)}) (writeDuplicate c rpath content)"
proof -
  have "keeps (kept {key q}) (writeAtomic c q content)" for q
  proof (rule keepsI)
    fix s s' r
    assume "writeAtomic c q content s = (s', r)"
    from writeAtomicMode_result [OF _ this [unfolded writeAtomic_def]] show "kept {key q} s s'"
      by (auto simp: kept_def intro: spares_mono split: sum.splits)
  qed
  then show ?thesis
    unfolding writeDuplicate_def Let_def
    by (intro keeps_rules order_kept kept_quiet [OF same_vol_prims(3)] kept_mono [OF kept_ensureDirOf]) simp_all
qed

lemma kept_chmodUnchanged: "keeps (kept {}) (chmodUnchanged c p mode)"
  unfolding chmodUnchanged_def c_api
  by (intro kept_bnd kept_chmod keeps_rules order_kept kept_quiet [OF same_vol_prims(3)]
      kept_quiet [OF same_vol_prims(7)])

lemma kept_apply_mode: "keeps (kept {}) (apply_mode c p mode sv)"
  unfolding apply_mode_def by (intro kept_bnd kept_chmodUnchanged keeps_rules order_kept)

end

end
