(* ===== verification/FhProps.thy ===== *)
theory FhProps
  imports FhSafe MergeProps
begin

text \<open>
  The guarantees of a save: its reach (the target, the two sidecars and the baseline), and what the
  protect marker does.
\<close>

section \<open>What the quiet calls answer\<close>

definition same_ctx :: "'f Fh \<Rightarrow> 'f Fh \<Rightarrow> bool" where
  "same_ctx s s' = (fh_vol s' = fh_vol s \<and> fh_prev s' = fh_prev s)"

lemma order_same_ctx [simp]: "order_rel same_ctx"
  by (simp add: order_rel_def same_ctx_def)

lemma same_ctx_prims:
  "keeps same_ctx (sample c)" "keeps same_ctx (appendAudit tag data)" "keeps same_ctx (warn args)"
  "keeps same_ctx (filelog kind p)" "keeps same_ctx (note_save p)" "keeps same_ctx (fs_ask g)"
  "keeps same_ctx (modify (\<lambda>s. s\<lparr>fh_failures := f s\<rparr>))" "keeps same_ctx (modify (\<lambda>s. s\<lparr>fh_meta := h s\<rparr>))"
  by (auto simp: keeps_def same_ctx_def sample_def appendAudit_def warn_def modify_def filelog_def
      note_save_def fs_ask_def gets_def split: if_splits)

lemmas ctx_steps = keeps_bnd [OF order_same_ctx] keeps_seq [OF order_same_ctx] keeps_ret [OF order_same_ctx]
  keeps_fail [OF order_same_ctx] keeps_gets [OF order_same_ctx] keeps_if keeps_Let keeps_prod keeps_option keeps_sum

lemma same_ctx_calls:
  "keeps same_ctx (existsFile c p whence)" "keeps same_ctx (loadFile c p whence)"
  "keeps same_ctx (record_action c dtag p action sv)" "keeps same_ctx (decision tag m why p)"
  "keeps same_ctx (final_action c action sv)"
  unfolding existsFile_def loadFile_def load_def record_action_def decision_def validPath_def final_action_def
  by (intro ctx_steps same_ctx_prims)+

lemma same_ctxD: "keeps same_ctx m \<Longrightarrow> m s = (s', r) \<Longrightarrow> fh_vol s' = fh_vol s \<and> fh_prev s' = fh_prev s"
  by (auto simp: keeps_def same_ctx_def)

lemma same_ctx_baseline: "keeps same_ctx (load_baseline c rp sv)"
  unfolding load_baseline_def by (intro ctx_steps same_ctx_calls)

text \<open>No call of a save touches the previous log.\<close>

definition same_prev :: "'f Fh \<Rightarrow> 'f Fh \<Rightarrow> bool" where
  "same_prev s s' = (fh_prev s' = fh_prev s)"

lemma order_same_prev [simp]: "order_rel same_prev"
  by (simp add: order_rel_def same_prev_def)

lemmas prev_steps = keeps_bnd [OF order_same_prev] keeps_seq [OF order_same_prev] keeps_ret [OF order_same_prev]
  keeps_fail [OF order_same_prev] keeps_gets [OF order_same_prev] keeps_attempt
  keeps_if keeps_Let keeps_prod keeps_option keeps_sum

lemma same_prev_prims:
  "keeps same_prev (sample c)" "keeps same_prev (appendAudit tag data)" "keeps same_prev (warn args)"
  "keeps same_prev (filelog kind p)" "keeps same_prev (fs_ask g)" "keeps same_prev (fs_do f)"
  "keeps same_prev (tmppathFor c p)" "keeps same_prev (modify (\<lambda>s. s\<lparr>fh_created := d s\<rparr>))"
  "keeps same_prev (modify (\<lambda>s. s\<lparr>fh_failures := e s\<rparr>))"
  by (auto simp: keeps_def same_prev_def sample_def appendAudit_def warn_def modify_def filelog_def
      fs_ask_def gets_def fs_do_def tmppathFor_def split: if_splits prod.splits)

lemma same_prev_try: "keeps same_prev (try_temps c p content k)"
  by (induction k) (simp_all only: try_temps.simps removeTemp_def, (intro prev_steps same_prev_prims; assumption?)+)

lemma same_prev_writes:
  "keeps same_prev (writeAtomicMode c p content mode)" "keeps same_prev (saveFile c q content mode whence)"
proof -
  show 1: "keeps same_prev (writeAtomicMode c p content mode)" for p
    unfolding writeAtomicMode_def check_slash_target_def copy_mode_def removeTemp_def
    by (intro prev_steps same_prev_prims same_prev_try)
  show "keeps same_prev (saveFile c q content mode whence)"
    unfolding saveFile_def validPath_def ensureDirOf_def ensureFolder_def
    by (intro prev_steps same_prev_prims 1)
qed

lemma same_ctx_prev: "keeps same_ctx m \<Longrightarrow> keeps same_prev m"
  by (simp add: keeps_def same_ctx_def same_prev_def)

lemma same_prev_modes:
  "keeps same_prev (save_preserve c dtag whence p modes sv)"
  "keeps same_prev (save_present c dtag whence p content modes sv)"
proof -
  have copy: "keeps same_prev (copyFile c p q w)" for q w
    unfolding copyFile_def validPath_def ensureDirOf_def ensureFolder_def writeAtomic_def
    by (intro prev_steps same_prev_prims same_prev_writes)
  show "keeps same_prev (save_preserve c dtag whence p modes sv)"
    "keeps same_prev (save_present c dtag whence p content modes sv)"
    unfolding save_preserve_def save_present_def
    by (intro prev_steps same_prev_prims same_prev_writes copy same_ctx_prev [OF same_ctx_calls(3)])+
qed

lemma seq_ok: "seq m n s = (s', Inr y) \<Longrightarrow> \<exists>t. m s = (t, Inr ()) \<and> n t = (s', Inr y)"
  unfolding seq_def by (drule bnd_ok) auto

section \<open>The reach of a save\<close>

text \<open>The files beside the target that a save may write.\<close>

definition sidecars :: "'f Cfg \<Rightarrow> string \<Rightarrow> string set" where
  "sidecars c p =
     {canonOutPath (annotatedPath p ''old''), canonOutPath (annotatedPath p ''new''),
      duplicateFolder c @ ''/'' @ relative (c_folder c) p}"

text \<open>A save of a file that is there: it is read before anything is written, and the rest goes on from
  the bytes that were read.\<close>

definition with_existing ::
  "'f Cfg \<Rightarrow> string \<Rightarrow> string \<Rightarrow> bool \<Rightarrow> bytes \<Rightarrow> FileMode \<Rightarrow> modeBits \<Rightarrow> bytes \<Rightarrow> ('f Fh, SaveVars) comp" where
  "with_existing c p whence tagged content mode modes b =
     (let dtag = ''FileHandler:save:'' @ (if tagged then wstrOf whence else []); rp = relative (c_folder c) p;
          sv = (because ''exists-0'' (start_vars rp True))\<lparr>sv_unchanged := (b = content), sv_landed := (b = content),
             sv_meta := (sv_meta (start_vars rp True))\<lparr>me_Protect := str_contains b protectMarker\<rparr>\<rparr>
      in bnd (save_preserve c dtag whence p modes sv) (\<lambda>sv.
         bnd (save_present c dtag whence p content modes sv) (\<lambda>sv.
           if str_contains b protectMarker then ret sv
           else let sv = because ''not-protect-1'' sv
                in if mb_diff modes then save_diff c dtag whence p content b mode sv
                   else if mb_merge modes then save_merge c dtag whence p rp content b mode modes sv
                   else ret sv)))"

definition with_outcome ::
  "'f Cfg \<Rightarrow> string \<Rightarrow> string \<Rightarrow> bool \<Rightarrow> bytes \<Rightarrow> FileMode \<Rightarrow> modeBits \<Rightarrow> SaveVars \<Rightarrow> ('f Fh, unit) comp" where
  "with_outcome c p whence tagged content mode modes sv =
     (let dtag = ''FileHandler:save:'' @ (if tagged then wstrOf whence else []); rp = relative (c_folder c) p
      in bnd (save_write c whence p content mode sv) (\<lambda>sv.
         bnd (save_duplicate c p rp content sv) (\<lambda>sv. save_finish c dtag p rp content modes sv)))"

context fh_run
begin

text \<open>One pass over \<^verbatim>\<open>saveAs\<close> for any relation that the quiet calls and the writes keep.\<close>

lemma saveAs_keeps:
  fixes content :: bytes and p0 :: string
  defines "p \<equiv> canonOutPath p0"
  assumes R: "order_rel R"
    and quiet_R: "\<And>m :: ('f Fh, unit) comp. keeps same_vol m \<Longrightarrow> keeps R m"
      "\<And>m :: ('f Fh, SaveVars) comp. keeps same_vol m \<Longrightarrow> keeps R m"
      "\<And>m :: ('f Fh, bool) comp. keeps same_vol m \<Longrightarrow> keeps R m"
      "\<And>m :: ('f Fh, bytes) comp. keeps same_vol m \<Longrightarrow> keeps R m"
      "\<And>m :: ('f Fh, SaveVars \<times> bytes option) comp. keeps same_vol m \<Longrightarrow> keeps R m"
      "\<And>m :: ('f Fh, string list) comp. keeps same_vol m \<Longrightarrow> keeps R m"
      "\<And>m :: ('f Fh, int) comp. keeps same_vol m \<Longrightarrow> keeps R m"
    and write_R: "\<And>b mode w. keeps R (saveFile c p b mode w)"
    and side_R: "\<And>b w. keeps R (saveFile c (annotatedPath p ''new'') b 0 w)"
      "\<And>w. keeps R (copyFile c p (annotatedPath p ''old'') w)"
      "\<And>b. keeps R (writeDuplicate c (relative (c_folder c) p) b)"
    and mode_R: "\<And>mode sv. keeps R (apply_mode c p mode sv)"
  shows "keeps R (saveAs c p0 content whence tagged mode isText)"
proof -
  note step = keeps_bnd [OF R] keeps_seq [OF R] keeps_ret [OF R] keeps_fail [OF R]
    keeps_gets [OF R] keeps_if keeps_Let keeps_prod keeps_option
  note q = quiet_R(1) [OF same_vol_prims(4)] quiet_R(1) [OF same_vol_prims(5)]
    quiet_R(2) [OF same_vol_calls(2)] quiet_R(2) [OF same_vol_calls(3)] quiet_R(3) [OF same_vol_prims(7)]
    quiet_R(1) [OF same_vol_modify(1)] quiet_R(4) [OF same_vol_loads(1)]
    quiet_R(5) [OF same_vol_loads(4)] quiet_R(1) [OF same_vol_loads(5)]
  have pre: "keeps R (save_preserve c dtag whence p modes sv)" for dtag modes sv
    unfolding save_preserve_def by (intro step side_R q)
  have pres: "keeps R (save_present c dtag whence p content modes sv)" for dtag modes sv
    unfolding save_present_def by (intro step side_R q)
  have diff: "keeps R (save_diff c dtag whence p content existing mode sv)" for dtag existing mode sv
    unfolding save_diff_def by (intro step write_R mode_R q)
  have mrg: "keeps R (saveMerge c p content existing baseline earlier whence mode cf sv)"
    for existing baseline earlier mode cf sv
    unfolding saveMerge_def
    by (intro step write_R mode_R q)
  have mrgs: "keeps R (save_merge c dtag whence p rpath content existing mode modes sv)"
    for dtag rpath existing mode modes sv
    unfolding save_merge_def by (intro step mrg mode_R q)
  have wr: "keeps R (save_write c whence p content mode sv)" for mode sv
    unfolding save_write_def by (intro step write_R mode_R q)
  have du: "keeps R (save_duplicate c p (relative (c_folder c) p) content sv)" for sv
    unfolding save_duplicate_def by (intro step side_R)
  have ex: "keeps R (save_exists c dtag whence p rpath content mode modes sv)" for dtag rpath modes sv
    unfolding save_exists_def by (intro step pre pres diff mrgs q)
  show ?thesis
    unfolding saveAs_def p_def [symmetric] Let_def by (intro step ex wr du q)
qed

lemma kept_saveAs:
  fixes content :: bytes and p0 :: string
  defines "p \<equiv> canonOutPath p0"
  shows "keeps (kept (insert (key p) (key ` sidecars c p))) (saveAs c p0 content whence tagged mode isText)"
  unfolding p_def
  by (intro saveAs_keeps order_kept kept_quiet kept_mono [OF kept_saveFile] kept_mono [OF kept_copyFile]
      kept_mono [OF kept_writeDuplicate] kept_mono [OF kept_apply_mode])
    (auto simp: sidecars_def)

section \<open>Protected files\<close>

lemma loadFile_held:
  assumes "loadFile c p w s = (t, Inr b)"
  shows "held api (fh_vol s) (canonOutPath p) = Some b"
  using assms
  by (auto simp: loadFile_def load_def sample_bnd Let_def validPath_def seq_def fs_ask_def c_api held_def
      fail_def bnd_def [of "appendAudit _ _"] ret_def dest!: audit_vol split: if_splits sum.splits prod.splits)

lemma saveAs_there:
  fixes content :: bytes and p0 :: string and isText :: bool
  defines "p \<equiv> canonOutPath p0" and "m \<equiv> modesFor c isText"
  assumes "api_Exists api (fh_vol s) p"
    and run: "saveAs c p0 content whence tagged mode isText s = (s', r)"
  obtains (stopped) e where "r = Inl e" and "fh_vol s' = fh_vol s"
  | (loaded) b s2 where "held api (fh_vol s) p = Some b" and "fh_vol s2 = fh_vol s" and "fh_prev s2 = fh_prev s"
      and "bnd (with_existing c p whence tagged content mode m b) (with_outcome c p whence tagged content mode m) s2 = (s', r)"
proof (cases "p0 = []")
  case True
  then show ?thesis using run stopped by (auto simp: saveAs_def fail_def)
next
  case False
  let ?rp = "relative (c_folder c) p"
  let ?dtag = "''FileHandler:save:'' @ (if tagged then wstrOf whence else [])"
  have p: "canonOutPath p = p" by (simp add: p_def)
  obtain s1 where n: "note_save p s = (s1, Inr ())"
    by (cases "p \<in> set (fh_saved s)") (auto simp: note_save_def warn_def modify_def)
  have v1: "fh_vol s1 = fh_vol s" "fh_prev s1 = fh_prev s" using same_ctxD [OF same_ctx_prims(5) n] by auto
  have "bnd (save_exists c ?dtag whence p ?rp content mode m (start_vars ?rp True))
      (with_outcome c p whence tagged content mode m) s1 = (s', r)"
    using run False n v1 assms(3)
    unfolding saveAs_def p_def [symmetric] m_def [symmetric] with_outcome_def Let_def seq_def fs_ask_def c_api
    by (simp add: bnd_run_ok)
  then have body: "bnd (loadFile c p []) (\<lambda>b. bnd (with_existing c p whence tagged content mode m b)
      (with_outcome c p whence tagged content mode m)) s1 = (s', r)"
    unfolding save_exists_def with_existing_def Let_def bnd_assoc .
  obtain t z where l: "loadFile c p [] s1 = (t, z)" by (meson surj_pair)
  have v2: "fh_vol t = fh_vol s" "fh_prev t = fh_prev s" using same_ctxD [OF same_ctx_calls(2) l] v1 by auto
  show ?thesis
  proof (cases z)
    case (Inl e)
    then show ?thesis using body l v2 stopped by (auto simp: bnd_run_error)
  next
    case (Inr b)
    then have "held api (fh_vol s) p = Some b" using loadFile_held [of p "[]" s1 t b] l v1 p by simp
    then show ?thesis using body l v2 Inr loaded by (simp add: bnd_run_ok)
  qed
qed

definition guarded :: "SaveVars \<Rightarrow> bool" where
  "guarded sv = (me_Protect (sv_meta sv) \<and> \<not> sv_write sv)"

lemma guarded_because [simp]: "guarded (because w sv) = guarded sv"
  by (simp add: guarded_def because_def)

lemma guarded_record: "guarded sv \<Longrightarrow> yields guarded (record_action c dtag p action sv)"
  unfolding record_action_def Let_def by (intro yields_rules) (simp add: guarded_def)

lemma guarded_final: "guarded sv \<Longrightarrow> yields guarded (final_action c action sv)"
  unfolding final_action_def by (intro yields_rules) (simp add: guarded_def)

lemma protected_steps:
  assumes "guarded sv"
  shows "keeps same_vol (save_preserve c dtag whence p modes sv)"
    "yields guarded (save_preserve c dtag whence p modes sv)"
    "keeps (kept {key (canonOutPath (annotatedPath p ''new''))}) (save_present c dtag whence p content modes sv)"
    "yields guarded (save_present c dtag whence p content modes sv)"
    "keeps same_vol (save_write c whence p content mode sv)"
proof -
  have pr: "me_Protect (sv_meta sv)" "\<not> sv_write sv" using assms by (simp_all add: guarded_def)
  show "keeps same_vol (save_preserve c dtag whence p modes sv)"
    "yields guarded (save_preserve c dtag whence p modes sv)"
    using pr assms by (simp_all add: save_preserve_def because_def guarded_def quiet yields_rules)
  show "keeps (kept {key (canonOutPath (annotatedPath p ''new''))}) (save_present c dtag whence p content modes sv)"
    using pr unfolding save_present_def
    by (intro keeps_rules order_kept kept_saveFile kept_quiet [OF same_vol_prims(4)]
        kept_quiet [OF same_vol_calls(2)])
  show "yields guarded (save_present c dtag whence p content modes sv)"
    using pr assms unfolding save_present_def by (intro yields_rules guarded_record) simp_all
  show "keeps same_vol (save_write c whence p content mode sv)"
    using pr by (simp add: save_write_def because_def quiet)
qed

lemma kept_save_duplicate:
  "keeps (kept {key (duplicateFolder c @ ''/'' @ rpath)}) (save_duplicate c p rpath content sv)"
  unfolding save_duplicate_def by (intro keeps_rules order_kept kept_writeDuplicate)

lemma protected_save:
  fixes content :: bytes and p0 :: string
  defines "p \<equiv> canonOutPath p0"
  defines "K \<equiv> {key (canonOutPath (annotatedPath p ''new'')),
    key (duplicateFolder c @ ''/'' @ relative (c_folder c) p)}"
  assumes "inv (fh_vol s)" and "held api (fh_vol s) p = Some b" and "str_contains b protectMarker"
    and run: "saveAs c p0 content whence tagged mode isText s = (s', r)"
  shows "spares api key K (fh_vol s) (fh_vol s')"
proof (cases "api_Exists api (fh_vol s) p")
  case True
  show ?thesis
  proof (cases rule: saveAs_there [OF True [unfolded p_def] run, folded p_def, case_names stopped loaded])
    case (loaded b' s2)
    let ?rp = "relative (c_folder c) p" and ?m = "modesFor c isText"
    let ?dtag = "''FileHandler:save:'' @ (if tagged then wstrOf whence else [])"
    define sv where "sv = (because ''exists-0'' (start_vars ?rp True))
      \<lparr>sv_unchanged := (b = content), sv_landed := (b = content),
       sv_meta := (sv_meta (start_vars ?rp True))\<lparr>me_Protect := True\<rparr>\<rparr>"
    have g: "guarded sv" by (simp add: sv_def guarded_def because_def start_vars_def)
    let ?modes = "bnd (save_preserve c ?dtag whence p ?m sv) (\<lambda>sv. save_present c ?dtag whence p content ?m sv)"
    have eq: "with_existing c p whence tagged content mode ?m b' = ?modes"
      using loaded(1) assms(4,5) by (simp add: with_existing_def sv_def Let_def)
    have "keeps (kept K) (bnd ?modes (with_outcome c p whence tagged content mode ?m))"
    proof (rule keeps_bnd_yields [where P = guarded, OF order_kept])
      show "keeps (kept K) ?modes"
        by (rule keeps_bnd_yields [OF order_kept kept_quiet [OF protected_steps(1) [OF g]] protected_steps(2) [OF g]])
          (rule kept_mono [OF protected_steps(3)], auto simp: K_def)
      show "yields guarded ?modes"
        by (rule yields_bnd [OF protected_steps(2) [OF g] protected_steps(4)])
      fix sv assume "guarded sv"
      then show "keeps (kept K) (with_outcome c p whence tagged content mode ?m sv)"
        unfolding with_outcome_def Let_def
        by (intro kept_bnd kept_quiet [OF protected_steps(5)] kept_quiet [OF same_vol_loads(5)]
            kept_mono [OF kept_save_duplicate]) (auto simp: K_def)
    qed
    from keepsD [OF this loaded(4) [unfolded eq]] show ?thesis using assms(3) loaded(2) by (simp add: kept_def)
  qed simp
qed (use held_exists assms(4) in blast)

end

end
