(* ===== verification/FhMerge.thy ===== *)
theory FhMerge
  imports FhProps
begin

text \<open>
  A save in merge mode, followed call by call: the file ends up holding exactly the three-way merge
  of the new generate, the baseline and the file on disk, and the baseline becomes the new generate
  exactly when the merge landed.
\<close>

text \<open>Merge is the only mode that is on, and conflicts do not fail the run.\<close>

definition merge_only :: "modeBits \<Rightarrow> bool" where
  "merge_only m = (mb_merge m \<and> \<not> mb_diff m \<and> \<not> mb_preserve m \<and> \<not> mb_present m \<and> \<not> mb_conflictFail m)"

context fh_run
begin

lemma existsFile_ok:
  assumes "existsFile c q w s = (t, Inr x)"
  shows "x = api_Exists api (fh_vol s) (canonOutPath q)"
  using assms
  by (auto simp: existsFile_def sample_bnd validPath_def seq_def fs_ask_def c_api
      bnd_def [of "appendAudit _ _"] ret_def dest!: audit_vol split: if_splits prod.splits sum.splits)

lemma load_baseline_ok:
  assumes "Duplicate (c_control c)" and "load_baseline c rpath sv s = (t, Inr (sv', base))"
  defines "d \<equiv> canonOutPath (path_join [duplicateFolder c, rpath])"
  shows "fh_vol t = fh_vol s \<and> fh_prev t = fh_prev s \<and>
    base = (if api_Exists api (fh_vol s) d then held api (fh_vol s) d else None) \<and>
    sv_meta sv' = sv_meta sv \<and> sv_unchanged sv' = sv_unchanged sv"
proof -
  from assms(1,2) obtain has s1 where h: "existsFile c (path_join [duplicateFolder c, rpath]) [] s = (s1, Inr has)"
    and run: "(if has then bnd (loadFile c (path_join [duplicateFolder c, rpath]) [])
        (\<lambda>b. ret (because ''dupexists-0'' (because ''duplicate-0'' sv), Some b))
      else ret (because ''duplicate-0'' sv, None)) s1 = (t, Inr (sv', base))"
    unfolding load_baseline_def Let_def by (auto dest!: bnd_ok)
  note v = same_ctxD [OF same_ctx_calls(1) h]
  show ?thesis
  proof (cases has)
    case False
    then show ?thesis using run v existsFile_ok [OF h] by (auto simp: d_def ret_def because_def)
  next
    case True
    with run obtain b where b: "loadFile c (path_join [duplicateFolder c, rpath]) [] s1 = (t, Inr b)"
      "sv' = because ''dupexists-0'' (because ''duplicate-0'' sv)" "base = Some b"
      by (auto simp: ret_def dest!: bnd_ok)
    show ?thesis
      using same_ctxD [OF same_ctx_calls(2) b(1)] v existsFile_ok [OF h] True loadFile_held [OF b(1)] b(2,3)
      by (simp add: d_def because_def)
  qed
qed

lemma apply_mode_off: "apply_mode c p 0 sv = ret sv"
  by (simp add: apply_mode_def chmodUnchanged_def)

text \<open>\<^verbatim>\<open>saveMerge\<close> under the default conflict mode.\<close>

lemma saveMerge_ok:
  assumes "inv (fh_vol s)" and "\<not> ct_Dryrun (c_control c)" and p: "canonOutPath p = p"
    and "held api (fh_vol s) p = Some existing"
    and run: "saveMerge c p content existing baseline False whence 0 False sv s = (t, Inr (sv', landed))"
  obtains res where "Merge content baseline existing \<lparr>ds_when = c_when c,
      ds_last = meta_last (fh_prev s), ds_kind = ''merge'', ds_labels = None\<rparr> = Some res"
    "inv (fh_vol t)" "fh_prev t = fh_prev s"
    "landed = (mr_outcome res \<noteq> MergeUnresolved)"
    "held api (fh_vol t) p = Some (if landed then mr_content res else existing)"
    "sv_write sv' = sv_write sv" "sv_unchanged sv' = sv_unchanged sv"
proof -
  let ?spec = "\<lparr>ds_when = c_when c, ds_last = meta_last (fh_prev s), ds_kind = ''merge'', ds_labels = None\<rparr>"
  obtain res where m: "Merge content baseline existing ?spec = Some res"
    using run by (cases "Merge content baseline existing ?spec") (auto simp: saveMerge_def fail_def)
  define sv1 where "sv1 = because (mergeWhy (mr_outcome res)) sv"
  define un where "un = (mr_outcome res = MergeUnresolved)"
  obtain sv2 l s1 where act: "(if un then ret (sv1, False)
        else seq (saveFile c p (mr_content res) 0 (whence @ ''merge'')) (ret (sv1, True))) s = (s1, Inr (sv2, l))"
    and fin: "seq (filelog ''merged'' p) (seq (if mr_conflict res \<or> un then filelog ''conflicted'' p else ret ())
        (ret (sv2\<lparr>sv_meta := (sv_meta sv2)\<lparr>me_Conflict := mr_conflict res \<or> un\<rparr>\<rparr>, l))) s1 = (t, Inr (sv', landed))"
    using run m unfolding saveMerge_def Let_def apply_mode_off
    by (auto simp: sv1_def un_def cong: if_cong dest!: bnd_ok)
  have f: "fh_vol t = fh_vol s1" "fh_prev t = fh_prev s1" "landed = l" "sv_write sv' = sv_write sv2"
    "sv_unchanged sv' = sv_unchanged sv2"
  proof -
    let ?x = "(sv2\<lparr>sv_meta := (sv_meta sv2)\<lparr>me_Conflict := mr_conflict res \<or> un\<rparr>\<rparr>, l)"
    obtain t1 where t1: "filelog ''merged'' p s1 = (t1, Inr ())"
      and r1: "seq (if mr_conflict res \<or> un then filelog ''conflicted'' p else ret ()) (ret ?x) t1 = (t, Inr (sv', landed))"
      using seq_ok [OF fin] by blast
    obtain t2 where t2: "(if mr_conflict res \<or> un then filelog ''conflicted'' p else ret ()) t1 = (t2, Inr ())"
      and r2: "ret ?x t2 = (t, Inr (sv', landed))"
      using seq_ok [OF r1] by blast
    have "keeps same_ctx (if mr_conflict res \<or> un then filelog ''conflicted'' p else ret ())"
      by (intro ctx_steps same_ctx_prims)
    from same_ctxD [OF this t2] same_ctxD [OF same_ctx_prims(4) t1] r2
    show "fh_vol t = fh_vol s1" "fh_prev t = fh_prev s1" "landed = l" "sv_write sv' = sv_write sv2"
      "sv_unchanged sv' = sv_unchanged sv2"
      by (auto simp: ret_def)
  qed
  show ?thesis
  proof (cases un)
    case True
    then have "s1 = s" "l = False" "sv2 = sv1" using act by (auto simp: ret_def)
    then show ?thesis using that [OF m] f assms(1,4) True by (simp add: un_def sv1_def because_def)
  next
    case False
    then obtain t1 where sf: "saveFile c p (mr_content res) 0 (whence @ ''merge'') s = (t1, Inr ())"
      and "ret (sv1, True) t1 = (s1, Inr (sv2, l))"
      using act seq_ok [of "saveFile c p (mr_content res) 0 (whence @ ''merge'')" "ret (sv1, True)" s] by auto
    then have s1: "s1 = t1" "l = True" "sv2 = sv1" by (auto simp: ret_def)
    have pv: "fh_prev t1 = fh_prev s" using keepsD [OF same_prev_writes(2) sf] by (simp add: same_prev_def)
    from saveFile_result [OF assms(1,2) sf] p
    have "inv (fh_vol t1)" "held api (fh_vol t1) p = Some (mr_content res)" by (auto simp: put_result_def)
    then show ?thesis using that [OF m] f pv s1 False by (simp add: un_def sv1_def because_def)
  qed
qed

definition merge_settled :: "bool \<Rightarrow> SaveVars \<Rightarrow> bool" where
  "merge_settled landed sv = (\<not> sv_write sv \<and> sv_landed sv = landed \<and> me_Actions (sv_meta sv) \<noteq> [])"

lemma settled_record:
  "\<not> sv_write sv \<Longrightarrow> yields (merge_settled (sv_landed sv)) (record_action c dtag p action sv)"
  unfolding record_action_def Let_def by (intro yields_rules) (simp add: merge_settled_def)

lemma settled_write: "merge_settled l sv \<Longrightarrow> save_write c whence p content mode sv = ret sv"
  by (simp add: save_write_def merge_settled_def)

lemma save_merge_ok:
  assumes "inv (fh_vol s)" and "\<not> ct_Dryrun (c_control c)" and "Duplicate (c_control c)"
    and "canonOutPath p = p" and "held api (fh_vol s) p = Some existing"
    and base: "held api (fh_vol s) (canonOutPath (path_join [duplicateFolder c, rp])) = Some base"
    and fps: "base = existing \<or> \<not> hasFingerprint (priorFingerprints (fh_prev s) rp) (fingerprint c existing)"
    and "merge_only modes" and "\<not> sv_unchanged sv"
    and run: "save_merge c dtag whence p rp content existing 0 modes sv s = (t, Inr sv')"
  obtains res where "Merge content base existing \<lparr>ds_when = c_when c,
      ds_last = meta_last (fh_prev s), ds_kind = ''merge'', ds_labels = None\<rparr> = Some res"
    "inv (fh_vol t)" "merge_settled (mr_outcome res \<noteq> MergeUnresolved) sv'"
    "held api (fh_vol t) p = Some (if mr_outcome res = MergeUnresolved then existing else mr_content res)"
proof -
  let ?sv = "because ''content-3'' (because ''merge-0'' sv)"
  define F where "F = (\<lambda>(sv, base).
             bnd (gets (\<lambda>s. priorFingerprints (fh_prev s) rp)) (\<lambda>prior.
               let earlier = (base \<noteq> Some existing \<and> hasFingerprint prior (fingerprint c existing))
               in if base \<noteq> None \<or> earlier then
                    bnd (saveMerge c p content existing (case base of Some b \<Rightarrow> b | None \<Rightarrow> []) earlier
                          whence 0 (mb_conflictFail modes) (sv\<lparr>sv_write := False\<rparr>)) (\<lambda>(sv, merged).
                      record_action c dtag p ''merge'' (sv\<lparr>sv_landed := merged\<rparr>))
                  else
                    let sv = because ''merge-nobase-0'' sv
                    in seq (filelog ''unmerged'' p)
                      (if mb_conflictFail modes then
                         seq (modify (\<lambda>s. s\<lparr>fh_failures := fh_failures s @ [(p, ''nobase'')]\<rparr>))
                           (ret ((because ''conflict-fail-0'' sv)\<lparr>sv_write := False\<rparr>))
                       else ret sv)))"
  have "\<not> sv_unchanged (because ''merge-0'' sv)" using assms(9) by (simp add: because_def)
  then have "bnd (load_baseline c rp ?sv) F s = (t, Inr sv')"
    using run unfolding save_merge_def F_def Let_def by simp
  from bnd_ok [OF this] obtain sv1 b s1 where lb: "load_baseline c rp ?sv s = (s1, Inr (sv1, b))"
    and rest: "F (sv1, b) s1 = (t, Inr sv')" by (metis prod.exhaust)
  from load_baseline_ok [OF assms(3) lb] base held_exists
  have s1: "fh_vol s1 = fh_vol s" "fh_prev s1 = fh_prev s" "b = Some base" by auto
  have sub: "bnd (saveMerge c p content existing base False whence 0 False (sv1\<lparr>sv_write := False\<rparr>)) (\<lambda>(sv, merged).
      record_action c dtag p ''merge'' (sv\<lparr>sv_landed := merged\<rparr>)) s1 = (t, Inr sv')"
    using rest fps assms(8) s1 by (auto simp: merge_only_def F_def Let_def)
  from bnd_ok [OF this] obtain sv2 l s2 where sm: "saveMerge c p content existing base False whence 0 False (sv1\<lparr>sv_write := False\<rparr>) s1 = (s2, Inr (sv2, l))"
    and rec: "record_action c dtag p ''merge'' (sv2\<lparr>sv_landed := l\<rparr>) s2 = (t, Inr sv')"
    by (auto split: prod.splits)
  obtain res where r: "Merge content base existing \<lparr>ds_when = c_when c,
      ds_last = meta_last (fh_prev s1), ds_kind = ''merge'', ds_labels = None\<rparr> = Some res"
    "inv (fh_vol s2)" "l = (mr_outcome res \<noteq> MergeUnresolved)"
    "held api (fh_vol s2) p = Some (if l then mr_content res else existing)"
    "sv_write sv2 = sv_write (sv1\<lparr>sv_write := False\<rparr>)"
    by (rule saveMerge_ok [OF _ assms(2,4) _ sm]) (use assms(1,5) s1 in simp_all)
  have v: "fh_vol t = fh_vol s2" using same_ctxD [OF same_ctx_calls(3) rec] by simp
  have "merge_settled l sv'"
    using settled_record [of "sv2\<lparr>sv_landed := l\<rparr>"] rec r(5) unfolding yields_def by fastforce
  then show ?thesis using that [OF r(1) [unfolded s1(2)]] r(2-4) v by simp
qed

lemma merge_save:
  fixes content :: bytes and p0 :: string
  defines "p \<equiv> canonOutPath p0"
  defines "rp \<equiv> relative (c_folder c) p"
  assumes "inv (fh_vol s)" and "\<not> ct_Dryrun (c_control c)" and "Duplicate (c_control c)"
    and "held api (fh_vol s) p = Some existing" and "\<not> str_contains existing protectMarker"
    and "existing \<noteq> content"
    and "held api (fh_vol s) (canonOutPath (path_join [duplicateFolder c, rp])) = Some base"
    and "base = existing \<or> \<not> hasFingerprint (priorFingerprints (fh_prev s) rp) (fingerprint c existing)"
    and "merge_only (modesFor c isText)"
    and "key (duplicateFolder c @ ''/'' @ rp) \<noteq> key p"
    and run: "saveAs c p0 content whence tagged 0 isText s = (s', Inr ())"
  shows "\<exists>res. Merge content base existing \<lparr>ds_when = c_when c,
      ds_last = meta_last (fh_prev s), ds_kind = ''merge'', ds_labels = None\<rparr> = Some res \<and>
    held api (fh_vol s') p = Some (if mr_outcome res = MergeUnresolved then existing else mr_content res)"
proof -
  let ?m = "modesFor c isText"
  have p: "canonOutPath p = p" by (simp add: p_def)
  have there: "api_Exists api (fh_vol s) p" using held_exists [of "fh_vol s" p] assms(6) by simp
  obtain s2 where s2: "fh_vol s2 = fh_vol s" "fh_prev s2 = fh_prev s"
    and body: "bnd (with_existing c p whence tagged content 0 ?m existing) (with_outcome c p whence tagged content 0 ?m) s2 = (s', Inr ())"
    by (cases rule: saveAs_there [OF there [unfolded p_def] run, folded p_def]) (use assms(6) in auto)
  from bnd_ok [OF body] obtain sv s3 where ex: "with_existing c p whence tagged content 0 ?m existing s2 = (s3, Inr sv)"
    and out: "with_outcome c p whence tagged content 0 ?m sv s3 = (s', Inr ())" by blast
  have modes: "\<not> mb_preserve ?m" "\<not> mb_present ?m" "\<not> mb_diff ?m" "mb_merge ?m"
    using assms(11) by (simp_all add: merge_only_def)
  have pre: "save_preserve c d w q ?m sv = ret sv" for d w q sv
    using modes by (simp add: save_preserve_def)
  have pres: "save_present c d w q content ?m sv = ret (if mb_write ?m \<and> \<not> me_Protect (sv_meta sv)
      then (because ''write-0'' sv)\<lparr>sv_write := True\<rparr> else sv)" for d w q sv
    using modes by (simp add: save_present_def)
  obtain sv0 dtag where "save_merge c dtag whence p (relative (c_folder c) p) content existing 0 ?m sv0 s2 = (s3, Inr sv)" "\<not> sv_unchanged sv0"
    using ex assms(7,8) unfolding with_existing_def pre pres Let_def bnd_simps
    by (simp only: modes if_True if_False not_False_eq_True simp_thms)
      (erule that, simp add: because_def)
  then obtain res where res: "Merge content base existing \<lparr>ds_when = c_when c,
      ds_last = meta_last (fh_prev s), ds_kind = ''merge'', ds_labels = None\<rparr> = Some res"
    "inv (fh_vol s3)" "merge_settled (mr_outcome res \<noteq> MergeUnresolved) sv"
    "held api (fh_vol s3) p = Some (if mr_outcome res = MergeUnresolved then existing else mr_content res)"
    using save_merge_ok [of s2 p existing rp base ?m sv0 dtag whence content s3 sv] assms(3-6,9-11) s2 p
    by (auto simp: rp_def)
  have "keeps (kept {key (duplicateFolder c @ ''/'' @ rp)}) (with_outcome c p whence tagged content 0 ?m sv)"
    unfolding with_outcome_def Let_def settled_write [OF res(3)] bnd_simps rp_def
    by (intro kept_bnd kept_save_duplicate kept_quiet [OF same_vol_loads(5)])
  from keepsD [OF this out] res(2)
  have "spares api key {key (duplicateFolder c @ ''/'' @ rp)} (fh_vol s3) (fh_vol s')" by (simp add: kept_def)
  then show ?thesis using res(1,4) assms(12) by (metis insertE empty_iff sparesD)
qed

end

end
