(* ===== verification/FhTarget.thy ===== *)
theory FhTarget
  imports FhMerge
begin

text \<open>
  What a save may leave in its target, as a list of at most two texts: the generated content and,
  depending on the modes, its diff against the file that was there or its merge with that file over
  the recorded baseline. A save is followed from the state it starts in: what it reads before its
  first write to the target (the log, the file, the baseline) is what was there at the start.
\<close>

definition save_texts ::
  "'f Cfg \<Rightarrow> modeBits \<Rightarrow> int \<Rightarrow> bytes \<Rightarrow> bytes \<Rightarrow> bytes option \<Rightarrow> bytes list" where
  "save_texts c m prev content existing base =
     (let spec = (\<lambda>kind. \<lparr>ds_when = c_when c, ds_last = prev, ds_kind = kind, ds_labels = None\<rparr>)
      in content #
        (if mb_diff m then
           (case Diff content existing (spec ''diff'') of None \<Rightarrow> [] | Some d \<Rightarrow> [dr_content d])
         else if mb_merge m then
           (case base of
              None \<Rightarrow> []
            | Some b \<Rightarrow> (case Merge content b existing (spec ''merge'') of None \<Rightarrow> [] | Some r \<Rightarrow> [mr_content r]))
         else []))"

text \<open>Where the baseline of a file is read.\<close>

definition baseline_at :: "'f Cfg \<Rightarrow> string \<Rightarrow> string" where
  "baseline_at c p = canonOutPath (path_join [duplicateFolder c, relative (c_folder c) p])"

context fh_run
begin

definition at_start :: "bool \<Rightarrow> int \<Rightarrow> string \<Rightarrow> bytes option \<Rightarrow> 'f Fh \<Rightarrow> bool" where
  "at_start need prev d base s = (inv (fh_vol s) \<and> meta_last (fh_prev s) = prev \<and> (need \<longrightarrow> held api (fh_vol s) d = base))"

text \<open>\<open>stays\<close>: the start is still what it was; \<open>after\<close>: from there the target is whole.\<close>

definition stays :: "('f Fh \<Rightarrow> bool) \<Rightarrow> string \<Rightarrow> bytes set \<Rightarrow> 'f Fh \<Rightarrow> 'f Fh \<Rightarrow> bool" where
  "stays P q B s s' = (P s \<longrightarrow> P s' \<and> target q B s s')"

definition after :: "('f Fh \<Rightarrow> bool) \<Rightarrow> string \<Rightarrow> bytes set \<Rightarrow> 'f Fh \<Rightarrow> 'f Fh \<Rightarrow> bool" where
  "after P q B s s' = (P s \<longrightarrow> target q B s s')"

lemma target_refl [simp]: "target q B s s"
  by (simp add: target_def)

lemma target_trans: "target q B s t \<Longrightarrow> target q B t u \<Longrightarrow> target q B s u"
  using order_target by (auto simp: order_rel_def)

lemma order_stays [simp]: "order_rel (stays P q B)"
  unfolding order_rel_def stays_def using target_trans by auto

lemma after_target: "keeps (target q B) m \<Longrightarrow> keeps (after P q B) m"
  by (simp add: keeps_def after_def)

lemma after_bnd:
  assumes "keeps (stays P q B) m" and "\<And>x. keeps (after P q B) (f x)"
  shows "keeps (after P q B) (bnd m f)"
proof (rule keepsI)
  fix s s' r
  assume "bnd m f s = (s', r)"
  then show "after P q B s s'"
  proof (cases rule: bnd_cases)
    case (error e)
    then show ?thesis using keepsD [OF assms(1) error(1)] by (simp add: stays_def after_def)
  next
    case (step x t)
    then show ?thesis using keepsD [OF assms(1) step(1)] keepsD [OF assms(2) step(2)] target_trans [of q B s t s']
      by (simp add: stays_def after_def)
  qed
qed

lemma after_then:
  assumes "keeps (after P q B) m" and "\<And>x. keeps (target q B) (f x)"
  shows "keeps (after P q B) (bnd m f)"
proof (rule keepsI)
  fix s s' r
  assume "bnd m f s = (s', r)"
  then show "after P q B s s'"
  proof (cases rule: bnd_cases)
    case (error e)
    then show ?thesis using keepsD [OF assms(1) error(1)] by simp
  next
    case (step x t)
    then show ?thesis using keepsD [OF assms(1) step(1)] keepsD [OF assms(2) step(2)] target_trans [of q B s t s']
      by (simp add: after_def)
  qed
qed

lemma after_gets:
  assumes "\<And>s. P s \<Longrightarrow> keeps (target q B) (g (f s))"
  shows "keeps (after P q B) (bnd (gets f) g)"
  using assms by (simp add: keeps_def after_def bnd_def gets_def)

lemma stays_kept:
  assumes "keeps (kept K) m" and "keeps same_prev m" and "key q \<notin> K" and "key d \<notin> K" and "need \<longrightarrow> base \<noteq> None"
  shows "keeps (stays (at_start need prev d base) q B) m"
proof (rule keepsI)
  fix s s' r
  assume m: "m s = (s', r)"
  from keepsD [OF assms(1) m] keepsD [OF assms(2) m] keepsD [OF target_kept [OF assms(1,3), of B] m] assms(4,5)
  show "stays (at_start need prev d base) q B s s'"
    by (auto simp: stays_def at_start_def kept_def same_prev_def spares_def)
qed

lemma stays_ctx: "keeps same_ctx m \<Longrightarrow> keeps (stays (at_start need prev d base) q B) m"
  unfolding keeps_def same_ctx_def stays_def at_start_def target_def by fastforce

lemmas target_steps = keeps_bnd [OF order_target] keeps_seq [OF order_target] keeps_ret [OF order_target]
  keeps_fail [OF order_target] keeps_gets [OF order_target] keeps_if keeps_Let keeps_prod keeps_option

lemmas target_calls = target_quiet [OF same_vol_prims(4)] target_quiet [OF same_vol_calls(2)]
  target_quiet [OF same_vol_calls(3)] target_quiet [OF same_vol_modify(1)]

lemma target_mode: "keeps (target q B) (apply_mode c p mode sv)"
  by (rule target_kept [OF kept_apply_mode]) simp

lemma target_write: "canonOutPath p = p \<Longrightarrow> b \<in> B \<Longrightarrow> keeps (target p B) (saveFile c p b mode w)"
  using target_saveFile [of b B p] by simp

lemma after_diff:
  assumes p: "canonOutPath p = p"
    and out: "\<And>d. Diff content existing \<lparr>ds_when = c_when c, ds_last = prev, ds_kind = ''diff'', ds_labels = None\<rparr> = Some d
        \<Longrightarrow> dr_content d \<in> B"
  shows "keeps (after (at_start need prev d base) p B) (save_diff c dtag whence p content existing mode sv)"
proof -
  have *: "keeps (target p B) (save_diff c dtag whence p content existing mode sv)" if "sv_unchanged sv"
    using that unfolding save_diff_def by (simp add: because_def) (intro target_steps target_calls target_mode)
  show ?thesis
  proof (cases "sv_unchanged sv")
    case False
    then show ?thesis
      unfolding save_diff_def Let_def
      by (simp add: because_def)
        (intro after_gets target_steps target_calls target_write [OF p] out; simp add: at_start_def)
  qed (rule after_target, rule *)
qed

lemma after_saveMerge:
  assumes p: "canonOutPath p = p" and "content \<in> B"
    and out: "\<And>r. \<not> earlier \<Longrightarrow> Merge content baseline existing \<lparr>ds_when = c_when c, ds_last = prev, ds_kind = ''merge'', ds_labels = None\<rparr> = Some r
        \<Longrightarrow> mr_content r \<in> B"
  shows "keeps (after (at_start need prev d base) p B) (saveMerge c p content existing baseline earlier whence mode cf sv)"
  unfolding saveMerge_def Let_def
  by (intro after_gets target_steps target_calls target_mode target_write [OF p])
    (auto simp: at_start_def assms(2) intro: out split: if_splits)

lemma after_baseline:
  assumes "need" and d: "d = canonOutPath (path_join [duplicateFolder c, rp])"
    and "\<And>sv b. b = None \<or> b = base \<Longrightarrow> keeps (after (at_start need prev d base) p B) (f (sv, b))"
  shows "keeps (after (at_start need prev d base) p B) (bnd (load_baseline c rp sv) f)"
proof (rule keepsI)
  let ?P = "at_start need prev d base"
  have q: "keeps (stays ?P p B) (load_baseline c rp sv)"
    by (rule stays_ctx) (rule same_ctx_baseline)
  fix s s' r
  assume "bnd (load_baseline c rp sv) f s = (s', r)"
  then show "after ?P p B s s'"
  proof (cases rule: bnd_cases)
    case (error e)
    then show ?thesis using keepsD [OF q error(1)] by (simp add: stays_def after_def)
  next
    case (step x t)
    obtain sv' b where x: "x = (sv', b)" by (cases x)
    have b: "b = None \<or> b = base" if "?P s"
    proof (cases "Duplicate (c_control c)")
      case True
      from load_baseline_ok [OF True step(1) [unfolded x]] that assms(1) show ?thesis by (auto simp: at_start_def d)
    next
      case False
      then show ?thesis using step(1) x by (simp add: load_baseline_def ret_def)
    qed
    show ?thesis
      using keepsD [OF q step(1)] keepsD [OF assms(3) step(2) [unfolded x]] b target_trans [of p B s t s']
      by (auto simp: stays_def after_def)
  qed
qed

lemma after_merge:
  fixes p rp :: string
  defines "d \<equiv> canonOutPath (path_join [duplicateFolder c, rp])"
  assumes "need" and p: "canonOutPath p = p" and "content \<in> B"
    and out: "\<And>b r. base = Some b \<Longrightarrow> Merge content b existing \<lparr>ds_when = c_when c, ds_last = prev, ds_kind = ''merge'', ds_labels = None\<rparr> = Some r
        \<Longrightarrow> mr_content r \<in> B"
  shows "keeps (after (at_start need prev d base) p B) (save_merge c dtag whence p rp content existing mode modes sv)"
proof -
  have m: "keeps (after (at_start need prev d base) p B)
      (saveMerge c p content existing (case b of Some b \<Rightarrow> b | None \<Rightarrow> []) earlier whence mode cf sv)"
    if "b = None \<or> b = base" and "b \<noteq> None \<or> earlier" for b earlier cf sv
    by (rule after_saveMerge [OF p assms(4)]) (use that out in auto)
  have d: "d = canonOutPath (path_join [duplicateFolder c, rp])" by (simp add: d_def)
  show ?thesis
    unfolding save_merge_def Let_def
    by (intro keeps_if after_baseline [OF assms(2) d] keeps_prod after_bnd [OF keeps_gets [OF order_stays]]
        after_then [OF m] after_target target_steps target_calls target_mode) auto
qed

lemma target_save:
  fixes content :: bytes and p0 :: string and isText :: bool
  defines "p \<equiv> canonOutPath p0" and "m \<equiv> modesFor c isText"
  assumes "inv (fh_vol s)" and "held api (fh_vol s) p = Some b" and side: "key p \<notin> key ` sidecars c p"
    and "key (baseline_at c p) \<notin> {key (canonOutPath (annotatedPath p ''old'')), key (canonOutPath (annotatedPath p ''new''))}"
    and "mb_merge m \<and> \<not> mb_diff m \<and> (mb_preserve m \<or> mb_present m) \<longrightarrow> held api (fh_vol s) (baseline_at c p) \<noteq> None"
    and run: "saveAs c p0 content whence tagged mode isText s = (s', r)"
  shows "target p (set (save_texts c m (meta_last (fh_prev s)) content b (held api (fh_vol s) (baseline_at c p)))) s s'"
proof -
  define B where "B = set (save_texts c m (meta_last (fh_prev s)) content b (held api (fh_vol s) (baseline_at c p)))"
  define P where "P = at_start (mb_merge m \<and> \<not> mb_diff m) (meta_last (fh_prev s)) (baseline_at c p) (held api (fh_vol s) (baseline_at c p))"
  have p: "canonOutPath p = p" by (simp add: p_def)
  have content: "content \<in> B" by (simp add: B_def save_texts_def Let_def)
  have start: "P s2" if "fh_vol s2 = fh_vol s" "fh_prev s2 = fh_prev s" for s2
    using that assms(3) by (simp add: P_def at_start_def)
  have pre: "keeps (stays P p B) (save_preserve c dtag whence p m sv)" for dtag sv
  proof (cases "mb_preserve m")
    case True
    have "keeps (kept {key (canonOutPath (annotatedPath p ''old''))}) (save_preserve c dtag whence p m sv)"
      unfolding save_preserve_def
      by (intro keeps_rules order_kept kept_copyFile kept_quiet [OF same_vol_prims(4)] kept_quiet [OF same_vol_calls(2)])
    from stays_kept [OF this same_prev_modes(1)] show ?thesis
      using True side assms(6,7) unfolding P_def by (auto simp: sidecars_def)
  qed (simp add: save_preserve_def keeps_ret)
  have pres: "keeps (stays P p B) (save_present c dtag whence p content m sv)" for dtag sv
  proof (cases "mb_present m")
    case True
    have "keeps (kept {key (canonOutPath (annotatedPath p ''new''))}) (save_present c dtag whence p content m sv)"
      unfolding save_present_def
      by (intro keeps_rules order_kept kept_saveFile kept_quiet [OF same_vol_prims(4)] kept_quiet [OF same_vol_calls(2)])
    from stays_kept [OF this same_prev_modes(2)] show ?thesis
      using True side assms(6,7) unfolding P_def by (auto simp: sidecars_def)
  qed (simp add: save_present_def keeps_ret)
  have df: "keeps (after P p B) (save_diff c dtag whence p content b mode sv)" if "mb_diff m" for dtag sv
    unfolding P_def by (rule after_diff [OF p]) (use that in \<open>simp add: B_def save_texts_def Let_def\<close>)
  have mg: "keeps (after P p B) (save_merge c dtag whence p (relative (c_folder c) p) content b mode m sv)"
    if "\<not> mb_diff m" "mb_merge m" for dtag sv
    unfolding P_def baseline_at_def
    by (rule after_merge [OF _ p content]) (use that in \<open>simp_all add: B_def save_texts_def baseline_at_def Let_def\<close>)
  have ex: "keeps (after P p B) (with_existing c p whence tagged content mode m b)"
    unfolding with_existing_def Let_def
    by (intro after_bnd pre pres keeps_if after_target [OF keeps_ret [OF order_target]] df mg)
  have out: "keeps (target p B) (with_outcome c p whence tagged content mode m sv)" for sv
    unfolding with_outcome_def save_write_def Let_def
    by (intro target_steps target_calls target_mode target_write [OF p content]
        target_kept [OF kept_save_duplicate] target_quiet [OF same_vol_loads(5)] target_quiet [OF same_vol_calls(3)])
      (use side in \<open>auto simp: sidecars_def\<close>)
  have there: "api_Exists api (fh_vol s) p" using held_exists [of "fh_vol s" p] assms(4) by simp
  show ?thesis
  proof (cases rule: saveAs_there [OF there [unfolded p_def] run, folded p_def m_def, case_names stopped loaded])
    case stopped
    then show ?thesis by (simp add: target_def)
  next
    case (loaded b' s2)
    then have "b' = b" using assms(4) by simp
    from keepsD [OF after_then [OF ex out] loaded(4) [unfolded this]] start [OF loaded(2,3)] loaded(2)
    show ?thesis unfolding B_def [symmetric] by (simp add: after_def target_def)
  qed
qed

end

end
