(* ===== verification/MemFS.thy ===== *)
theory MemFS
  imports FsApi OutPath JsText "HOL-Library.AList"
begin

text \<open>
  The in-memory filesystem of \<^verbatim>\<open>go/fs.go\<close>. A volume is its three maps, \<^verbatim>\<open>files\<close>, \<^verbatim>\<open>times\<close> and
  \<^verbatim>\<open>dirs\<close>, as association lists and a list of keys; ranging over one of Go's maps visits the list in
  order, and what may not depend on that order is shown not to. The lock makes each operation one
  step. The process working directory and the wall clock are arguments.
\<close>

unbundle bit_operations_syntax

record MemFS =
  mem_files :: "(string \<times> bytes) list"
  mem_times :: "(string \<times> int) list"
  mem_dirs :: "string list"

definition NewMemFS :: MemFS where
  "NewMemFS = \<lparr>mem_files = [], mem_times = [], mem_dirs = []\<rparr>"

definition memFileMode :: FileMode where "memFileMode = 0x1B6"
definition memDirMode :: FileMode where "memDirMode = 0x1FF"

section \<open>Keys\<close>

definition mem_step :: "string list \<Rightarrow> string \<Rightarrow> string list" where
  "mem_step parts part =
     (if part = [] \<or> part = DOT then parts
      else if part = DOTDOT then butlast parts
      else parts @ [part])"

text \<open>\<^verbatim>\<open>memCwd\<close>; None is a working directory that cannot be read.\<close>

definition memCwd :: "string option \<Rightarrow> string" where
  "memCwd wd = (case wd of None \<Rightarrow> ''/'' | Some d \<Rightarrow> fwd d)"

definition memAbs :: "string option \<Rightarrow> string \<Rightarrow> string" where
  "memAbs wd p =
     (let s = fwd p
      in if \<not> isDriveKey s \<and> \<not> has_prefix s ''/'' then memCwd wd @ ''/'' @ s else s)"

definition memKey :: "string \<Rightarrow> string" where
  "memKey s =
     (if isDriveKey s then take 2 s else []) @ ''/'' @
     join_with ''/'' (foldl mem_step [] (segments (if isDriveKey s then drop 2 s else s)))"

text \<open>\<^verbatim>\<open>memClean\<close>: an absolute form, then the drive apart and the segments resolved.\<close>

definition memClean :: "string option \<Rightarrow> string \<Rightarrow> string" where
  "memClean wd p = memKey (memAbs wd p)"

definition memParent :: "string \<Rightarrow> string" where
  "memParent p = (case cut_last SLASH p of None \<Rightarrow> [] | Some (l, _) \<Rightarrow> l)"

section \<open>Operations\<close>

text \<open>\<^verbatim>\<open>markDirsLocked\<close>: the loop over the parts carries \<open>cur\<close>, which is None before the first.\<close>

fun mark_loop :: "bool \<Rightarrow> string option \<Rightarrow> string list \<Rightarrow> string list \<Rightarrow> string list" where
  "mark_loop isAbs cur [] ds = ds"
| "mark_loop isAbs cur (part # parts) ds =
     (let cur' = (case cur of None \<Rightarrow> (if isAbs then ''/'' @ part else part) | Some c \<Rightarrow> c @ ''/'' @ part)
      in mark_loop isAbs (Some cur') parts (List.insert cur' ds))"

definition markDirsLocked :: "string \<Rightarrow> MemFS \<Rightarrow> MemFS" where
  "markDirsLocked p m =
     (if p = [] \<or> p = ''/'' then m
      else let inner = trim_left SLASH p
           in if inner = [] then m
              else m\<lparr>mem_dirs := mark_loop (has_prefix p ''/'') None (segments inner) (mem_dirs m)\<rparr>)"

text \<open>The implicit creation of the parents of a new key.\<close>

definition markParents :: "string \<Rightarrow> MemFS \<Rightarrow> MemFS" where
  "markParents cp m =
     (case cut_last SLASH cp of
        Some (l, _) \<Rightarrow> (if l \<noteq> [] then markDirsLocked l m else m)
      | None \<Rightarrow> m)"

definition writeLocked :: "int \<Rightarrow> string \<Rightarrow> bytes \<Rightarrow> MemFS \<Rightarrow> MemFS" where
  "writeLocked now cp data m =
     markParents cp
       (m\<lparr>mem_files := AList.update cp data (mem_files m),
          mem_times := AList.update cp now (mem_times m)\<rparr>)"

definition memReadFile :: "string option \<Rightarrow> MemFS \<Rightarrow> string \<Rightarrow> fs_error + bytes" where
  "memReadFile wd m p =
     (case map_of (mem_files m) (memClean wd p) of
        None \<Rightarrow> Inl (PathError ''open'' p FsNotExist)
      | Some b \<Rightarrow> Inr b)"

definition memWriteFile :: "string option \<Rightarrow> int \<Rightarrow> MemFS \<Rightarrow> string \<Rightarrow> bytes \<Rightarrow> MemFS \<times> fs_error option" where
  "memWriteFile wd now m p data = (writeLocked now (memClean wd p) data m, None)"

definition memWriteFileExcl :: "string option \<Rightarrow> int \<Rightarrow> MemFS \<Rightarrow> string \<Rightarrow> bytes \<Rightarrow> MemFS \<times> fs_error option" where
  "memWriteFileExcl wd now m p data =
     (let cp = memClean wd p
      in if map_of (mem_files m) cp \<noteq> None then (m, Some (PathError ''open'' p FsExist))
         else if cp \<in> set (mem_dirs m) then (m, Some (PathError ''open'' p FsExist))
         else (writeLocked now cp data m, None))"

definition memExists :: "string option \<Rightarrow> MemFS \<Rightarrow> string \<Rightarrow> bool" where
  "memExists wd m p =
     (let cp = memClean wd p
      in cp = ''/'' \<or> map_of (mem_files m) cp \<noteq> None \<or> cp \<in> set (mem_dirs m))"

definition memStat :: "string option \<Rightarrow> MemFS \<Rightarrow> string \<Rightarrow> fs_error + FileInfo" where
  "memStat wd m p =
     (let cp = memClean wd p
      in if cp = ''/'' then
           Inr \<lparr>fi_Name = [], fi_Size = 0, fi_Mode = ModeDir OR memDirMode, fi_ModTime = 0, fi_IsDir = True\<rparr>
         else
           (case map_of (mem_files m) cp of
              Some b \<Rightarrow>
                Inr \<lparr>fi_Name = pathBase cp, fi_Size = length b, fi_Mode = memFileMode,
                  fi_ModTime = (case map_of (mem_times m) cp of None \<Rightarrow> 0 | Some t \<Rightarrow> t), fi_IsDir = False\<rparr>
            | None \<Rightarrow>
                (if cp \<in> set (mem_dirs m) then
                   Inr \<lparr>fi_Name = pathBase cp, fi_Size = 0, fi_Mode = ModeDir OR memDirMode,
                     fi_ModTime = 0, fi_IsDir = True\<rparr>
                 else Inl (PathError ''stat'' p FsNotExist))))"

definition memMkdirAll :: "string option \<Rightarrow> MemFS \<Rightarrow> string \<Rightarrow> MemFS \<times> fs_error option" where
  "memMkdirAll wd m p =
     (let cp = memClean wd p in if cp = ''/'' then (m, None) else (markDirsLocked cp m, None))"

text \<open>\<^verbatim>\<open>ReadDir\<close> collects the children into \<open>seen\<close>, the files first; a name already seen keeps its
  entry.\<close>

definition see_entry :: "string \<Rightarrow> bool \<Rightarrow> DirEntry list \<Rightarrow> string \<Rightarrow> DirEntry list" where
  "see_entry pre isFile seen k =
     (if \<not> has_prefix k pre then seen
      else let rest = drop (length pre) k
           in if rest = [] then seen
              else let name = takeWhile (\<lambda>c. c \<noteq> SLASH) rest;
                       nested = SLASH \<in> set rest
                   in if name \<in> de_Name ` set seen then seen
                      else seen @ [\<lparr>de_Name = name, de_IsDir = (if isFile then nested else True)\<rparr>])"

definition memReadDir :: "string option \<Rightarrow> MemFS \<Rightarrow> string \<Rightarrow> fs_error + DirEntry list" where
  "memReadDir wd m p =
     (let cp = memClean wd p
      in if cp \<noteq> ''/'' \<and> cp \<notin> set (mem_dirs m) then Inl (PathError ''readdir'' p FsNotExist)
         else let pre = (if cp \<noteq> ''/'' then cp @ ''/'' else cp);
                  seen = foldl (see_entry pre True) [] (map fst (mem_files m));
                  seen' = foldl (see_entry pre False) seen (mem_dirs m)
              in Inr (sort_js_by de_Name seen'))"

definition memRemove :: "string option \<Rightarrow> MemFS \<Rightarrow> string \<Rightarrow> MemFS \<times> fs_error option" where
  "memRemove wd m p =
     (let cp = memClean wd p
      in if map_of (mem_files m) cp \<noteq> None then
           (m\<lparr>mem_files := AList.delete cp (mem_files m), mem_times := AList.delete cp (mem_times m)\<rparr>, None)
         else if cp \<in> set (mem_dirs m) then
           (let pre = cp @ ''/''
            in if (\<exists>f \<in> set (map fst (mem_files m)). has_prefix f pre) then
                 (m, Some (PathError ''remove'' p (FsOther ''directory not empty'')))
               else if (\<exists>d \<in> set (mem_dirs m). d \<noteq> cp \<and> has_prefix d pre) then
                 (m, Some (PathError ''remove'' p (FsOther ''directory not empty'')))
               else (m\<lparr>mem_dirs := removeAll cp (mem_dirs m)\<rparr>, None))
         else (m, Some (PathError ''remove'' p FsNotExist)))"

definition memRename :: "string option \<Rightarrow> MemFS \<Rightarrow> string \<Rightarrow> string \<Rightarrow> MemFS \<times> fs_error option" where
  "memRename wd m oldpath newpath =
     (let src = memClean wd oldpath; n = memClean wd newpath
      in (case map_of (mem_files m) src of
            None \<Rightarrow> (m, Some (PathError ''rename'' oldpath FsNotExist))
          | Some b \<Rightarrow>
              let fs = AList.delete src (mem_files m);
                  t = (case map_of (mem_times m) src of None \<Rightarrow> 0 | Some t \<Rightarrow> t);
                  ts = AList.delete src (mem_times m)
              in (markParents n
                    (m\<lparr>mem_files := AList.update n b fs, mem_times := AList.update n t ts\<rparr>), None)))"

text \<open>\<^verbatim>\<open>Vol\<close>: every file with its content, and every empty directory with none.\<close>

definition memVol :: "MemFS \<Rightarrow> (string \<times> bytes option) list" where
  "memVol m =
     (let parents = filter (\<lambda>d. d \<noteq> []) (map memParent (map fst (mem_files m) @ mem_dirs m))
      in map (\<lambda>(k, b). (k, Some b)) (mem_files m) @
         map (\<lambda>k. (k, None)) (filter (\<lambda>k. k \<noteq> [] \<and> k \<noteq> ''/'' \<and> k \<notin> set parents) (mem_dirs m)))"

text \<open>\<^verbatim>\<open>newSeededMemFS\<close> of \<^verbatim>\<open>go/jostraca.go\<close>: an absent body is an empty directory.\<close>

definition newSeededMemFS :: "string option \<Rightarrow> int \<Rightarrow> (string \<times> bytes option) list \<Rightarrow> MemFS" where
  "newSeededMemFS wd now vol =
     foldl (\<lambda>m (path, body). case body of
        None \<Rightarrow> fst (memMkdirAll wd m path)
      | Some b \<Rightarrow> fst (memWriteFile wd now m path b)) NewMemFS vol"

end
