(* ===== verification/MemFSInv.thy ===== *)
theory MemFSInv
  imports MemFS
begin

text \<open>
  The invariant of the in-memory volume: no key is recorded twice, every file has a time, and the
  parent of every file and directory is a recorded directory. Every operation keeps it, and the
  volume meets the provider contract \<open>fs_provider\<close>, with \<open>memClean\<close> as the identity of a path.
\<close>

definition key_ok :: "string \<Rightarrow> bool" where
  "key_ok k = (\<not> has_prefix k ''//'')"

definition closed_keys :: "string set \<Rightarrow> string list \<Rightarrow> bool" where
  "closed_keys ks ds =
     (\<forall>k \<in> ks. key_ok k \<and> (memParent k \<noteq> [] \<longrightarrow> memParent k \<in> set ds))"

definition mem_wf :: "MemFS \<Rightarrow> bool" where
  "mem_wf m =
     (distinct (map fst (mem_files m)) \<and> distinct (mem_dirs m) \<and>
      dom (map_of (mem_times m)) = dom (map_of (mem_files m)) \<and>
      closed_keys (fst ` set (mem_files m) \<union> set (mem_dirs m)) (mem_dirs m))"

section \<open>Keys\<close>

lemma mem_step_plain:
  "\<forall>s \<in> set parts. plain_seg s \<Longrightarrow> SLASH \<notin> set part \<Longrightarrow> \<forall>s \<in> set (mem_step parts part). plain_seg s"
  by (auto simp: mem_step_def plain_seg_def dest: in_set_butlastD)

lemma mem_foldl_plain:
  "\<forall>s \<in> set parts. plain_seg s \<Longrightarrow> \<forall>w \<in> set segs. SLASH \<notin> set w \<Longrightarrow>
   \<forall>s \<in> set (foldl mem_step parts segs). plain_seg s"
proof (induction segs arbitrary: parts)
  case (Cons w segs)
  then show ?case using mem_step_plain [of parts w] by simp
qed simp

text \<open>A key is a drive or nothing, a slash, and plain segments.\<close>

lemma memClean_form:
  obtains d segs where "memClean wd p = d @ ''/'' @ join_with ''/'' segs" "\<forall>s \<in> set segs. plain_seg s"
    "d = [] \<or> (\<exists>c. isDriveLetter c \<and> d = [c, CHR '':''])"
proof -
  let ?s = "memAbs wd p"
  let ?segs = "foldl mem_step [] (segments (if isDriveKey ?s then drop 2 ?s else ?s))"
  have "\<forall>s \<in> set ?segs. plain_seg s"
    by (rule mem_foldl_plain) (auto dest: segments_no_slash)
  moreover have "(if isDriveKey ?s then take 2 ?s else []) = [] \<or>
      (\<exists>c. isDriveLetter c \<and> (if isDriveKey ?s then take 2 ?s else []) = [c, CHR '':''])"
    by (cases ?s rule: isDriveKey.cases) auto
  ultimately show ?thesis using that by (simp add: memClean_def memKey_def)
qed

lemma join_plain_head: "\<forall>s \<in> set segs. plain_seg s \<Longrightarrow> \<not> has_prefix (join_with ''/'' segs) ''/''"
  using join_not_rooted [OF norm_segs_plain [of segs False]]
  by (cases "segs = []") (auto simp: rooted_def)

lemma memClean_ok [simp]: "key_ok (memClean wd p)"
proof -
  obtain d segs where k: "memClean wd p = d @ ''/'' @ join_with ''/'' segs" "\<forall>s \<in> set segs. plain_seg s"
    "d = [] \<or> (\<exists>c. isDriveLetter c \<and> d = [c, CHR '':''])"
    by (rule memClean_form)
  then show ?thesis using join_plain_head [OF k(2)] by (auto simp: key_ok_def isDriveLetter_def)
qed

lemma key_ok_append: "key_ok (a @ b) \<Longrightarrow> key_ok a"
  by (auto simp: key_ok_def intro: has_prefix_appendI)

section \<open>Marking directories\<close>

lemma mark_loop_distinct: "distinct ds \<Longrightarrow> distinct (mark_loop a cur parts ds)"
  by (induction a cur parts ds rule: mark_loop.induct) (auto simp: Let_def)

lemma mark_loop_mono: "set ds \<subseteq> set (mark_loop a cur parts ds)"
  by (induction a cur parts ds rule: mark_loop.induct) (auto simp: Let_def)

text \<open>After the first part, each key added is one below the last.\<close>

lemma mark_loop_closed:
  assumes "c \<in> set ds" "closed_keys (K \<union> set ds) ds" "key_ok c" "c \<noteq> []" "c \<noteq> ''/''"
    and "\<forall>w \<in> set parts. SLASH \<notin> set w"
  shows "closed_keys (K \<union> set (mark_loop a (Some c) parts ds)) (mark_loop a (Some c) parts ds) \<and>
    c @ concat (map (\<lambda>w. ''/'' @ w) parts) \<in> set (mark_loop a (Some c) parts ds)"
  using assms
proof (induction parts arbitrary: c ds)
  case Nil
  then show ?case by simp
next
  case (Cons w parts)
  let ?c = "c @ ''/'' @ w" and ?d = "List.insert (c @ ''/'' @ w) ds"
  have "memParent ?c = c" using Cons.prems(6) by (simp add: memParent_def cut_last_append)
  moreover have ok: "key_ok ?c"
    using Cons.prems(3-5) by (cases c; cases "tl c") (auto simp: key_ok_def)
  ultimately have "closed_keys (K \<union> set ?d) ?d"
    using Cons.prems(1,2) by (auto simp: closed_keys_def)
  moreover have "?c \<noteq> ''/''" "?c \<in> set ?d" using Cons.prems(4) by (cases c) auto
  ultimately show ?case using Cons.IH [of ?c ?d] ok Cons.prems(6) by (simp add: Let_def)
qed

lemma join_concat: "join_with ''/'' (w # ws) = w @ concat (map (\<lambda>w. ''/'' @ w) ws)"
  by (induction ws arbitrary: w) auto

lemma markDirs_wf:
  assumes "closed_keys (K \<union> set (mem_dirs m)) (mem_dirs m)" and "key_ok p"
  defines "m' \<equiv> markDirsLocked p m"
  shows "closed_keys (K \<union> set (mem_dirs m')) (mem_dirs m')"
    and "p \<noteq> [] \<Longrightarrow> p \<noteq> ''/'' \<Longrightarrow> p \<in> set (mem_dirs m')"
    and "set (mem_dirs m) \<subseteq> set (mem_dirs m')"
    and "mem_files m' = mem_files m" "mem_times m' = mem_times m"
    and "distinct (mem_dirs m) \<Longrightarrow> distinct (mem_dirs m')"
proof -
  show "mem_files m' = mem_files m" "mem_times m' = mem_times m"
    "set (mem_dirs m) \<subseteq> set (mem_dirs m')" "distinct (mem_dirs m) \<Longrightarrow> distinct (mem_dirs m')"
    using mark_loop_mono mark_loop_distinct by (auto simp: m'_def markDirsLocked_def Let_def)
  have *: "closed_keys (K \<union> set (mem_dirs m')) (mem_dirs m') \<and> p \<in> set (mem_dirs m')"
    if p: "p \<noteq> []" "p \<noteq> ''/''"
  proof -
    define inner where "inner = trim_left SLASH p"
    have base: "p = (if has_prefix p ''/'' then ''/'' else []) @ inner" "inner \<noteq> []" "hd inner \<noteq> SLASH"
    proof -
      obtain c s where c: "p = c # s" using p(1) by (cases p) auto
      show "p = (if has_prefix p ''/'' then ''/'' else []) @ inner" "inner \<noteq> []" "hd inner \<noteq> SLASH"
        using c p(2) assms(2) by (auto simp: inner_def trim_left_def key_ok_def neq_Nil_conv dropWhile_eq_Cons_conv
            split: if_splits; cases s; auto)+
    qed
    obtain w ws where s: "segments inner = w # ws" by (meson segments_not_Nil list.exhaust)
    have parts: "\<forall>v \<in> set (w # ws). SLASH \<notin> set v" using s segments_no_slash by metis
    define c where "c = (if has_prefix p ''/'' then ''/'' @ w else w)"
    have inner: "inner = w @ concat (map (\<lambda>w. ''/'' @ w) ws)"
      using join_segments [of inner] s join_concat by simp
    then have w: "w \<noteq> []" using base(2,3) by (cases ws; cases w) auto
    have pc: "p = c @ concat (map (\<lambda>w. ''/'' @ w) ws)"
      using base(1) inner by (auto simp: c_def)
    have ds: "mem_dirs m' = mark_loop (has_prefix p ''/'') (Some c) ws (List.insert c (mem_dirs m))"
      using p base(2) s by (simp add: m'_def markDirsLocked_def inner_def c_def Let_def)
    have "memParent c = []"
      using parts cut_last_None [of SLASH w] by (auto simp: c_def memParent_def)
    moreover have "key_ok c" using assms(2) pc key_ok_append by metis
    ultimately have "closed_keys (K \<union> set (List.insert c (mem_dirs m))) (List.insert c (mem_dirs m))"
      using assms(1) by (auto simp: closed_keys_def)
    moreover have "c \<noteq> []" "c \<noteq> ''/''" using w parts by (auto simp: c_def)
    ultimately show ?thesis
      using mark_loop_closed [of c "List.insert c (mem_dirs m)" K ws "has_prefix p ''/''"] \<open>key_ok c\<close> parts
      unfolding ds pc [symmetric] by simp
  qed
  show "p \<noteq> [] \<Longrightarrow> p \<noteq> ''/'' \<Longrightarrow> p \<in> set (mem_dirs m')" using * by blast
  show "closed_keys (K \<union> set (mem_dirs m')) (mem_dirs m')"
    using * assms(1) by (cases "p = [] \<or> p = ''/''") (auto simp: m'_def markDirsLocked_def)
qed

section \<open>Every operation keeps the invariant\<close>

lemma markParents_same [simp]:
  "mem_files (markParents k m) = mem_files m" "mem_times (markParents k m) = mem_times m"
  by (auto simp: markParents_def markDirsLocked_def Let_def split: option.splits)

lemma markParents_mono: "set (mem_dirs m) \<subseteq> set (mem_dirs (markParents k m))"
  using mark_loop_mono by (auto simp: markParents_def markDirsLocked_def Let_def split: option.splits)

lemma markParents_wf:
  assumes "closed_keys (K \<union> set (mem_dirs m)) (mem_dirs m)" and "key_ok k" and "distinct (mem_dirs m)"
  shows "closed_keys (insert k K \<union> set (mem_dirs (markParents k m))) (mem_dirs (markParents k m))"
    and "distinct (mem_dirs (markParents k m))"
proof -
  have "closed_keys (insert k K \<union> set (mem_dirs (markParents k m))) (mem_dirs (markParents k m)) \<and>
    distinct (mem_dirs (markParents k m))"
  proof (cases "memParent k = []")
    case True
    then have "markParents k m = m" by (auto simp: markParents_def memParent_def split: option.splits)
    then show ?thesis using True assms by (auto simp: closed_keys_def)
  next
    case False
    then obtain l r where c: "cut_last SLASH k = Some (l, r)" "l \<noteq> []" "memParent k = l"
      by (auto simp: memParent_def split: option.splits)
    then have m: "markParents k m = markDirsLocked l m" by (simp add: markParents_def)
    have k: "k = l @ SLASH # r" using cut_last_Some [OF c(1)] by simp
    then have l: "key_ok l" "l \<noteq> ''/''" using assms(2) key_ok_append by (auto simp: key_ok_def)
    show ?thesis
      using markDirs_wf [OF assms(1) l(1)] c l(2) assms(2,3) unfolding m
      by (auto simp: closed_keys_def)
  qed
  then show "closed_keys (insert k K \<union> set (mem_dirs (markParents k m))) (mem_dirs (markParents k m))"
    "distinct (mem_dirs (markParents k m))" by blast+
qed

lemma closed_keys_Un: "closed_keys (A \<union> B) ds \<longleftrightarrow> closed_keys A ds \<and> closed_keys B ds"
  by (auto simp: closed_keys_def)

lemma writeLocked_wf:
  assumes "mem_wf m" and "key_ok k"
  shows "mem_wf (writeLocked now k b m)"
proof -
  let ?m = "m\<lparr>mem_files := AList.update k b (mem_files m), mem_times := AList.update k now (mem_times m)\<rparr>"
  have "closed_keys (fst ` set (mem_files m) \<union> set (mem_dirs ?m)) (mem_dirs ?m)" "distinct (mem_dirs ?m)"
    using assms(1) by (simp_all add: mem_wf_def)
  from markParents_wf [OF this(1) assms(2) this(2)] show ?thesis
    using assms(1) by (auto simp: mem_wf_def writeLocked_def AList.distinct_update update_conv' dom_update)
qed

lemma memMkdirAll_wf: "mem_wf m \<Longrightarrow> mem_wf (fst (memMkdirAll wd m p))"
  using markDirs_wf [of "fst ` set (mem_files m)" m "memClean wd p"]
  by (auto simp: memMkdirAll_def mem_wf_def Let_def)

lemma delete_keys: "fst ` set (AList.delete k al) = fst ` set al - {k}"
  by (metis AList.delete_keys image_set set_removeAll list.set_map)

lemma memRemove_wf: "mem_wf m \<Longrightarrow> mem_wf (fst (memRemove wd m p))"
proof -
  assume wf: "mem_wf m"
  let ?c = "memClean wd p"
  have rm: "mem_wf (m\<lparr>mem_dirs := removeAll ?c (mem_dirs m)\<rparr>)"
    if empty: "\<forall>k \<in> fst ` set (mem_files m) \<union> (set (mem_dirs m) - {?c}). \<not> has_prefix k (?c @ ''/'')"
  proof -
    have "memParent k \<noteq> ?c"
      if k: "k \<in> fst ` set (mem_files m) \<union> (set (mem_dirs m) - {?c})" and ne: "memParent k \<noteq> []" for k
    proof
      assume "memParent k = ?c"
      then obtain r where "k = ?c @ SLASH # r"
        using ne by (auto simp: memParent_def split: option.splits dest: cut_last_Some)
      then show False using empty k by (auto simp: has_prefix_iff)
    qed
    then show ?thesis using wf by (auto simp: mem_wf_def closed_keys_def distinct_removeAll)
  qed
  have del: "mem_wf (m\<lparr>mem_files := AList.delete ?c (mem_files m), mem_times := AList.delete ?c (mem_times m)\<rparr>)"
    using wf by (auto simp: mem_wf_def closed_keys_def delete_keys AList.distinct_delete delete_conv')
  show ?thesis
  proof (cases "map_of (mem_files m) ?c = None \<and> ?c \<in> set (mem_dirs m)")
    case False
    then show ?thesis using wf del by (auto simp: memRemove_def Let_def)
  next
    case True
    show ?thesis
    proof (cases "\<forall>k \<in> fst ` set (mem_files m) \<union> (set (mem_dirs m) - {?c}). \<not> has_prefix k (?c @ ''/'')")
      case empty: True
      then have "fst (memRemove wd m p) = m\<lparr>mem_dirs := removeAll ?c (mem_dirs m)\<rparr>"
        using True by (auto simp: memRemove_def Let_def)
      then show ?thesis using rm [OF empty] by simp
    next
      case full: False
      then have "fst (memRemove wd m p) = m" using True by (auto simp: memRemove_def Let_def)
      then show ?thesis using wf by simp
    qed
  qed
qed

lemma memRename_wf: "mem_wf m \<Longrightarrow> mem_wf (fst (memRename wd m p q))"
proof -
  assume wf: "mem_wf m"
  let ?s = "memClean wd p" and ?n = "memClean wd q"
  show ?thesis
  proof (cases "map_of (mem_files m) ?s")
    case None
    then show ?thesis using wf by (simp add: memRename_def Let_def)
  next
    case (Some b)
    define t where "t = (case map_of (mem_times m) ?s of None \<Rightarrow> 0 | Some t \<Rightarrow> t)"
    let ?m = "m\<lparr>mem_files := AList.update ?n b (AList.delete ?s (mem_files m)),
      mem_times := AList.update ?n t (AList.delete ?s (mem_times m))\<rparr>"
    have "closed_keys (fst ` set (AList.delete ?s (mem_files m)) \<union> set (mem_dirs ?m)) (mem_dirs ?m)"
      "distinct (mem_dirs ?m)"
      using wf by (auto simp: mem_wf_def delete_keys closed_keys_def)
    from markParents_wf [OF this(1) memClean_ok [of wd q] this(2)] show ?thesis
      using wf Some
      by (auto simp: mem_wf_def memRename_def Let_def t_def [symmetric] AList.distinct_update
          AList.distinct_delete update_conv' delete_conv' dom_update)
  qed
qed

section \<open>The volume as a provider\<close>

text \<open>The wall clock ticks once per stored file.\<close>

record MemVol =
  mv_fs :: MemFS
  mv_tick :: nat

definition mem_call :: "(MemFS \<Rightarrow> MemFS \<times> fs_error option) \<Rightarrow> MemVol \<Rightarrow> MemVol \<times> fs_error option" where
  "mem_call f v = (let (m, r) = f (mv_fs v) in (v\<lparr>mv_fs := m, mv_tick := Suc (mv_tick v)\<rparr>, r))"

definition volWriteFile :: "string option \<Rightarrow> (nat \<Rightarrow> int) \<Rightarrow> MemVol \<Rightarrow> string \<Rightarrow> bytes \<Rightarrow> MemVol \<times> fs_error option" where
  "volWriteFile wd wall v p b = mem_call (\<lambda>m. memWriteFile wd (wall (mv_tick v)) m p b) v"

definition volWriteFileExcl :: "string option \<Rightarrow> (nat \<Rightarrow> int) \<Rightarrow> MemVol \<Rightarrow> string \<Rightarrow> bytes \<Rightarrow> MemVol \<times> fs_error option" where
  "volWriteFileExcl wd wall v p b = mem_call (\<lambda>m. memWriteFileExcl wd (wall (mv_tick v)) m p b) v"

definition volMkdirAll :: "string option \<Rightarrow> MemVol \<Rightarrow> string \<Rightarrow> MemVol \<times> fs_error option" where
  "volMkdirAll wd v p = mem_call (\<lambda>m. memMkdirAll wd m p) v"

definition volRemove :: "string option \<Rightarrow> MemVol \<Rightarrow> string \<Rightarrow> MemVol \<times> fs_error option" where
  "volRemove wd v p = mem_call (\<lambda>m. memRemove wd m p) v"

definition volRename :: "string option \<Rightarrow> MemVol \<Rightarrow> string \<Rightarrow> string \<Rightarrow> MemVol \<times> fs_error option" where
  "volRename wd v p q = mem_call (\<lambda>m. memRename wd m p q) v"

definition mem_api :: "string option \<Rightarrow> (nat \<Rightarrow> int) \<Rightarrow> MemVol FS" where
  "mem_api wd wall =
     \<lparr>api_ReadFile = (\<lambda>v. memReadFile wd (mv_fs v)),
      api_WriteFile = volWriteFile wd wall,
      api_Exists = (\<lambda>v. memExists wd (mv_fs v)),
      api_Stat = (\<lambda>v. memStat wd (mv_fs v)),
      api_MkdirAll = volMkdirAll wd,
      api_ReadDir = (\<lambda>v. memReadDir wd (mv_fs v)),
      api_Remove = volRemove wd,
      api_Rename = volRename wd,
      api_WriteFileExcl = Some (volWriteFileExcl wd wall),
      api_Chmod = None,
      api_Realpath = None\<rparr>"

definition mem_inv :: "MemVol \<Rightarrow> bool" where "mem_inv v = mem_wf (mv_fs v)"

lemma held_mem: "held (mem_api wd wall) v p = map_of (mem_files (mv_fs v)) (memClean wd p)"
  by (simp add: held_def mem_api_def memReadFile_def split: option.splits)

lemma mem_api_simps [mem_simps]:
  "api_WriteFile (mem_api wd wall) v p b = mem_call (\<lambda>m. memWriteFile wd (wall (mv_tick v)) m p b) v"
  "api_Exists (mem_api wd wall) v p = memExists wd (mv_fs v) p"
  "api_MkdirAll (mem_api wd wall) v p = mem_call (\<lambda>m. memMkdirAll wd m p) v"
  "api_Remove (mem_api wd wall) v p = mem_call (\<lambda>m. memRemove wd m p) v"
  "api_Rename (mem_api wd wall) v p q = mem_call (\<lambda>m. memRename wd m p q) v"
  "api_WriteFileExcl (mem_api wd wall) =
     Some (\<lambda>v p b. mem_call (\<lambda>m. memWriteFileExcl wd (wall (mv_tick v)) m p b) v)"
  "api_Chmod (mem_api wd wall) = None"
  by (simp_all add: mem_api_def volWriteFile_def volWriteFileExcl_def volMkdirAll_def volRemove_def volRename_def fun_eq_iff)

lemma mem_callD: "mem_call f v = (v', r) \<Longrightarrow> f (mv_fs v) = (mv_fs v', r)"
  by (auto simp: mem_call_def split: prod.splits)

lemma mem_write_files [mem_simps]: "mem_files (writeLocked now k b m) = AList.update k b (mem_files m)"
  by (simp add: writeLocked_def)

lemma mem_dirs_files [simp]: "mem_files (markDirsLocked p m) = mem_files m"
  by (simp add: markDirsLocked_def Let_def)

text \<open>What each operation does to the files.\<close>

lemma memRename_files:
  assumes "memRename wd m p q = (m', r)"
  shows "(case r of
      None \<Rightarrow> \<exists>b. map_of (mem_files m) (memClean wd p) = Some b \<and>
        map_of (mem_files m') = ((map_of (mem_files m))(memClean wd p := None))(memClean wd q \<mapsto> b)
    | Some e \<Rightarrow> m' = m)"
  using assms by (auto simp: memRename_def Let_def update_conv' delete_conv' split: option.splits)

lemma memRemove_files:
  "memRemove wd m p = (m', r) \<Longrightarrow>
   map_of (mem_files m') = map_of (mem_files m) \<or>
   map_of (mem_files m') = (map_of (mem_files m))(memClean wd p := None)"
  by (auto simp: memRemove_def Let_def delete_conv' split: if_splits)

lemma memExcl_files:
  assumes "memWriteFileExcl wd now m p b = (m', r)"
  shows "(case r of
      None \<Rightarrow> map_of (mem_files m) (memClean wd p) = None \<and>
        map_of (mem_files m') = (map_of (mem_files m))(memClean wd p \<mapsto> b)
    | Some e \<Rightarrow> m' = m \<and> pe_cause e = FsExist)"
  using assms by (auto simp: memWriteFileExcl_def Let_def update_conv' mem_simps split: if_splits)

lemma mem_call_wf:
  assumes "mem_call f v = (v', r)" and "mem_inv v" and "\<And>m. mem_wf m \<Longrightarrow> mem_wf (fst (f m))"
  shows "mem_inv v'"
  using mem_callD [OF assms(1)] assms(2) assms(3) [of "mv_fs v"] by (simp add: mem_inv_def)

lemma memExcl_wf: "mem_wf m \<Longrightarrow> mem_wf (fst (memWriteFileExcl wd now m p b))"
  by (auto simp: memWriteFileExcl_def Let_def writeLocked_wf)

lemma memWrite_wf: "mem_wf m \<Longrightarrow> mem_wf (fst (memWriteFile wd now m p b))"
  by (auto simp: memWriteFile_def writeLocked_wf)

lemma memWrite_files:
  "memWriteFile wd now m p b = (m', r) \<Longrightarrow>
   r = None \<and> map_of (mem_files m') = (map_of (mem_files m))(memClean wd p \<mapsto> b)"
  by (auto simp: memWriteFile_def mem_simps update_conv')

lemma memMkdir_files:
  "memMkdirAll wd m p = (m', r) \<Longrightarrow> mem_files m' = mem_files m"
  by (auto simp: memMkdirAll_def Let_def split: if_splits)

interpretation memfs: fs_provider "mem_api wd wall" "memClean wd" mem_inv
proof (unfold_locales, goal_cases)
  case (1 p q s)
  then show ?case by (simp add: held_mem)
next
  case (2 s p)
  then show ?case by (simp add: held_mem mem_simps memExists_def)
next
  case (3 s p b s')
  from memWrite_files [OF mem_callD [OF 3(2) [unfolded mem_simps]]] show ?case by (simp add: held_mem)
next
  case (4 s p b s' r)
  note c = 4(2) [unfolded mem_simps]
  from memWrite_files [OF mem_callD [OF c]] mem_call_wf [OF c 4(1) memWrite_wf] show ?case
    by (simp add: held_mem only_changes_def)
next
  case (5 s w p b s')
  then have c: "mem_call (\<lambda>m. memWriteFileExcl wd (wall (mv_tick s)) m p b) s = (s', None)"
    by (auto simp: mem_simps)
  from memExcl_files [OF mem_callD [OF c]] show ?case by (simp add: held_mem)
next
  case (6 s w p b s' r)
  then have c: "mem_call (\<lambda>m. memWriteFileExcl wd (wall (mv_tick s)) m p b) s = (s', r)"
    by (auto simp: mem_simps)
  from memExcl_files [OF mem_callD [OF c]] mem_call_wf [OF c 6(1) memExcl_wf] show ?case
    by (auto simp: held_mem only_changes_def split: option.splits)
next
  case (7 s w p b s' e)
  then have c: "mem_call (\<lambda>m. memWriteFileExcl wd (wall (mv_tick s)) m p b) s = (s', Some e)"
    by (auto simp: mem_simps)
  from memExcl_files [OF mem_callD [OF c]] show ?case by (simp add: held_mem only_changes_def)
next
  case (8 s w p b s' e)
  then have c: "mem_call (\<lambda>m. memWriteFileExcl wd (wall (mv_tick s)) m p b) s = (s', Some e)"
    by (auto simp: mem_simps)
  from memExcl_files [OF mem_callD [OF c]] show ?case by simp
next
  case (9 s p s' r)
  note c = 9(2) [unfolded mem_simps]
  from memMkdir_files [OF mem_callD [OF c]] mem_call_wf [OF c 9(1) memMkdirAll_wf] show ?case
    by (simp add: held_mem only_changes_def)
next
  case (10 s p s' r)
  note c = 10(2) [unfolded mem_simps]
  from memRemove_files [OF mem_callD [OF c]] mem_call_wf [OF c 10(1) memRemove_wf] show ?case
    by (auto simp: held_mem only_changes_def)
next
  case (11 s p q s')
  note c = 11(2) [unfolded mem_simps]
  from memRename_files [OF mem_callD [OF c]] 11(3) show ?case by (auto simp: held_mem)
next
  case (12 s p q s' r)
  note c = 12(2) [unfolded mem_simps]
  from memRename_files [OF mem_callD [OF c]] mem_call_wf [OF c 12(1) memRename_wf] show ?case
    by (auto simp: held_mem only_changes_def split: option.splits)
next
  case (13 s p q s' e)
  note c = 13(2) [unfolded mem_simps]
  from memRename_files [OF mem_callD [OF c]] show ?case by (simp add: held_mem only_changes_def)
next
  case (14 s c p m s' r)
  then show ?case by (simp add: mem_simps)
qed

section \<open>Siblings\<close>

lemma isDriveKey_append:
  assumes "SLASH \<notin> set x"
  shows "isDriveKey (p @ x) = isDriveKey p"
  using assms by (cases p rule: isDriveKey.cases; cases x rule: isDriveKey.cases; auto)

lemma segments_suffix:
  assumes "SLASH \<notin> set x"
  shows "segments (p @ x) = butlast (segments p) @ [last (segments p) @ x]"
proof (cases "cut_last SLASH p")
  case None
  then have "SLASH \<notin> set p" by (simp add: cut_last_None)
  then have "segments p = [p]" "segments (p @ x) = [p @ x]"
    using assms unfolding segments_def by (auto intro: split_by_plain)
  then show ?thesis by simp
next
  case (Some c)
  obtain l r where c: "c = (l, r)" by (cases c)
  from cut_last_Some [OF Some [unfolded c]] have p: "p = l @ SLASH # r" "SLASH \<notin> set r" by auto
  then have "segments r = [r]" "segments (r @ x) = [r @ x]"
    using assms unfolding segments_def by (auto intro: split_by_plain)
  then show ?thesis using segments_append [of l r] segments_append [of l "r @ x"] p by simp
qed

lemma mem_step_other:
  assumes "plain_suffix x"
  shows "mem_step A l \<noteq> mem_step A (l @ x)"
proof -
  obtain c where c: "c \<in> set x" "c \<noteq> CHR ''.''" using assms by (auto simp: plain_suffix_def)
  then have "c \<in> set (l @ x)" by simp
  then have "l @ x \<noteq> [] \<and> l @ x \<noteq> DOT \<and> l @ x \<noteq> DOTDOT"
    using c(2) by (metis empty_iff list.set(1) set_ConsD)
  moreover have "butlast A \<noteq> A @ [l @ x]"
  proof
    assume "butlast A = A @ [l @ x]"
    then have "length (butlast A) = Suc (length A)" by simp
    then show False by simp
  qed
  moreover have "x \<noteq> []" using c by auto
  ultimately show ?thesis by (auto simp: mem_step_def)
qed

lemma join_plain_inj:
  assumes "\<forall>s \<in> set a. plain_seg s" and "\<forall>s \<in> set b. plain_seg s"
    and "join_with ''/'' a = join_with ''/'' b"
  shows "a = b"
proof -
  have "segments (join_with ''/'' s) = (if s = [] then [[]] else s)" if p: "\<forall>w \<in> set s. plain_seg w" for s
  proof (cases "s = []")
    case True
    then show ?thesis by (simp add: segments_def)
  next
    case False
    have "\<forall>w \<in> set s. SLASH \<notin> set w" using p by (simp add: plain_seg_def)
    then show ?thesis using segments_join [OF False] False by simp
  qed
  from this [OF assms(1)] this [OF assms(2)]
  have "(if a = [] then [[]] else a) = (if b = [] then [[]] else b)" using assms(3) by simp
  moreover have "a \<noteq> [[]]" "b \<noteq> [[]]"
    using assms(1,2) by (metis list.set_intros(1) plain_seg_def)+
  ultimately show ?thesis by metis
qed

lemma memClean_suffix:
  assumes "plain_suffix x"
  shows "memClean wd (p @ x) \<noteq> memClean wd p"
proof -
  have x: "SLASH \<notin> set x" "fwd x = x" using assms by (auto simp: plain_suffix_def fwd_id)
  have "has_prefix (fwd p @ x) ''/'' = has_prefix (fwd p) ''/''"
    using x(1) by (cases "fwd p"; cases x) auto
  then have abs: "memAbs wd (p @ x) = memAbs wd p @ x"
    using x isDriveKey_append [OF x(1)] by (simp add: memAbs_def Let_def)
  define s1 d s where "s1 = memAbs wd p" and "d = (if isDriveKey s1 then take 2 s1 else [])"
    and "s = (if isDriveKey s1 then drop 2 s1 else s1)"
  have 1: "memClean wd p = d @ ''/'' @ join_with ''/'' (foldl mem_step [] (segments s))"
    by (simp only: memClean_def memKey_def s1_def d_def s_def)
  have "isDriveKey s1 \<Longrightarrow> 2 \<le> length s1" by (cases s1 rule: isDriveKey.cases) auto
  then have "(if isDriveKey (s1 @ x) then take 2 (s1 @ x) else []) = d"
    "(if isDriveKey (s1 @ x) then drop 2 (s1 @ x) else s1 @ x) = s @ x"
    using isDriveKey_append [OF x(1), of s1] by (simp_all add: d_def s_def)
  then have 2: "memClean wd (p @ x) = d @ ''/'' @ join_with ''/'' (foldl mem_step [] (segments (s @ x)))"
    unfolding memClean_def memKey_def abs s1_def [symmetric] by (simp only:)
  obtain us u where ss: "segments s = us @ [u]" by (metis rev_exhaust segments_not_Nil)
  let ?A = "foldl mem_step [] us"
  have "foldl mem_step [] (segments s) = mem_step ?A u"
    "foldl mem_step [] (segments (s @ x)) = mem_step ?A (u @ x)"
    using segments_suffix [OF x(1), of s] by (simp_all add: ss)
  moreover have "\<forall>w \<in> set (foldl mem_step [] (segments t)). plain_seg w" for t
    by (rule mem_foldl_plain) (auto dest: segments_no_slash)
  ultimately have "join_with ''/'' (foldl mem_step [] (segments s))
      \<noteq> join_with ''/'' (foldl mem_step [] (segments (s @ x)))"
    using mem_step_other [OF assms, of ?A u] join_plain_inj by metis
  then show ?thesis unfolding 1 2 by simp
qed

interpretation memfs: fs_siblings "mem_api wd wall" "memClean wd" mem_inv
  by unfold_locales (rule memClean_suffix)

end
