(* ===== verification/SaveProps.thy ===== *)
theory SaveProps
  imports FhTarget DiffProps MemFSInv
begin

text \<open>
  The claims about saving (\<^verbatim>\<open>go/filehandler.go\<close>). Those that depend on the filesystem hold for any
  provider that meets the contract \<open>fs_siblings\<close>, and are applied, in their witnesses, to the
  in-memory volume, which meets it.
\<close>

lemma fh_run_I: "fs_siblings (c_api c) key ok \<Longrightarrow> fh_run (c_api c) key ok c"
  by (simp add: fh_run_def fh_run_axioms_def)

interpretation mem_run: fh_run "mem_api wd wall" "memClean wd" mem_inv "c\<lparr>c_api := mem_api wd wall\<rparr>"
  by unfold_locales simp

section \<open>A sample run\<close>

text \<open>A handler over a small volume, for the examples below.\<close>

definition sampleCfg :: "Control \<Rightarrow> ExistingTxt \<Rightarrow> MemVol Cfg" where
  "sampleCfg ct txt =
     \<lparr>c_api = mem_api (Some ''/w'') (\<lambda>n. 100 + int n), c_now = (\<lambda>n. 5000 + int n), c_folder = ''/o'',
      c_when = 4000, c_existing = noExisting\<lparr>ex_Txt := txt\<rparr>, c_control = ct, c_windows = False, c_pid = 7,
      c_rand = (\<lambda>n. None), c_sha256 = (\<lambda>b. b), c_unmarshal = (\<lambda>b. Inr JNull)\<rparr>"

definition sampleFh :: "(string \<times> bytes option) list \<Rightarrow> MemVol Fh" where
  "sampleFh vol = startFh \<lparr>mv_fs = newSeededMemFS (Some ''/w'') 50 vol, mv_tick = 0\<rparr> 0 0"

lemma newSeeded_wf: "mem_wf (newSeededMemFS wd now vol)"
proof -
  have "mem_wf (foldl (\<lambda>m (path, body). case body of
      None \<Rightarrow> fst (memMkdirAll wd m path) | Some b \<Rightarrow> fst (memWriteFile wd now m path b)) m vol)" if "mem_wf m" for m
    using that by (induction vol arbitrary: m) (auto simp: memMkdirAll_wf memWrite_wf split: option.split)
  moreover have "mem_wf NewMemFS" by (simp add: mem_wf_def NewMemFS_def closed_keys_def)
  ultimately show ?thesis by (simp add: newSeededMemFS_def)
qed

lemma sample_inv: "mem_inv (fh_vol (sampleFh vol))"
  by (simp add: mem_inv_def sampleFh_def startFh_def newSeeded_wf)

lemma sample_provider: "fs_siblings (c_api (sampleCfg ct txt)) (memClean (Some ''/w'')) mem_inv"
  by (simp add: sampleCfg_def memfs.fs_siblings_axioms)


definition txtOf :: "(ExistingTxt \<Rightarrow> ExistingTxt) \<Rightarrow> ExistingTxt" where
  "txtOf f = f (ex_Txt noExisting)"

text \<open>A file that the user has added a line to, under merge, with its baseline.\<close>

definition mergeCfg :: "MemVol Cfg" where
  "mergeCfg = sampleCfg noControl (txtOf (\<lambda>t. t\<lparr>et_Merge := Some True\<rparr>))"

definition mergeFh :: "MemVol Fh" where
  "mergeFh = sampleFh [(''/o/a'', Some (''a'' @ [NL] @ ''b'' @ [NL] @ ''u'')), (''/o/.jostraca/generated/a'', Some (''a'' @ [NL] @ ''b'' @ [NL]))]"

lemma merge_sample:
  "fs_siblings (c_api mergeCfg) (memClean (Some ''/w'')) mem_inv" "mem_inv (fh_vol mergeFh)"
  "modesFor mergeCfg True = \<lparr>mb_write = True, mb_preserve = False, mb_present = False, mb_diff = False, mb_merge = True,
     mb_conflictFail = False\<rparr>"
  unfolding mergeCfg_def mergeFh_def
  by (rule sample_provider, rule sample_inv, simp add: modesFor_def sampleCfg_def txtOf_def noExisting_def ConflictFail_def boolOr_def)

lemma merge_sample_files:
  "held (c_api mergeCfg) (fh_vol mergeFh) (canonOutPath ''/o/a'') = Some (''a'' @ [NL] @ ''b'' @ [NL] @ ''u'')"
  "memClean (Some ''/w'') (canonOutPath ''/o/a'') \<notin> memClean (Some ''/w'') ` sidecars mergeCfg (canonOutPath ''/o/a'')"
  "memClean (Some ''/w'') (baseline_at mergeCfg (canonOutPath ''/o/a'')) \<notin>
     {memClean (Some ''/w'') (canonOutPath (annotatedPath (canonOutPath ''/o/a'') ''old'')),
      memClean (Some ''/w'') (canonOutPath (annotatedPath (canonOutPath ''/o/a'') ''new''))}"
  "held (c_api mergeCfg) (fh_vol mergeFh) (canonOutPath (path_join [duplicateFolder mergeCfg,
     relative (c_folder mergeCfg) (canonOutPath ''/o/a'')])) = Some (''a'' @ [NL] @ ''b'' @ [NL])"
  unfolding sidecars_def baseline_at_def by code_simp+

lemma merge_sample_run: "snd (saveAs mergeCfg ''/o/a'' (''c'' @ [NL] @ ''b'' @ [NL]) [] False 0 True mergeFh) = Inr ()"
  by code_simp

lemma merge_sample_new: "\<not> hasFingerprint (priorFingerprints (fh_prev mergeFh) (relative (c_folder mergeCfg) (canonOutPath ''/o/a'')))
    (fingerprint mergeCfg (''a'' @ [NL] @ ''b'' @ [NL] @ ''u''))"
  by code_simp

section \<open>Claims\<close>

text \<open>A dry run writes nothing: whatever the file, its content, the existing-file modes and the
  outcome, neither a save nor the end of the build changes the filesystem's state.\<close>

lemma dry_run_writes_nothing:
  assumes "ct_Dryrun (c_control c)"
  shows "fh_vol (fst (saveAs c p content whence tagged mode isText s)) = fh_vol s \<and>
    fh_vol (fst (metaDone c s)) = fh_vol s"
  using keepsD [OF dry_saveAs [OF assms] prod.collapse [symmetric]]
    keepsD [OF dry_metaDone [OF assms] prod.collapse [symmetric]]
  by (simp add: same_vol_def)

lemma dry_run_writes_nothing_witness:
  "fh_vol (fst (saveAs (sampleCfg (noControl\<lparr>ct_Dryrun := True\<rparr>) (ex_Txt noExisting)) ''/o/a'' ''x'' [] False 0 True
     (sampleFh [(''/o/a'', Some ''y'')]))) = fh_vol (sampleFh [(''/o/a'', Some ''y'')])"
  by (rule dry_run_writes_nothing [THEN conjunct1]) (simp add: sampleCfg_def)

text \<open>C9: a save writes its target and the files beside it (the preserved copy, the presented copy
  and the merge baseline) and no other: every file that could be read, the user's own among them,
  reads the same after the save, whether it succeeds or fails.\<close>

theorem save_spares_other_files:
  assumes "fs_siblings (c_api c) key ok" and "ok (fh_vol s)"
    and "held (c_api c) (fh_vol s) q = Some b"
    and "key q \<notin> insert (key (canonOutPath p)) (key ` sidecars c (canonOutPath p))"
  shows "held (c_api c) (fh_vol (fst (saveAs c p content whence tagged mode isText s))) q = Some b"
  using keepsD [OF fh_run.kept_saveAs [OF fh_run_I [OF assms(1)]] prod.collapse [symmetric],
      of p s content whence tagged mode isText] assms(2-4)
  by (auto simp: fh_run.kept_def [OF fh_run_I [OF assms(1)]] elim: sparesD)

theorem save_spares_other_files_witness:
  "let c = sampleCfg noControl (ex_Txt noExisting); s = sampleFh [(''/o/b'', Some ''y'')]
   in held (c_api c) (fh_vol (fst (saveAs c ''/o/a'' ''x'' [] False 0 True s))) ''/o/b'' = Some ''y''"
  unfolding Let_def
  by (rule save_spares_other_files [OF sample_provider sample_inv]) code_simp+

text \<open>C10: the target of a save is never left half written: a file that was there before is there
  after the save, also when the save fails, and holds what it held or, whole, one of the at most two
  texts the modes call for: the generated content, and its diff against that very file, or its merge
  with that file over the baseline recorded for it. (A merge that also preserves or presents is to
  have a recorded baseline, and the baseline is not to be one of the two sidecars.)\<close>

theorem save_leaves_target_whole:
  assumes "fs_siblings (c_api c) key ok" and "ok (fh_vol s)"
    and "held (c_api c) (fh_vol s) (canonOutPath p) = Some b"
    and "key (canonOutPath p) \<notin> key ` sidecars c (canonOutPath p)"
    and "key (baseline_at c (canonOutPath p)) \<notin> {key (canonOutPath (annotatedPath (canonOutPath p) ''old'')),
      key (canonOutPath (annotatedPath (canonOutPath p) ''new''))}"
    and "mb_merge (modesFor c isText) \<and> \<not> mb_diff (modesFor c isText) \<and>
      (mb_preserve (modesFor c isText) \<or> mb_present (modesFor c isText)) \<longrightarrow>
      held (c_api c) (fh_vol s) (baseline_at c (canonOutPath p)) \<noteq> None"
  shows "\<exists>b'. held (c_api c) (fh_vol (fst (saveAs c p content whence tagged mode isText s))) (canonOutPath p) = Some b' \<and>
    (b' = b \<or> b' \<in> set (save_texts c (modesFor c isText) (meta_last (fh_prev s)) content b
      (held (c_api c) (fh_vol s) (baseline_at c (canonOutPath p)))))"
  using fh_run.target_save [OF fh_run_I [OF assms(1)] assms(2-6) prod.collapse [symmetric],
      of content whence tagged mode] assms(2,3)
  by (auto simp: fh_run.target_def [OF fh_run_I [OF assms(1)]])

theorem save_leaves_target_whole_witness:
  "\<exists>b'. held (c_api mergeCfg) (fh_vol (fst (saveAs mergeCfg ''/o/a'' (''c'' @ [NL] @ ''b'' @ [NL]) [] False 0 True mergeFh))) (canonOutPath ''/o/a'') = Some b' \<and>
    (b' = ''a'' @ [NL] @ ''b'' @ [NL] @ ''u'' \<or> b' \<in> set (save_texts mergeCfg (modesFor mergeCfg True) (meta_last (fh_prev mergeFh)) (''c'' @ [NL] @ ''b'' @ [NL])
      (''a'' @ [NL] @ ''b'' @ [NL] @ ''u'') (held (c_api mergeCfg) (fh_vol mergeFh) (baseline_at mergeCfg (canonOutPath ''/o/a'')))))"
  by (rule save_leaves_target_whole [OF merge_sample(1,2) merge_sample_files(1-3)]) (simp add: merge_sample(3))

text \<open>C11: a file that carries the marker \<^verbatim>\<open>JOSTRACA_PROTECT\<close> is never overwritten: whatever the
  existing-file modes, the save leaves its bytes as they are.\<close>

theorem protected_file_kept:
  assumes "fs_siblings (c_api c) key ok" and "ok (fh_vol s)"
    and "held (c_api c) (fh_vol s) (canonOutPath p) = Some b" and "str_contains b protectMarker"
    and "key (canonOutPath p) \<notin> key ` sidecars c (canonOutPath p)"
  shows "held (c_api c) (fh_vol (fst (saveAs c p content whence tagged mode isText s))) (canonOutPath p) = Some b"
proof (rule sparesD)
  show "spares (c_api c) key {key (canonOutPath (annotatedPath (canonOutPath p) ''new'')),
      key (duplicateFolder c @ ''/'' @ relative (c_folder c) (canonOutPath p))} (fh_vol s)
      (fh_vol (fst (saveAs c p content whence tagged mode isText s)))"
    by (rule fh_run.protected_save [OF fh_run_I [OF assms(1)] assms(2-4) prod.collapse [symmetric]])
qed (use assms(3,5) in \<open>auto simp: sidecars_def\<close>)

theorem protected_file_kept_witness:
  "let c = sampleCfg noControl (ex_Txt noExisting); s = sampleFh [(''/o/a'', Some ''JOSTRACA_PROTECT'')]
   in held (c_api c) (fh_vol (fst (saveAs c ''/o/a'' ''x'' [] False 0 True s))) (canonOutPath ''/o/a'')
     = Some ''JOSTRACA_PROTECT''"
  unfolding Let_def
  by (rule protected_file_kept [OF sample_provider sample_inv]; (unfold sidecars_def)?; code_simp)

text \<open>C12: a merge save that succeeds leaves no line of the user's behind. When merge is the only mode
  that is on, and the file is there, unprotected, with a recorded baseline and not itself an earlier
  generate, the lines of the file on disk that its baseline does not hold are all in the file after
  the save, in their order.\<close>

theorem merge_save_keeps_user_lines:
  assumes "fs_siblings (c_api c) key ok" and "ok (fh_vol s)"
    and "\<not> ct_Dryrun (c_control c)" and "Duplicate (c_control c)"
    and "held (c_api c) (fh_vol s) (canonOutPath p) = Some existing"
    and "\<not> str_contains existing protectMarker" and "existing \<noteq> content"
    and "held (c_api c) (fh_vol s) (canonOutPath (path_join [duplicateFolder c, relative (c_folder c) (canonOutPath p)])) = Some base"
    and "base = existing \<or>
      \<not> hasFingerprint (priorFingerprints (fh_prev s) (relative (c_folder c) (canonOutPath p))) (fingerprint c existing)"
    and "merge_only (modesFor c isText)"
    and "key (duplicateFolder c @ ''/'' @ relative (c_folder c) (canonOutPath p)) \<noteq> key (canonOutPath p)"
    and "snd (saveAs c p content whence tagged 0 isText s) = Inr ()"
  shows "\<exists>out. held (c_api c) (fh_vol (fst (saveAs c p content whence tagged 0 isText s))) (canonOutPath p)
      = Some (concat out) \<and>
    subseq (filter (\<lambda>l. l \<notin> set (Lines base)) (Lines existing)) out"
proof -
  have run: "saveAs c p content whence tagged 0 isText s
      = (fst (saveAs c p content whence tagged 0 isText s), Inr ())"
    using assms(12) by (metis prod.collapse)
  from fh_run.merge_save [OF fh_run_I [OF assms(1)] assms(2-11) run]
  obtain res where res: "Merge content base existing \<lparr>ds_when = c_when c,
      ds_last = meta_last (fh_prev s), ds_kind = ''merge'', ds_labels = None\<rparr> = Some res"
    "held (c_api c) (fh_vol (fst (saveAs c p content whence tagged 0 isText s))) (canonOutPath p)
      = Some (if mr_outcome res = MergeUnresolved then existing else mr_content res)" by blast
  show ?thesis
  proof (cases "mr_outcome res = MergeUnresolved")
    case True
    then show ?thesis using res(2) by (intro exI [of _ "Lines existing"]) simp
  next
    case False
    then show ?thesis using res(2) Merge_user_lines [OF res(1)] by auto
  qed
qed

theorem merge_save_keeps_user_lines_witness:
  "\<exists>out. held (c_api mergeCfg) (fh_vol (fst (saveAs mergeCfg ''/o/a'' (''c'' @ [NL] @ ''b'' @ [NL]) [] False 0 True mergeFh))) (canonOutPath ''/o/a'')
      = Some (concat out) \<and>
    subseq (filter (\<lambda>l. l \<notin> set (Lines (''a'' @ [NL] @ ''b'' @ [NL]))) (Lines (''a'' @ [NL] @ ''b'' @ [NL] @ ''u''))) out"
  by (rule merge_save_keeps_user_lines [OF merge_sample(1,2) _ _ merge_sample_files(1) _ _ merge_sample_files(4)
        disjI2 [OF merge_sample_new] _ _ merge_sample_run]; code_simp)

end
