(* ===== verification/MemProps.thy ===== *)
theory MemProps
  imports MemFSInv
begin

text \<open>
  The claims about the in-memory filesystem of \<^verbatim>\<open>go/fs.go\<close>: the states it can reach, and what
  \<^verbatim>\<open>ReadDir\<close> lists.
\<close>

section \<open>Reachable volumes\<close>

text \<open>The volumes that any sequence of operations, with any arguments, leads to from an empty one.\<close>

inductive reachable :: "string option \<Rightarrow> MemFS \<Rightarrow> bool" for wd where
  empty: "reachable wd NewMemFS"
| write_file: "reachable wd m \<Longrightarrow> reachable wd (fst (memWriteFile wd now m p b))"
| write_excl: "reachable wd m \<Longrightarrow> reachable wd (fst (memWriteFileExcl wd now m p b))"
| mkdir: "reachable wd m \<Longrightarrow> reachable wd (fst (memMkdirAll wd m p))"
| remove: "reachable wd m \<Longrightarrow> reachable wd (fst (memRemove wd m p))"
| rename: "reachable wd m \<Longrightarrow> reachable wd (fst (memRename wd m p q))"

lemma NewMemFS_wf: "mem_wf NewMemFS"
  by (simp add: mem_wf_def NewMemFS_def closed_keys_def)

lemma reachable_mem_wf: "reachable wd m \<Longrightarrow> mem_wf m"
  by (induction rule: reachable.induct)
    (simp_all add: NewMemFS_wf memWrite_wf memExcl_wf memMkdirAll_wf memRemove_wf memRename_wf)

text \<open>C14: every volume that a sequence of operations can reach is well formed: no file or directory
  is recorded twice, exactly the files have a time, and the parent of each file and directory is
  a recorded directory.\<close>

theorem memfs_reachable_wf:
  assumes "reachable wd m"
  shows "distinct (map fst (mem_files m)) \<and> distinct (mem_dirs m) \<and>
    dom (map_of (mem_times m)) = dom (map_of (mem_files m)) \<and>
    (\<forall>k \<in> fst ` set (mem_files m) \<union> set (mem_dirs m). memParent k \<noteq> [] \<longrightarrow> memParent k \<in> set (mem_dirs m))"
  using reachable_mem_wf [OF assms] unfolding mem_wf_def closed_keys_def by blast

theorem memfs_reachable_wf_witness:
  "let m = fst (memWriteFile None 1 NewMemFS ''a/b'' ''x'')
   in (\<forall>k \<in> fst ` set (mem_files m) \<union> set (mem_dirs m). memParent k \<noteq> [] \<longrightarrow> memParent k \<in> set (mem_dirs m))"
  unfolding Let_def using memfs_reachable_wf [OF reachable.write_file [OF reachable.empty]] by blast

section \<open>Listing a directory\<close>

text \<open>\<open>n\<close> is the first name below \<open>pre\<close> on the way to \<open>k\<close>.\<close>

definition child :: "string \<Rightarrow> string \<Rightarrow> string \<Rightarrow> bool" where
  "child pre k n = (SLASH \<notin> set n \<and> (k = pre @ n \<and> n \<noteq> [] \<or> has_prefix k (pre @ n @ ''/'')))"

definition first_name :: "string \<Rightarrow> string \<Rightarrow> (string \<times> bool) option" where
  "first_name pre k =
     (if has_prefix k pre \<and> drop (length pre) k \<noteq> [] then
        Some (takeWhile (\<lambda>c. c \<noteq> SLASH) (drop (length pre) k), SLASH \<in> set (drop (length pre) k))
      else None)"

lemma take_name:
  assumes "rest \<noteq> []"
  shows "takeWhile (\<lambda>c. c \<noteq> SLASH) rest = n \<longleftrightarrow>
    SLASH \<notin> set n \<and> (rest = n \<and> n \<noteq> [] \<or> has_prefix rest (n @ ''/''))"
proof (cases "SLASH \<in> set rest")
  case True
  then obtain a b where r: "rest = a @ SLASH # b" "SLASH \<notin> set a" by (meson split_list_first)
  then have t: "takeWhile (\<lambda>c. c \<noteq> SLASH) rest = a" by (simp, subst takeWhile_append2) (auto)
  then have "SLASH \<notin> set n \<and> (rest = n \<and> n \<noteq> [] \<or> has_prefix rest (n @ ''/''))" if "a = n"
    using that r by (auto simp: has_prefix_iff)
  moreover have "a = n" if n: "SLASH \<notin> set n" "rest = n \<or> has_prefix rest (n @ ''/'')"
  proof -
    obtain c where "rest = n @ SLASH # c" using n True by (auto simp: has_prefix_iff)
    then have "takeWhile (\<lambda>c. c \<noteq> SLASH) rest = n" using n(1) by (simp, subst takeWhile_append2) auto
    then show ?thesis using t by simp
  qed
  ultimately show ?thesis using t by blast
next
  case False
  then have t: "takeWhile (\<lambda>c. c \<noteq> SLASH) rest = rest" unfolding takeWhile_eq_all_conv by blast
  have "\<not> has_prefix rest (n @ ''/'')" using False by (auto simp: has_prefix_iff)
  then show ?thesis unfolding t using False assms by blast
qed

lemma first_name_child: "(\<exists>b. first_name pre k = Some (n, b)) \<longleftrightarrow> child pre k n"
proof (cases "has_prefix k pre")
  case True
  then obtain rest where "k = pre @ rest" by (auto simp: has_prefix_iff)
  then show ?thesis
    using take_name [of rest n] by (cases "rest = []") (auto simp: first_name_def child_def has_prefix_iff)
next
  case False
  then show ?thesis by (auto simp: first_name_def child_def has_prefix_iff)
qed

lemma first_name_nested: "first_name pre k = Some (n, b) \<Longrightarrow> b = (k \<noteq> pre @ n)"
proof -
  assume f: "first_name pre k = Some (n, b)"
  then obtain rest where k: "k = pre @ rest" by (auto simp: first_name_def has_prefix_iff split: if_splits)
  with f have "n = takeWhile (\<lambda>c. c \<noteq> SLASH) rest" "b = (SLASH \<in> set rest)"
    by (auto simp: first_name_def split: if_splits)
  then show ?thesis using k takeWhile_eq_all_conv [of "\<lambda>c. c \<noteq> SLASH" rest] by (auto simp: eq_commute [of rest])
qed

lemma see_entry_first:
  "see_entry pre isFile seen k = (case first_name pre k of
     None \<Rightarrow> seen
   | Some (n, b) \<Rightarrow> (if n \<in> de_Name ` set seen then seen
       else seen @ [\<lparr>de_Name = n, de_IsDir = (if isFile then b else True)\<rparr>]))"
  by (simp add: see_entry_def first_name_def Let_def)

text \<open>The entries after a pass over the keys \<open>ks\<close>.\<close>

lemma see_entries:
  fixes start :: "DirEntry list" and pre :: string and isFile :: bool
  defines "out \<equiv> \<lambda>ks. foldl (see_entry pre isFile) start ks"
  shows "de_Name ` set (out ks) = de_Name ` set start \<union> {n. \<exists>k \<in> set ks. child pre k n}" (is ?names)
    and "distinct (map de_Name start) \<Longrightarrow> distinct (map de_Name (out ks))" (is "_ \<Longrightarrow> ?dist")
    and "\<forall>e \<in> set (out ks). e \<in> set start \<or>
      (\<exists>k \<in> set ks. child pre k (de_Name e) \<and> de_IsDir e = (isFile \<longrightarrow> k \<noteq> pre @ de_Name e))" (is ?flags)
proof -
  have "?names \<and> (distinct (map de_Name start) \<longrightarrow> ?dist) \<and> ?flags"
  proof (induction ks rule: rev_induct)
    case Nil
    then show ?case by (simp add: out_def)
  next
    case (snoc k ks)
    have o: "out (ks @ [k]) = see_entry pre isFile (out ks) k" by (simp add: out_def)
    show ?case
    proof (cases "first_name pre k")
      case None
      then have "\<not> child pre k n" for n using first_name_child [of pre k n] by simp
      then show ?thesis using snoc None by (simp add: o see_entry_first)
    next
      case (Some nb)
      then obtain n b where nb: "first_name pre k = Some (n, b)" by (cases nb) auto
      then have "child pre k n' \<longleftrightarrow> n' = n" for n' using first_name_child [of pre k n'] by auto
      then show ?thesis
        using snoc first_name_nested [OF nb] by (auto simp: o see_entry_first nb)
    qed
  qed
  then show ?names "distinct (map de_Name start) \<Longrightarrow> ?dist" ?flags by blast+
qed

lemma below_marked:
  assumes "closed_keys (ks \<union> set ds) ds" and "k \<in> ks \<union> set ds" and "has_prefix k (q @ ''/'')" and "q \<noteq> []"
  shows "q \<in> set ds"
  using assms(2,3)
proof (induction "length k" arbitrary: k rule: less_induct)
  case less
  then obtain t where k: "k = q @ SLASH # t" by (auto simp: has_prefix_iff)
  then obtain l r where c: "cut_last SLASH k = Some (l, r)" using cut_last_None [of SLASH k] by (cases "cut_last SLASH k") auto
  then have lr: "k = l @ SLASH # r" "SLASH \<notin> set r" using cut_last_Some [OF c] by auto
  have "l = q \<or> has_prefix l (q @ ''/'')"
  proof -
    have "q @ SLASH # t = l @ SLASH # r" using k lr(1) by simp
    then consider (longer) us where "q = l @ us" "us @ SLASH # t = SLASH # r"
      | (shorter) us where "l = q @ us" "us @ SLASH # r = SLASH # t"
      by (auto simp: append_eq_append_conv2)
    then show ?thesis
    proof cases
      case longer
      then show ?thesis using lr(2) by (cases us) auto
    next
      case shorter
      then show ?thesis by (cases us) (auto simp: has_prefix_iff)
    qed
  qed
  then show ?case
  proof
    assume "l = q"
    then have "memParent k = q" using c by (simp add: memParent_def)
    then show ?thesis using less.prems(1) assms(1,4) unfolding closed_keys_def by blast
  next
    assume p: "has_prefix l (q @ ''/'')"
    then have "l \<noteq> []" by (cases l) (auto simp: has_prefix_iff)
    moreover have "memParent k = l" using c by (simp add: memParent_def)
    ultimately have "l \<in> set ds" using less.prems(1) assms(1) unfolding closed_keys_def by blast
    then show ?thesis using less.hyps [of l] p lr by simp
  qed
qed

text \<open>No path is both a file and a directory.\<close>

definition files_apart :: "MemFS \<Rightarrow> bool" where
  "files_apart m = (fst ` set (mem_files m) \<inter> set (mem_dirs m) = {})"

definition dir_prefix :: "string \<Rightarrow> string" where
  "dir_prefix cp = (if cp \<noteq> ''/'' then cp @ ''/'' else cp)"

definition children :: "MemFS \<Rightarrow> string \<Rightarrow> DirEntry set" where
  "children m pre =
     {\<lparr>de_Name = n, de_IsDir = (pre @ n \<notin> fst ` set (mem_files m))\<rparr> | n.
        \<exists>k \<in> fst ` set (mem_files m) \<union> set (mem_dirs m). child pre k n}"

lemma memReadDir_children:
  assumes "mem_wf m" and "files_apart m" and "memReadDir wd m p = Inr es"
  shows "set es = children m (dir_prefix (memClean wd p))" and "distinct (map de_Name es)"
    and "js_sorted de_Name es"
proof -
  define pre fs where "pre = dir_prefix (memClean wd p)" and "fs = map fst (mem_files m)"
  define s1 where "s1 = foldl (see_entry pre True) [] fs"
  define s2 where "s2 = foldl (see_entry pre False) s1 (mem_dirs m)"
  have es: "es = sort_js_by de_Name s2"
    using assms(3) by (auto simp: memReadDir_def Let_def s1_def s2_def pre_def fs_def dir_prefix_def split: if_splits)
  note a = see_entries [where isFile = True and pre = pre and start = "[]" and ks = fs, folded s1_def]
  note b = see_entries [where isFile = False and pre = pre and start = s1 and ks = "mem_dirs m", folded s2_def]
  have pre: "pre \<noteq> []" by (simp add: pre_def dir_prefix_def)
  have closed: "closed_keys (set fs \<union> set (mem_dirs m)) (mem_dirs m)"
    using assms(1) by (simp add: mem_wf_def fs_def)
  have flag: "de_IsDir e = (pre @ de_Name e \<notin> set fs)" if e: "e \<in> set s2" for e
  proof -
    have out: "pre @ n \<notin> set fs" if "k \<in> set fs \<union> set (mem_dirs m)" "child pre k n" "k \<noteq> pre @ n \<or> k \<in> set (mem_dirs m)" for k n
    proof (cases "k = pre @ n")
      case True
      then show ?thesis using that assms(2) by (auto simp: files_apart_def fs_def)
    next
      case False
      then have "has_prefix k ((pre @ n) @ ''/'')" using that(2) by (simp add: child_def)
      from below_marked [OF closed that(1) this] pre have "pre @ n \<in> set (mem_dirs m)" by simp
      then show ?thesis using assms(2) by (auto simp: files_apart_def fs_def)
    qed
    show ?thesis
    proof (cases "e \<in> set s1")
      case True
      then obtain k where k: "k \<in> set fs" "child pre k (de_Name e)" "de_IsDir e = (k \<noteq> pre @ de_Name e)"
        using a(3) by auto
      then show ?thesis using out [of k "de_Name e"] by auto
    next
      case False
      then obtain k where k: "k \<in> set (mem_dirs m)" "child pre k (de_Name e)" "de_IsDir e"
        using b(3) e by auto
      then show ?thesis using out [of k "de_Name e"] by auto
    qed
  qed
  have names: "de_Name ` set s2 = {n. \<exists>k \<in> set fs \<union> set (mem_dirs m). child pre k n}"
    using a(1) b(1) by auto
  have "set s2 = (\<lambda>n. \<lparr>de_Name = n, de_IsDir = (pre @ n \<notin> set fs)\<rparr>) ` de_Name ` set s2"
  proof -
    have "e = \<lparr>de_Name = de_Name e, de_IsDir = (pre @ de_Name e \<notin> set fs)\<rparr>" if "e \<in> set s2" for e
      using flag [OF that] by (cases e) simp
    then show ?thesis unfolding image_image by (intro set_eqI) (metis (no_types, lifting) image_iff)
  qed
  then show "set es = children m (dir_prefix (memClean wd p))"
    unfolding names by (auto simp: es children_def pre_def fs_def)
  have "distinct (map de_Name s2)" using a(2) b(2) by simp
  then show "distinct (map de_Name es)"
    unfolding es distinct_map by (metis mset_eq_imp_distinct_iff sort_js_perm sort_js_set)
  show "js_sorted de_Name es" unfolding es by (rule sort_js_sorted)
qed

text \<open>C15: \<^verbatim>\<open>ReadDir\<close> lists the children of a directory, each once and in JavaScript's order: the
  first names of the files and directories below it, marked as directories unless a file has that
  very path.\<close>

theorem readdir_lists_children:
  assumes "reachable wd m" and "files_apart m" and "memReadDir wd m p = Inr es"
  shows "set es = children m (dir_prefix (memClean wd p)) \<and> distinct (map de_Name es) \<and>
    sorted_wrt (\<lambda>x y. \<not> jsLess (de_Name y) (de_Name x)) es"
  using memReadDir_children [OF reachable_mem_wf [OF assms(1)] assms(2,3)] by (simp add: js_sorted_def)

theorem readdir_lists_children_witness:
  "let m = fst (memWriteFile None 1 (fst (memWriteFile None 1 NewMemFS ''a/b'' ''x'')) ''c'' ''x'')
   in distinct (map de_Name (case memReadDir None m ''/'' of Inr es \<Rightarrow> es | Inl _ \<Rightarrow> [])) \<and> memReadDir None m ''/''
     = Inr [\<lparr>de_Name = ''a'', de_IsDir = True\<rparr>, \<lparr>de_Name = ''c'', de_IsDir = False\<rparr>]"
proof -
  let ?m = "fst (memWriteFile None 1 (fst (memWriteFile None 1 NewMemFS ''a/b'' ''x'')) ''c'' ''x'')"
  have r: "memReadDir None ?m ''/'' = Inr [\<lparr>de_Name = ''a'', de_IsDir = True\<rparr>, \<lparr>de_Name = ''c'', de_IsDir = False\<rparr>]"
    by code_simp
  have a: "files_apart ?m" by code_simp
  have "reachable None ?m" by (intro reachable.intros)
  from readdir_lists_children [OF this a r] show ?thesis using r by (simp add: Let_def)
qed

text \<open>The order in which Go ranges over the maps of the volume does not show in \<^verbatim>\<open>ReadDir\<close>, as
  long as no path is both a file and a directory.\<close>

lemma readdir_order_free:
  assumes "reachable wd m" and "files_apart m"
    and "mset (mem_files m') = mset (mem_files m)" and "mset (mem_dirs m') = mset (mem_dirs m)"
    and "mset (mem_times m') = mset (mem_times m)"
  shows "memReadDir wd m' p = memReadDir wd m p"
proof -
  have sets: "set (mem_files m') = set (mem_files m)" "set (mem_dirs m') = set (mem_dirs m)"
    "set (mem_times m') = set (mem_times m)"
    using assms(3-5) by (metis set_mset_mset)+
  have "distinct (map fst (mem_files m')) = distinct (map fst (mem_files m))"
    "distinct (mem_dirs m') = distinct (mem_dirs m)"
    using assms(3,4) by (metis mset_map mset_eq_imp_distinct_iff)+
  then have wf: "mem_wf m" "mem_wf m'"
    using reachable_mem_wf [OF assms(1)] sets by (auto simp: mem_wf_def dom_map_of_conv_image_fst closed_keys_def)
  have ap: "files_apart m'" using assms(2) sets by (simp add: files_apart_def)
  show ?thesis
  proof (cases "memReadDir wd m p")
    case (Inl e)
    then show ?thesis using sets by (auto simp: memReadDir_def Let_def split: if_splits)
  next
    case (Inr es)
    then obtain es' where es': "memReadDir wd m' p = Inr es'"
      using sets by (auto simp: memReadDir_def Let_def split: if_splits)
    note a = memReadDir_children [OF wf(1) assms(2) Inr] and b = memReadDir_children [OF wf(2) ap es']
    have "set es = set es'" using a(1) b(1) sets by (simp add: children_def)
    then have "mset es = mset es'"
      using a(2) b(2) by (simp add: distinct_map set_eq_iff_mset_eq_distinct)
    then have "es = es'" using js_sorted_unique [OF a(3) b(3)] a(2) by (simp add: distinct_map)
    then show ?thesis using Inr es' by simp
  qed
qed

lemma readdir_order_free_witness:
  "memReadDir None (NewMemFS\<lparr>mem_dirs := [''/b'', ''/a'']\<rparr>) ''/'' = memReadDir None (NewMemFS\<lparr>mem_dirs := [''/a'', ''/b'']\<rparr>) ''/''"
proof (rule readdir_order_free)
  have "fst (memMkdirAll None (fst (memMkdirAll None NewMemFS ''/b'')) ''/a'') = NewMemFS\<lparr>mem_dirs := [''/a'', ''/b'']\<rparr>"
    by code_simp
  then show "reachable None (NewMemFS\<lparr>mem_dirs := [''/a'', ''/b'']\<rparr>)" by (metis reachable.empty reachable.mkdir)
qed (simp_all add: files_apart_def NewMemFS_def)

text \<open>Without that condition it does show. A file written below an existing file, which the
  volume allows, makes the path both, and whether the listing calls it a directory then depends on
  which of the two files Go's iteration meets first.\<close>

lemma readdir_order_shows:
  "\<exists>m m'. reachable None m \<and> mset (mem_files m') = mset (mem_files m) \<and>
     mem_dirs m' = mem_dirs m \<and> mem_times m' = mem_times m \<and>
     memReadDir None m' ''/'' \<noteq> memReadDir None m ''/''"
proof -
  let ?m = "fst (memWriteFile None 1 (fst (memWriteFile None 1 NewMemFS ''a'' ''x'')) ''a/b'' ''y'')"
  let ?m' = "?m\<lparr>mem_files := rev (mem_files ?m)\<rparr>"
  have "reachable None ?m" by (intro reachable.intros)
  moreover have "memReadDir None ?m' ''/'' \<noteq> memReadDir None ?m ''/''" by code_simp
  ultimately show ?thesis by (intro exI [of _ ?m] exI [of _ ?m']) simp
qed

end
