(* ===== verification/TextProps.thy ===== *)
theory TextProps
  imports PathProps BuildMeta Options
begin

text \<open>
  The claims about the text routines shared by the components: the JavaScript order and quoting of
  \<^verbatim>\<open>go/util.go\<close> and \<^verbatim>\<open>go/jsvalue.go\<close>, the bookkeeping of \<^verbatim>\<open>go/buildmeta.go\<close>, the merging of
  options of \<^verbatim>\<open>go/options.go\<close>, and the printed times.
\<close>

text \<open>C16: on valid UTF-8, the byte-wise \<^verbatim>\<open>jsLess\<close> orders two texts exactly as JavaScript does, by
  their UTF-16 code units, and \<^verbatim>\<open>utf16Len\<close> is JavaScript's length.\<close>

theorem jsLess_is_utf16_order:
  assumes "list_all scalar xs" and "list_all scalar ys"
  shows "jsLess (encode_runes xs) (encode_runes ys) = lex_less (utf16_of xs) (utf16_of ys) \<and>
    utf16Len (encode_runes xs) = length (utf16_of xs)"
  using jsLess_utf16 [of xs ys] utf16Len_units [of xs] assms by (auto simp: list_all_iff)

theorem jsLess_is_utf16_order_witness:
  "jsLess (encode_runes [0x61, 0xE9]) (encode_runes [0x61, 0x62]) = lex_less (utf16_of [0x61, 0xE9]) (utf16_of [0x61, 0x62])
    \<and> utf16Len (encode_runes [0x61, 0xE9]) = length (utf16_of [0x61, 0xE9])"
  by (rule jsLess_is_utf16_order) (simp_all add: scalar_def)

text \<open>The order of \<^verbatim>\<open>sortJS\<close> is canonical: it gives one list whatever order the names arrive in, say from ranging over a Go
  map: a permutation of its input in which no name is less than an earlier one.\<close>

lemma sortJS_canonical:
  "mset (sortJS ks) = mset ks \<and>
   sorted_wrt (\<lambda>x y. \<not> jsLess y x) (sortJS ks) \<and>
   {sortJS ks' | ks'. mset ks' = mset ks} = {sortJS ks}"
proof (intro conjI)
  show "mset (sortJS ks) = mset ks" by (simp only: sortJS_def sort_js_perm)
  show "sorted_wrt (\<lambda>x y. \<not> jsLess y x) (sortJS ks)"
    using sort_js_sorted [of "\<lambda>s. s" ks] by (simp only: sortJS_def js_sorted_def)
  have "sortJS ks' = sortJS ks" if "mset ks' = mset ks" for ks'
    using sort_js_unique [OF that, of "\<lambda>s. s"] by (simp only: sortJS_def inj_on_id2)
  then show "{sortJS ks' | ks'. mset ks' = mset ks} = {sortJS ks}" by blast
qed

text \<open>C17: \<^verbatim>\<open>jsQuote\<close> loses nothing: reading the quoted text back by the grammar of JSON strings, up
  to its closing quote, gives the text and leaves what follows it.\<close>

theorem jsQuote_roundtrip:
  assumes "list_all scalar rs"
  shows "\<exists>body. jsQuote (encode_runes rs) @ t = QUOTE # body \<and>
    read_json_string body = Some (encode_runes rs, t)"
proof -
  have "runes (encode_runes rs) = rs"
    using assms by (simp add: runes_def runes_encode comp_def list_all_iff)
  then show ?thesis using read_quoted [of rs t] assms by (simp add: jsQuote_def list_all_iff)
qed

theorem jsQuote_roundtrip_witness:
  "\<exists>body. jsQuote (encode_runes [0x61, 0x22, 0x0A, 0x07, 0xE9]) @ ''x'' = QUOTE # body \<and>
    read_json_string body = Some (encode_runes [0x61, 0x22, 0x0A, 0x07, 0xE9], ''x'')"
  by (rule jsQuote_roundtrip) (simp add: scalar_def)

section \<open>The meta log\<close>

text \<open>C18: the fingerprint history of a file holds at most eight digests, the newest last, none twice,
  and drops none but the oldest.\<close>

theorem withFingerprint_history:
  assumes "distinct fps"
  shows "withFingerprint fps fp \<noteq> [] \<and> last (withFingerprint fps fp) = fp \<and>
    distinct (withFingerprint fps fp) \<and> length (withFingerprint fps fp) \<le> 8 \<and>
    suffix (withFingerprint fps fp) (removeAll fp fps @ [fp])"
proof -
  have "suffix (withFingerprint fps fp) (removeAll fp fps @ [fp])"
    unfolding withFingerprint_def Let_def removeAll_filter_not_eq
    by (auto simp: suffix_drop eq_commute [of fp])
  then show ?thesis
    using withFingerprint_last [of fps fp] withFingerprint_distinct [OF assms] withFingerprint_length [of fps fp]
    by (simp add: fingerprintHistory_def)
qed

theorem withFingerprint_history_witness:
  "suffix (withFingerprint [''a'', ''b''] ''a'') (removeAll ''a'' [''a'', ''b''] @ [''a''])"
  using withFingerprint_history [of "[''a'', ''b'']" "''a''"] by simp

definition last_entry :: "metaEntry list \<Rightarrow> string \<Rightarrow> metaEntry option" where
  "last_entry es q = find (\<lambda>e. me_Path e = q) (rev es)"

lemma add_entry_find:
  "find (\<lambda>f. me_Path f = q) (add_entry e fs) =
     (if me_Path e = q then Some e else find (\<lambda>f. me_Path f = q) fs)"
  by (induction fs) auto

text \<open>However often the files of a run are recorded, the log holds one entry per path, the last
  one recorded, in the order in which the paths first appeared.\<close>

lemma meta_entries:
  "map me_Path (foldl (\<lambda>fs e. add_entry e fs) [] es) = rev (remdups (rev (map me_Path es))) \<and>
   find (\<lambda>e. me_Path e = q) (foldl (\<lambda>fs e. add_entry e fs) [] es) = last_entry es q"
proof (induction es rule: rev_induct)
  case Nil
  then show ?case by (simp add: last_entry_def)
next
  case (snoc e es)
  then have "set (map me_Path (foldl (\<lambda>fs e. add_entry e fs) [] es)) = set (map me_Path es)" by simp
  with snoc show ?case by (simp add: last_entry_def add_entry_find add_entry_order)
qed

section \<open>Options\<close>

definition vol_view :: "(string \<times> bytes option) list option \<Rightarrow> (string \<rightharpoonup> bytes option) option" where
  "vol_view v = map_option (\<lambda>v. map_of (rev v)) v"

definition vol_plus :: "('k \<rightharpoonup> 'v) option \<Rightarrow> ('k \<rightharpoonup> 'v) option \<Rightarrow> ('k \<rightharpoonup> 'v) option" where
  "vol_plus x y = (case y of None \<Rightarrow> x | Some m \<Rightarrow> Some ((case x of None \<Rightarrow> Map.empty | Some n \<Rightarrow> n) ++ m))"

lemma vol_plus_assoc: "vol_plus (vol_plus x y) z = vol_plus x (vol_plus y z)"
  by (simp add: vol_plus_def split: option.split)

lemma map_of_rev_distinct: "distinct (map fst ps) \<Longrightarrow> map_of (rev ps) = map_of ps"
  by (rule map_of_inject_set [THEN iffD2]) (simp_all flip: rev_map)

lemma update_fold_distinct:
  "distinct (map fst acc) \<Longrightarrow> distinct (map fst (foldl (\<lambda>m (k, v). AList.update k v m) acc ps))"
  by (induction ps arbitrary: acc) (auto simp: AList.distinct_update)

lemma mergeVol_view: "vol_view (mergeVol g c) = vol_plus (vol_view g) (vol_view c)"
  by (simp add: vol_view_def vol_plus_def mergeVol_def map_of_rev_distinct update_fold_distinct update_fold_map
      split: option.split)

text \<open>Merging options is associative, so the layers of a global, an environment and a call may be
  merged in either order; the volumes are compared as maps.\<close>

lemma mergeOptions_assoc:
  "(mergeOptions (mergeOptions a b) c)\<lparr>op_Vol := None\<rparr> = (mergeOptions a (mergeOptions b c))\<lparr>op_Vol := None\<rparr> \<and>
   vol_view (op_Vol (mergeOptions (mergeOptions a b) c)) = vol_view (op_Vol (mergeOptions a (mergeOptions b c)))"
  by (simp add: mergeOptions_def over_assoc overText_assoc overBool_def mergeTxt_def mergeBin_def mergeControl_def
      mergeVol_view vol_plus_assoc)

text \<open>A call's own \<^verbatim>\<open>Cmp\<close> and \<^verbatim>\<open>Name\<close> options never reach a generate: the merged options hold the
  global ones, whatever the call supplies.\<close>

lemma call_names_ignored:
  "op_Name (mergeOptions g c) = op_Name g \<and> op_Ignore (mergeOptions g c) = op_Ignore g"
  using merge_drops_cmp [of g c] by simp

end
