(* ===== verification/JsNumber.thy ===== *)
theory JsNumber
  imports TimeFmt Complex_Main
begin

text \<open>
  JavaScript numbers, which are IEEE binary64 values: \<^verbatim>\<open>strconv.ParseFloat\<close>'s rounding to the nearest
  of them, the shortest decimal that reads back as the value, as \<^verbatim>\<open>strconv.FormatFloat(f, _, -1, 64)\<close>
  finds it, and \<^verbatim>\<open>formatJSNumber\<close> of \<^verbatim>\<open>go/template.go\<close> on top. A value is the rational number it
  denotes or one of the three non-finite ones; minus zero is not told apart from zero.
\<close>

datatype jnum = NaN | PosInf | NegInf | Fin rat

section \<open>Logarithms and powers\<close>

function bit_length :: "int \<Rightarrow> int" where
  "bit_length n = (if n \<le> 0 then 0 else 1 + bit_length (n div 2))"
  by pat_completeness auto
termination by (relation "measure nat") auto

function int_digits :: "int \<Rightarrow> string" where
  "int_digits n = (if n < 10 then [char_of (nat n + 48)] else int_digits (n div 10) @ [char_of (nat (n mod 10) + 48)])"
  by pat_completeness auto
termination by (relation "measure nat") auto

declare bit_length.simps [simp del] int_digits.simps [simp del]

definition rat_pow :: "rat \<Rightarrow> int \<Rightarrow> rat" where
  "rat_pow b e = (if 0 \<le> e then b ^ nat e else 1 / b ^ nat (- e))"

text \<open>The largest exponent whose power does not exceed \<open>a\<close>, for a positive \<open>a\<close>.\<close>

definition floor_log2 :: "rat \<Rightarrow> int" where
  "floor_log2 a =
     (let (n, d) = quotient_of a; e = bit_length n - bit_length d
      in if rat_pow 2 e \<le> a then e else e - 1)"

definition floor_log10 :: "rat \<Rightarrow> int" where
  "floor_log10 a =
     (let (n, d) = quotient_of a; e = int (length (int_digits n)) - int (length (int_digits d))
      in if rat_pow 10 e \<le> a then e else e - 1)"

section \<open>Rounding to binary64\<close>

definition round_half_even :: "rat \<Rightarrow> int" where
  "round_half_even x =
     (let f = \<lfloor>x\<rfloor>; r = x - of_int f
      in if r < 1 / 2 then f else if 1 / 2 < r then f + 1 else if even f then f else f + 1)"

definition round64 :: "rat \<Rightarrow> jnum" where
  "round64 q =
     (if q = 0 then Fin 0
      else
        let a = \<bar>q\<bar>; e = max (floor_log2 a - 52) (- 1074);
            v = of_int (round_half_even (a / rat_pow 2 e)) * rat_pow 2 e
        in if 2 ^ 1024 \<le> v then (if q < 0 then NegInf else PosInf)
           else Fin (if q < 0 then - v else v))"

section \<open>The shortest decimal\<close>

text \<open>A decimal of \<open>k\<close> digits that rounds to \<open>a\<close>: the nearer neighbour first. Where rounding up
  carries into a new digit, the trailing zero goes to the exponent.\<close>

definition strip_zero :: "int \<times> int \<Rightarrow> int \<times> int" where
  "strip_zero de = (if fst de mod 10 = 0 then (fst de div 10, snd de + 1) else de)"

definition digits_of :: "rat \<Rightarrow> nat \<Rightarrow> (int \<times> int) option" where
  "digits_of a k =
     (let e = floor_log10 a - int k + 1; x = a / rat_pow 10 e; f = \<lfloor>x\<rfloor>;
          near = round_half_even x; far = (if near = f then f + 1 else f);
          ok = (\<lambda>d. round64 (of_int d * rat_pow 10 e) = Fin a)
      in if ok near then Some (strip_zero (near, e)) else if ok far then Some (strip_zero (far, e)) else None)"

definition shortest :: "rat \<Rightarrow> int \<times> int" where
  "shortest a =
     (case List.map_filter (digits_of a) [1..<18] of
        de # _ \<Rightarrow> de
      | [] \<Rightarrow> (0, 0))"

section \<open>formatJSNumber\<close>

definition positional :: "int \<times> int \<Rightarrow> string" where
  "positional de =
     (let (d, e) = de; ds = int_digits d; k = int (length ds)
      in if 0 \<le> e then ds @ replicate (nat e) (CHR ''0'')
         else if - e < k then take (nat (k + e)) ds @ ''.'' @ drop (nat (k + e)) ds
         else ''0.'' @ replicate (nat (- e - k)) (CHR ''0'') @ ds)"

text \<open>The exponent form, whose exponent has a sign and at least two digits.\<close>

definition exponential :: "int \<times> int \<Rightarrow> string" where
  "exponential de =
     (let (d, e) = de; ds = int_digits d; x = e + int (length ds) - 1; xs = int_digits \<bar>x\<bar>
      in [hd ds] @ (if tl ds = [] then [] else ''.'' @ tl ds) @ ''e'' @ (if x < 0 then ''-'' else ''+'') @
         (if length xs < 2 then ''0'' @ xs else xs))"

definition trimExponentZeros :: "string \<Rightarrow> string" where
  "trimExponentZeros s =
     (let man = takeWhile (\<lambda>c. c \<notin> set ''eE'') s
      in if man = s then s
         else
           let ex = drop (length man + 1) s;
               (sign, ex) = (case ex of c # r \<Rightarrow> (if c = CHR ''+'' \<or> c = CHR ''-'' then ([c], r) else ([], ex)) | [] \<Rightarrow> ([], ex));
               ex = trim_left (CHR ''0'') ex
           in man @ ''e'' @ sign @ (if ex = [] then ''0'' else ex))"

definition formatJSNumber :: "jnum \<Rightarrow> string" where
  "formatJSNumber n =
     (case n of
        NaN \<Rightarrow> ''NaN''
      | PosInf \<Rightarrow> ''Infinity''
      | NegInf \<Rightarrow> ''-Infinity''
      | Fin f \<Rightarrow>
          if f = 0 then ''0''
          else
            let a = \<bar>f\<bar>; sign = (if f < 0 then ''-'' else [])
            in if 10 ^ 21 \<le> a \<or> a < 1 / 10 ^ 6
               then trimExponentZeros (sign @ exponential (shortest a))
               else sign @ positional (shortest a))"

end
