(* ===== verification/JsValue.thy ===== *)
theory JsValue
  imports JsText JsNumber
begin

text \<open>
  JavaScript values as a Go caller hands them over (\<^verbatim>\<open>any\<close>), and what \<^verbatim>\<open>go/jsvalue.go\<close> does with
  them: property steps, text, JSON, comparison and conversion to a number. A Go integer is kept
  apart from a float64. A slice or map carries the address of its backing store, by which
  \<^verbatim>\<open>===\<close> compares it, and a slice the Go type of its elements. A compiled regexp is its source and
  its \<^verbatim>\<open>FindStringIndex\<close>; a nil pointer to one is None. A function carries the text \<^verbatim>\<open>fmt\<close> prints
  for it, and a \<^verbatim>\<open>ReplaceFunc\<close> also what it computes
  (None is a panic). A value here is finite, so the cycle checks of the source have nothing to find.
\<close>

datatype slice_type = AnySlice | StringSlice | RegexpSlice | PairArray

record regex =
  re_source :: string
  re_index :: "string \<Rightarrow> (int \<times> int) option"

definition re_match :: "regex \<Rightarrow> string \<Rightarrow> bool" where "re_match re s = (re_index re s \<noteq> None)"

datatype jval =
    Undefined
  | Null
  | Bool bool
  | Num jnum
  | GoInt int
  | Str string
  | Arr slice_type nat "jval list"
  | Obj nat "(string \<times> jval) list"
  | Regex "regex option"
  | Fun string
  | RepFun string "(string \<times> string) list \<Rightarrow> string \<Rightarrow> string option"

datatype jkind = JkUndefined | JkNull | JkBool | JkNumber | JkString | JkObject

definition jsKind :: "jval \<Rightarrow> jkind" where
  "jsKind v = (case v of
     Undefined \<Rightarrow> JkUndefined
   | Null \<Rightarrow> JkNull
   | Bool b \<Rightarrow> JkBool
   | Num n \<Rightarrow> JkNumber
   | GoInt i \<Rightarrow> JkNumber
   | Str s \<Rightarrow> JkString
   | Regex r \<Rightarrow> (if r = None then JkNull else JkObject)
   | _ \<Rightarrow> JkObject)"

definition js_nil :: "jval \<Rightarrow> bool" where
  "js_nil v = (case v of Null \<Rightarrow> True | Undefined \<Rightarrow> True | _ \<Rightarrow> False)"

definition js_bool :: "jval \<Rightarrow> bool" where
  "js_bool v = (case v of Bool b \<Rightarrow> b | _ \<Rightarrow> False)"

section \<open>Properties\<close>

text \<open>\<^verbatim>\<open>jsIndex\<close>: a canonical array index below \<open>n\<close>.\<close>

definition jsIndex :: "string \<Rightarrow> nat \<Rightarrow> nat option" where
  "jsIndex key n =
     (if \<not> isArrayIndexKey key then None
      else if int n \<le> digits_value key then None
      else Some (nat (digits_value key)))"

text \<open>One UTF-16 unit as a string; a lone surrogate decodes to the replacement character.\<close>

definition unit_string :: "nat \<Rightarrow> string" where
  "unit_string u = encode_rune (if 0xD800 \<le> u \<and> u < 0xE000 then rune_error else u)"

definition jsStringProp :: "string \<Rightarrow> string \<Rightarrow> jval option" where
  "jsStringProp s key =
     (if key = ''length'' then Some (GoInt (int (utf16Len s)))
      else
        let units = utf16_of (runes s)
        in (case jsIndex key (length units) of
              None \<Rightarrow> None
            | Some i \<Rightarrow> Some (Str (unit_string (units ! i)))))"

definition jsProp :: "jval \<Rightarrow> string \<Rightarrow> jval option" where
  "jsProp node key = (case node of
     Obj a m \<Rightarrow> map_of m key
   | Arr t a xs \<Rightarrow>
       (case jsIndex key (length xs) of
          Some i \<Rightarrow> Some (xs ! i)
        | None \<Rightarrow> if key = ''length'' then Some (GoInt (int (length xs))) else None)
   | Str s \<Rightarrow> jsStringProp s key
   | _ \<Rightarrow> None)"

section \<open>Text\<close>

text \<open>The decimal of a Go integer (\<^verbatim>\<open>strconv.FormatInt\<close>).\<close>

definition format_int :: "int \<Rightarrow> string" where
  "format_int i = (if i < 0 then ''-'' @ int_digits (- i) else int_digits i)"

fun jsString :: "jval \<Rightarrow> string" where
  "jsString Undefined = ''undefined''"
| "jsString Null = ''null''"
| "jsString (Bool b) = (if b then ''true'' else ''false'')"
| "jsString (Num n) = formatJSNumber n"
| "jsString (GoInt i) = format_int i"
| "jsString (Str s) = s"
| "jsString (Arr t a xs) =
     join_with '','' (map (\<lambda>e. if js_nil e then [] else jsString e) xs)"
| "jsString (Obj a m) = ''[object Object]''"
| "jsString (Regex r) = (case r of None \<Rightarrow> ''null'' | Some _ \<Rightarrow> ''[object Object]'')"
| "jsString (Fun t) = t"
| "jsString (RepFun t f) = t"

section \<open>JSON\<close>

definition jsJSONFloat :: "jnum \<Rightarrow> jval" where
  "jsJSONFloat n = (case n of Fin q \<Rightarrow> Num (Fin q) | _ \<Rightarrow> Null)"

text \<open>\<^verbatim>\<open>jsJSONValue\<close>: the plain value that is written, or None where \<^verbatim>\<open>JSON.stringify\<close> sees undefined,
  which an object omits and an array writes as null. The package's own undefined is a struct
  without fields.\<close>

fun jsJSONValue :: "jval \<Rightarrow> jval option" where
  "jsJSONValue Undefined = Some (Obj 0 [])"
| "jsJSONValue Null = Some Null"
| "jsJSONValue (Bool b) = Some (Bool b)"
| "jsJSONValue (Num n) = Some (jsJSONFloat n)"
| "jsJSONValue (GoInt i) = Some (GoInt i)"
| "jsJSONValue (Str s) = Some (Str s)"
| "jsJSONValue (Arr t a xs) =
     Some (Arr AnySlice a (map (\<lambda>e. case jsJSONValue e of None \<Rightarrow> Null | Some v \<Rightarrow> v) xs))"
| "jsJSONValue (Obj a m) =
     Some (Obj a (concat (map (\<lambda>f. case jsJSONValue (snd f) of None \<Rightarrow> [] | Some v \<Rightarrow> [(fst f, v)]) m)))"
| "jsJSONValue (Regex r) = Some (case r of None \<Rightarrow> Null | Some re \<Rightarrow> Str (re_source re))"
| "jsJSONValue (Fun t) = None"
| "jsJSONValue (RepFun t f) = None"

text \<open>\<^verbatim>\<open>writeJSJSON\<close>; the fields of an object come in \<^verbatim>\<open>jsKeyOrder\<close>.\<close>

definition in_key_order :: "(string \<times> 'a) list \<Rightarrow> (string \<times> 'a) list" where
  "in_key_order m = List.map_filter (\<lambda>k. map_option (Pair k) (map_of m k)) (jsKeyOrder (map fst m))"

fun writeJSJSON :: "jval \<Rightarrow> string" where
  "writeJSJSON Null = ''null''"
| "writeJSJSON (Bool b) = (if b then ''true'' else ''false'')"
| "writeJSJSON (Str s) = jsQuote s"
| "writeJSJSON (Num n) = formatJSNumber n"
| "writeJSJSON (GoInt i) = format_int i"
| "writeJSJSON (Arr t a xs) = ''['' @ join_with '','' (map writeJSJSON xs) @ '']''"
| "writeJSJSON (Obj a m) =
     ''{'' @ join_with '','' (map (\<lambda>(k, w). jsQuote k @ '':'' @ w)
       (in_key_order (map (\<lambda>f. (fst f, writeJSJSON (snd f))) m))) @ ''}''"
| "writeJSJSON _ = []"

definition jsJSON :: "jval \<Rightarrow> string" where
  "jsJSON v = (case jsJSONValue v of None \<Rightarrow> [] | Some g \<Rightarrow> writeJSJSON g)"

section \<open>Numbers\<close>

text \<open>JavaScript's white space.\<close>

definition js_space :: "nat \<Rightarrow> bool" where
  "js_space r = (r \<in> {9, 11, 10, 12, 13, 32, 0xA0, 0x1680, 0x2028, 0x2029, 0x202F, 0x205F, 0x3000, 0xFEFF}
     \<or> 0x2000 \<le> r \<and> r \<le> 0x200A)"

definition js_trim :: "string \<Rightarrow> string" where
  "js_trim s =
     (let front = dropWhile (\<lambda>(r, p). js_space r) (rune_parts s)
      in concat (map snd (rev (dropWhile (\<lambda>(r, p). js_space r) (rev front)))))"

definition hex_digit_value :: "char \<Rightarrow> int option" where
  "hex_digit_value c =
     (let n = int (byte c)
      in if 48 \<le> n \<and> n \<le> 57 then Some (n - 48)
         else if 97 \<le> n \<and> n \<le> 102 then Some (n - 87)
         else if 65 \<le> n \<and> n \<le> 70 then Some (n - 55)
         else None)"

fun radix_value :: "int \<Rightarrow> int \<Rightarrow> string \<Rightarrow> int option" where
  "radix_value b acc [] = Some acc"
| "radix_value b acc (c # s) =
     (case hex_digit_value c of
        Some d \<Rightarrow> (if d < b then radix_value b (acc * b + d) s else None)
      | None \<Rightarrow> None)"

text \<open>The literals \<^verbatim>\<open>0x..\<close>, \<^verbatim>\<open>0o..\<close> and \<^verbatim>\<open>0b..\<close>.\<close>

definition radix_literal :: "string \<Rightarrow> int option" where
  "radix_literal s =
     (case s of
        z # x # d # ds \<Rightarrow>
          if z \<noteq> CHR ''0'' then None
          else if x \<in> set ''xX'' then radix_value 16 0 (d # ds)
          else if x \<in> set ''oO'' then radix_value 8 0 (d # ds)
          else if x \<in> set ''bB'' then radix_value 2 0 (d # ds)
          else None
      | _ \<Rightarrow> None)"

definition take_sign :: "string \<Rightarrow> int \<times> string" where
  "take_sign s = (case s of
     c # r \<Rightarrow> (if c = CHR ''-'' then (-1, r) else if c = CHR ''+'' then (1, r) else (1, s))
   | [] \<Rightarrow> (1, s))"

text \<open>A decimal literal: sign, digits with an optional point, and an optional exponent.\<close>

definition decimal_literal :: "string \<Rightarrow> rat option" where
  "decimal_literal s =
     (let (sign, s1) = take_sign s;
          ip = takeWhile is_digit s1; s2 = dropWhile is_digit s1;
          (fp, s3) = (case s2 of
             c # r \<Rightarrow> (if c = CHR ''.'' then (takeWhile is_digit r, dropWhile is_digit r) else ([], s2))
           | [] \<Rightarrow> ([], s2));
          m = of_int (sign * digits_value (ip @ fp)) / 10 ^ length fp
      in if ip = [] \<and> fp = [] then None
         else
           (case s3 of
              [] \<Rightarrow> Some m
            | e # r \<Rightarrow>
                if e \<noteq> CHR ''e'' \<and> e \<noteq> CHR ''E'' then None
                else let (es, ds) = take_sign r
                     in if ds = [] \<or> \<not> list_all is_digit ds then None
                        else Some (m * rat_pow 10 (es * digits_value ds))))"

definition jsStringToNumber :: "string \<Rightarrow> jnum" where
  "jsStringToNumber s0 =
     (let s = js_trim s0
      in if s = [] then Fin 0
         else if s = ''Infinity'' \<or> s = ''+Infinity'' then PosInf
         else if s = ''-Infinity'' then NegInf
         else
           (case radix_literal s of
              Some n \<Rightarrow> round64 (of_int n)
            | None \<Rightarrow> (case decimal_literal s of Some q \<Rightarrow> round64 q | None \<Rightarrow> NaN)))"

definition jsNumberOf :: "jval \<Rightarrow> jnum" where
  "jsNumberOf v = (case v of Num n \<Rightarrow> n | GoInt i \<Rightarrow> round64 (of_int i) | _ \<Rightarrow> NaN)"

definition jsToPrimitive :: "jval \<Rightarrow> jval" where
  "jsToPrimitive v = (if jsKind v = JkObject then Str (jsString v) else v)"

definition jsToNumber :: "jval \<Rightarrow> jnum" where
  "jsToNumber v = (case jsKind v of
     JkUndefined \<Rightarrow> NaN
   | JkNull \<Rightarrow> Fin 0
   | JkBool \<Rightarrow> (if js_bool v then Fin 1 else Fin 0)
   | JkNumber \<Rightarrow> jsNumberOf v
   | JkString \<Rightarrow> jsStringToNumber (jsString v)
   | JkObject \<Rightarrow> jsStringToNumber (jsString v))"

section \<open>Comparison\<close>

text \<open>Equality of float64 values: a NaN equals nothing.\<close>

definition num_eq :: "jnum \<Rightarrow> jnum \<Rightarrow> bool" where
  "num_eq a b = (a \<noteq> NaN \<and> a = b)"

fun num_less :: "jnum \<Rightarrow> jnum \<Rightarrow> bool" where
  "num_less (Fin a) (Fin b) = (a < b)"
| "num_less NegInf (Fin b) = True"
| "num_less NegInf PosInf = True"
| "num_less (Fin a) PosInf = True"
| "num_less _ _ = False"

text \<open>Identity: the backing store, its type, and the length of a slice.\<close>

definition jsSameObject :: "jval \<Rightarrow> jval \<Rightarrow> bool" where
  "jsSameObject x y = (case (x, y) of
     (Obj a m, Obj b n) \<Rightarrow> a = b
   | (Arr t a xs, Arr u b ys) \<Rightarrow> t = u \<and> t \<noteq> PairArray \<and> a = b \<and> length xs = length ys
   | (Fun s, Fun t) \<Rightarrow> s = t
   | (RepFun s f, RepFun t g) \<Rightarrow> s = t
   | _ \<Rightarrow> False)"

definition jsStrictEqual :: "jval \<Rightarrow> jval \<Rightarrow> bool" where
  "jsStrictEqual x y =
     (jsKind x = jsKind y \<and>
      (case jsKind x of
         JkUndefined \<Rightarrow> True
       | JkNull \<Rightarrow> True
       | JkBool \<Rightarrow> js_bool x = js_bool y
       | JkNumber \<Rightarrow> num_eq (jsNumberOf x) (jsNumberOf y)
       | JkString \<Rightarrow> jsString x = jsString y
       | JkObject \<Rightarrow> jsSameObject x y))"

definition kind_rank :: "jkind \<Rightarrow> nat" where
  "kind_rank k = (case k of JkObject \<Rightarrow> 3 | JkBool \<Rightarrow> 2 | JkString \<Rightarrow> 1 | _ \<Rightarrow> 0)"

function jsLooseEqual :: "jval \<Rightarrow> jval \<Rightarrow> bool" where
  "jsLooseEqual x y =
     (let kx = jsKind x; ky = jsKind y;
          xNullish = (kx = JkUndefined \<or> kx = JkNull); yNullish = (ky = JkUndefined \<or> ky = JkNull)
      in if kx = ky then jsStrictEqual x y
         else if xNullish \<or> yNullish then xNullish \<and> yNullish
         else if kx = JkNumber \<and> ky = JkString then num_eq (jsNumberOf x) (jsStringToNumber (jsString y))
         else if kx = JkString \<and> ky = JkNumber then num_eq (jsStringToNumber (jsString x)) (jsNumberOf y)
         else if kx = JkBool then jsLooseEqual (Num (jsToNumber x)) y
         else if ky = JkBool then jsLooseEqual x (Num (jsToNumber y))
         else if kx = JkObject then jsLooseEqual (jsToPrimitive x) y
         else if ky = JkObject then jsLooseEqual x (jsToPrimitive y)
         else False)"
  by pat_completeness auto
termination
  by (relation "measure (\<lambda>(x, y). kind_rank (jsKind x) + kind_rank (jsKind y))")
    (auto simp: kind_rank_def jsToPrimitive_def jsKind_def)

declare jsLooseEqual.simps [simp del]

text \<open>\<^verbatim>\<open>jsLessThan\<close>: the comparison, and whether it is JavaScript's undefined.\<close>

definition jsLessThan :: "jval \<Rightarrow> jval \<Rightarrow> bool \<times> bool" where
  "jsLessThan x y =
     (let px = jsToPrimitive x; py = jsToPrimitive y
      in if jsKind px = JkString \<and> jsKind py = JkString then (jsLess (jsString px) (jsString py), False)
         else
           let nx = jsToNumber px; ny = jsToNumber py
           in if nx = NaN \<or> ny = NaN then (False, True) else (num_less nx ny, False))"

definition jsTruthy :: "jval \<Rightarrow> bool" where
  "jsTruthy v = (case jsKind v of
     JkUndefined \<Rightarrow> False
   | JkNull \<Rightarrow> False
   | JkBool \<Rightarrow> js_bool v
   | JkNumber \<Rightarrow> (let n = jsNumberOf v in n \<noteq> Fin 0 \<and> n \<noteq> NaN)
   | JkString \<Rightarrow> jsString v \<noteq> []
   | JkObject \<Rightarrow> True)"

text \<open>\<^verbatim>\<open>propList\<close> of \<^verbatim>\<open>go/cmpshape.go\<close>: the list forms a caller writes, as one list.\<close>

definition propList :: "jval \<Rightarrow> jval list option" where
  "propList v = (case v of Arr t a xs \<Rightarrow> Some xs | _ \<Rightarrow> None)"

end
