(* ===== verification/Getx.thy ===== *)
theory Getx
  imports JsValue
begin

text \<open>
  Looking a path up in a model (\<^verbatim>\<open>go/getx.go\<close>, and \<^verbatim>\<open>Get\<close> of \<^verbatim>\<open>go/util.go\<close>): the tokenizer with
  its cache, the walk over the tokens, comparisons and filters. \<open>Undefined\<close> is the package's
  \<^verbatim>\<open>jsUndefined\<close>. The tokens of the pattern \<^verbatim>\<open>getxTokenRE\<close> are written out as a scan over the
  runes; compiling the pattern of the operator \<^verbatim>\<open>~\<close> is the argument \<open>compile\<close>.
\<close>

section \<open>Tokens\<close>

definition word_rune :: "nat \<Rightarrow> bool" where
  "word_rune r = (97 \<le> r \<and> r \<le> 122 \<or> 65 \<le> r \<and> r \<le> 90 \<or> 48 \<le> r \<and> r \<le> 57 \<or> r = 95)"

definition line_end :: "nat \<Rightarrow> bool" where
  "line_end r = (r = 10 \<or> r = 13 \<or> r = 0x2028 \<or> r = 0x2029)"

type_synonym parts = "(nat \<times> string) list"

definition raw :: "parts \<Rightarrow> string" where "raw ps = concat (map snd ps)"

text \<open>The rest of a quoted string, up to and with its closing quote.\<close>

fun quoted_rest :: "parts \<Rightarrow> (parts \<times> parts) option" where
  "quoted_rest [] = None"
| "quoted_rest (p # ps) =
     (if fst p = 34 then Some ([p], ps)
      else if fst p = 92 then
        (case ps of
           [] \<Rightarrow> None
         | q # qs \<Rightarrow> if line_end (fst q) then None
                    else map_option (\<lambda>(a, b). (p # q # a, b)) (quoted_rest qs))
      else map_option (\<lambda>(a, b). (p # a, b)) (quoted_rest ps))"

text \<open>One match of the pattern at a rune that is no white space: the token and what follows it.\<close>

definition one_token :: "parts \<Rightarrow> parts \<times> parts" where
  "one_token ps =
     (let word = (takeWhile (\<lambda>p. word_rune (fst p)) ps, dropWhile (\<lambda>p. word_rune (fst p)) ps);
          other = (takeWhile (\<lambda>p. \<not> word_rune (fst p)) ps, dropWhile (\<lambda>p. \<not> word_rune (fst p)) ps)
      in if word_rune (fst (hd ps)) then word
         else if fst (hd ps) = 34 then
           (case quoted_rest (tl ps) of Some (a, b) \<Rightarrow> (hd ps # a, b) | None \<Rightarrow> other)
         else other)"

lemma quoted_rest_length: "quoted_rest ps = Some (a, b) \<Longrightarrow> length b < length ps"
  by (induction ps arbitrary: a b rule: quoted_rest.induct) (fastforce split: if_splits list.splits)+

lemma one_token_length: "ps \<noteq> [] \<Longrightarrow> length (snd (one_token ps)) < length ps"
proof (cases ps)
  case (Cons p qs)
  have "length (dropWhile Q qs) < Suc (length qs)" for Q :: "nat \<times> string \<Rightarrow> bool"
    using length_dropWhile_le [of Q qs] by simp
  then show ?thesis
    using Cons quoted_rest_length [of qs] by (fastforce simp: one_token_def Let_def split: option.splits)
qed simp

text \<open>All matches, each with the white space around it; white space at the end matches by itself.\<close>

function getx_lex :: "parts \<Rightarrow> string list" where
  "getx_lex ps =
     (let rest = dropWhile (\<lambda>p. js_space (fst p)) ps
      in if ps = [] then []
         else if rest = [] then [snd (last ps)]
         else let (tok, more) = one_token rest
              in raw tok # getx_lex (dropWhile (\<lambda>p. js_space (fst p)) more))"
  by pat_completeness auto
termination
proof (relation "measure length", goal_cases)
  case (2 ps rest x tok more)
  have "length (dropWhile (\<lambda>p. js_space (fst p)) more) \<le> length more" "length rest \<le> length ps"
    using 2(1) by (simp_all add: length_dropWhile_le)
  moreover have "length more < length rest" using one_token_length [OF 2(3)] 2(4,5) by (metis snd_conv)
  ultimately show ?case by simp
qed simp

declare getx_lex.simps [simp del]

definition jsUnquote :: "string \<Rightarrow> string" where
  "jsUnquote tok =
     (if 3 \<le> length tok \<and> hd tok = CHR 0x22 \<and> last tok = CHR 0x22 \<and> CHR 0x22 \<notin> set (butlast (tl tok))
      then butlast (tl tok) else tok)"

definition getxTokenizeRE :: "string \<Rightarrow> string list" where
  "getxTokenizeRE p =
     map jsUnquote
       (filter (\<lambda>tok. CHR ''.'' \<notin> set tok \<and> \<not> list_ex js_space (runes tok)) (getx_lex (rune_parts p)))"

definition word_char :: "char \<Rightarrow> bool" where "word_char c = word_rune (byte c)"

text \<open>The common path of ASCII word characters, dots and spaces.\<close>

definition getxTokenizePlain :: "string \<Rightarrow> string list option" where
  "getxTokenizePlain p =
     (if list_all (\<lambda>c. word_char c \<or> c = CHR ''.'' \<or> c = CHR '' '') p
      then Some (filter (\<lambda>w. w \<noteq> []) (split_by (\<lambda>c. \<not> word_char c) p)) else None)"

text \<open>The cache, which is emptied when full.\<close>

definition getxTokenCacheMax :: nat where "getxTokenCacheMax = 1000"

type_synonym token_cache = "(string \<times> string list) list"

definition getxTokenize :: "token_cache \<Rightarrow> string \<Rightarrow> token_cache \<times> string list" where
  "getxTokenize cache p =
     (case getxTokenizePlain p of
        Some toks \<Rightarrow> (cache, toks)
      | None \<Rightarrow>
          (case map_of cache p of
             Some toks \<Rightarrow> (cache, toks)
           | None \<Rightarrow>
               let toks = getxTokenizeRE p
               in ((p, toks) # (if getxTokenCacheMax \<le> length cache then [] else cache), toks)))"

section \<open>The walk\<close>

definition getxStep :: "jval \<Rightarrow> string \<Rightarrow> jval" where
  "getxStep node key = (case jsProp node key of Some v \<Rightarrow> v | None \<Rightarrow> Undefined)"

definition getxIsCompareOp :: "string \<Rightarrow> bool" where
  "getxIsCompareOp t = (t \<in> {''='', ''!='', ''<'', ''<='', ''>'', ''>='', ''=='', ''~''})"

definition getxIsIdent :: "string \<Rightarrow> bool" where "getxIsIdent t = list_ex word_char t"

definition getxArg :: "string \<Rightarrow> jval" where
  "getxArg tok = (if tok = ''true'' then Bool True else if tok = ''false'' then Bool False else Str (jsUnquote tok))"

definition isUndefined :: "jval \<Rightarrow> bool" where "isUndefined v = (case v of Undefined \<Rightarrow> True | _ \<Rightarrow> False)"

definition getxCompare :: "(string \<Rightarrow> regex option) \<Rightarrow> jval \<Rightarrow> string \<Rightarrow> jval \<Rightarrow> bool" where
  "getxCompare compile val op arg =
     (if op = ''<'' then (case jsLessThan val arg of (lt, undef) \<Rightarrow> \<not> undef \<and> lt)
      else if op = ''>'' then (case jsLessThan arg val of (lt, undef) \<Rightarrow> \<not> undef \<and> lt)
      else if op = ''<='' then (case jsLessThan arg val of (lt, undef) \<Rightarrow> \<not> undef \<and> \<not> lt)
      else if op = ''>='' then (case jsLessThan val arg of (lt, undef) \<Rightarrow> \<not> undef \<and> \<not> lt)
      else if op = ''='' then jsLooseEqual val arg
      else if op = ''=='' then jsStrictEqual val arg
      else if op = ''!='' then \<not> jsLooseEqual val arg
      else if op = ''~'' then
        (case compile (if isUndefined arg then ''(?:)'' else jsString arg) of
           None \<Rightarrow> False
         | Some re \<Rightarrow> re_match re (jsString val))
      else False)"

text \<open>How many of the tokens after a \<^verbatim>\<open>?\<close> belong to the filter: up to the first of two adjacent
  identifiers.\<close>

fun filter_end :: "string list \<Rightarrow> nat" where
  "filter_end [] = 0"
| "filter_end [t] = 1"
| "filter_end (t # u # ts) = (if getxIsIdent t \<and> getxIsIdent u then 1 else Suc (filter_end (u # ts)))"

text \<open>The loop of \<^verbatim>\<open>getxWalk\<close> from the current token on, and \<^verbatim>\<open>GetX\<close> of a list of tokens.\<close>

definition indexable :: "jval \<Rightarrow> bool" where
  "indexable v = (case v of Obj a m \<Rightarrow> True | Arr t a xs \<Rightarrow> True | _ \<Rightarrow> False)"

definition nil_of :: "jval \<Rightarrow> jval" where "nil_of v = (if isUndefined v then Null else v)"

text \<open>\<open>keep\<close> is the test of a child: that the filter's path resolves in it.\<close>

definition getxFilter :: "(jval \<Rightarrow> bool) \<Rightarrow> jval \<Rightarrow> jval" where
  "getxFilter keep node = (case node of
     Obj a m \<Rightarrow> Obj 0 (filter (\<lambda>kv. keep (snd kv)) m)
   | Arr t a xs \<Rightarrow> Arr AnySlice 0 (filter keep xs)
   | _ \<Rightarrow> Undefined)"

function walk :: "(string \<Rightarrow> regex option) \<Rightarrow> string list \<Rightarrow> jval \<Rightarrow> jval \<Rightarrow> bool \<Rightarrow> jval" where
  "walk compile [] node out anc = out"
| "walk compile (t0 # ts) node out anc =
     (if isUndefined node then out
      else if ts \<noteq> [] \<and> getxIsCompareOp (hd ts) then
        let val = getxStep node t0;
            arg = (if tl ts \<noteq> [] then getxArg (hd (tl ts)) else Undefined);
            yes = getxCompare compile val (hd ts) arg;
            node' = (if yes then node else Undefined);
            out' = (if anc \<and> yes then out else node')
        in walk compile (if yes then drop 2 ts else ts) node' out' anc
      else if ts \<noteq> [] \<and> hd ts = '':'' then
        (if tl ts \<noteq> [] \<and> hd (tl ts) = ''='' then walk compile (tl ts) node out True
         else
           let out1 = (if \<not> anc then node else out); node' = getxStep node t0
           in walk compile (tl ts) node' (if isUndefined node' then Undefined else out1) True)
      else if t0 = ''?'' then
        let k = filter_end ts; ftokens = take k ts;
            node' = getxFilter (\<lambda>c. indexable c \<and> \<not> js_nil (walk compile ftokens c Undefined False)) node
        in walk compile (drop k ts) node' node' anc
      else if ts \<noteq> [] then
        let node1 = getxStep node t0
        in if anc then
             let out' = (if isUndefined node1 then Undefined else out) in walk compile ts out' out' False
           else walk compile ts node1 out anc
      else
        let node' = getxStep node t0
        in if anc \<and> \<not> isUndefined node' then out else node')"
  by pat_completeness auto
termination by (relation "measure (\<lambda>(compile, ts, _). length ts)") auto

declare walk.simps [simp del]

definition getxWalk :: "(string \<Rightarrow> regex option) \<Rightarrow> jval \<Rightarrow> string list \<Rightarrow> jval" where
  "getxWalk compile obj tokens = walk compile tokens obj Undefined False"

definition getx_tokens :: "(string \<Rightarrow> regex option) \<Rightarrow> jval \<Rightarrow> string list \<Rightarrow> jval" where
  "getx_tokens compile obj tokens = (if indexable obj then nil_of (getxWalk compile obj tokens) else Null)"

text \<open>The path is text, a list of tokens, or a list of values; the tokens of a text do not depend on
  the state of the cache (see \<open>cache_ok\<close>), which is left out here.\<close>

definition GetX :: "(string \<Rightarrow> regex option) \<Rightarrow> jval \<Rightarrow> jval \<Rightarrow> jval" where
  "GetX compile obj path =
     (if \<not> indexable obj then Null
      else (case path of
         Str p \<Rightarrow> getx_tokens compile obj (snd (getxTokenize [] p))
       | Arr t a xs \<Rightarrow> (if t = StringSlice \<or> t = AnySlice then getx_tokens compile obj (map jsString xs) else Null)
       | _ \<Rightarrow> Null))"

text \<open>\<^verbatim>\<open>Get\<close>: plain steps along the dots.\<close>

fun get_steps :: "jval \<Rightarrow> string list \<Rightarrow> jval" where
  "get_steps node [] = node"
| "get_steps node (p # ps) =
     (case node of
        Null \<Rightarrow> Null
      | _ \<Rightarrow> (case jsProp node p of None \<Rightarrow> Null | Some v \<Rightarrow> get_steps v ps))"

definition Get :: "jval \<Rightarrow> string \<Rightarrow> jval" where
  "Get obj path = get_steps obj (split_by (\<lambda>c. c = CHR ''.'') path)"

section \<open>The two tokenizers agree\<close>

text \<open>On ASCII text the runes are the bytes.\<close>

definition ascii_parts :: "string \<Rightarrow> parts" where "ascii_parts s = map (\<lambda>c. (byte c, [c])) s"

lemma ascii_rune_parts: "list_all (\<lambda>c. byte c < 128) s \<Longrightarrow> rune_parts s = ascii_parts s"
proof (induction s)
  case Nil
  then show ?case by (simp add: rune_parts.simps ascii_parts_def)
next
  case (Cons c s)
  then have "decode_rune (c # s) = (byte c, 1)" by (simp add: decode_rune_def)
  then show ?case using Cons by (simp add: rune_parts.simps [of "c # s"] ascii_parts_def)
qed

lemma ascii_parts_simps [simp]:
  "ascii_parts [] = []" "ascii_parts (c # s) = (byte c, [c]) # ascii_parts s"
  "(ascii_parts s = []) = (s = [])" "raw (ascii_parts s) = s"
  by (simp_all add: ascii_parts_def raw_def comp_def)

lemma ascii_parts_while:
  "takeWhile (\<lambda>p. Q (fst p)) (ascii_parts s) = ascii_parts (takeWhile (\<lambda>c. Q (byte c)) s)"
  "dropWhile (\<lambda>p. Q (fst p)) (ascii_parts s) = ascii_parts (dropWhile (\<lambda>c. Q (byte c)) s)"
  by (simp_all add: ascii_parts_def takeWhile_map dropWhile_map comp_def)

definition words_of :: "string \<Rightarrow> string list" where
  "words_of s = filter (\<lambda>w. w \<noteq> []) (split_by (\<lambda>c. \<not> word_char c) s)"

lemma words_of_sep [simp]: "\<not> word_char c \<Longrightarrow> words_of (c # s) = words_of s"
  by (simp add: words_of_def)

lemma words_of_Nil [simp]: "words_of [] = []"
  by (simp add: words_of_def)

lemma words_of_drop: "(\<And>c. Q c \<Longrightarrow> \<not> word_char c) \<Longrightarrow> words_of (dropWhile Q s) = words_of s"
  by (induction s) auto

lemma words_of_word:
  "list_all word_char w \<Longrightarrow> w \<noteq> [] \<Longrightarrow> s = [] \<or> \<not> word_char (hd s) \<Longrightarrow> words_of (w @ s) = w # words_of s"
proof (cases s)
  case Nil
  assume "list_all word_char w" "w \<noteq> []"
  then show ?thesis using Nil by (auto simp: words_of_def list_all_iff split_by_plain)
next
  case (Cons d t)
  assume "list_all word_char w" "w \<noteq> []" "s = [] \<or> \<not> word_char (hd s)"
  then show ?thesis using Cons by (auto simp: words_of_def list_all_iff split_by_sep)
qed

definition plain_char :: "char \<Rightarrow> bool" where
  "plain_char c = (word_char c \<or> c = CHR ''.'' \<or> c = CHR '' '')"

lemma word_char_bounds: "word_char c \<Longrightarrow> byte c < 128 \<and> \<not> js_space (byte c) \<and> byte c \<noteq> 34 \<and> byte c \<noteq> 46"
  by (auto simp: word_char_def word_rune_def js_space_def)

lemma plain_char_byte: "plain_char c \<Longrightarrow> byte c < 128"
  using word_char_bounds [of c] by (auto simp: plain_char_def)

lemma plain_space: "plain_char c \<Longrightarrow> js_space (byte c) = (c = CHR '' '')"
  using word_char_bounds [of c] by (auto simp: plain_char_def js_space_def)

text \<open>The tokens that \<open>getxTokenizeRE\<close> keeps.\<close>

definition keeps_token :: "string \<Rightarrow> bool" where
  "keeps_token tok = (CHR ''.'' \<notin> set tok \<and> \<not> list_ex js_space (runes tok))"

lemma keeps_word: "list_all word_char w \<Longrightarrow> keeps_token w \<and> jsUnquote w = w"
proof -
  assume w: "list_all word_char w"
  have b: "byte c < 128 \<and> \<not> js_space (byte c) \<and> byte c \<noteq> 34 \<and> byte c \<noteq> 46" if "c \<in> set w" for c
    using w that word_char_bounds by (simp add: list_all_iff)
  have "runes w = map byte w"
    using b ascii_rune_parts [of w] by (simp add: runes_def list_all_iff ascii_parts_def comp_def)
  moreover have "CHR ''.'' \<notin> set w" using b by fastforce
  moreover have "w \<noteq> [] \<Longrightarrow> hd w \<noteq> CHR 0x22" using b [of "hd w"] by auto
  ultimately show ?thesis using b by (cases "w = []") (auto simp: keeps_token_def jsUnquote_def list_ex_iff)
qed

lemma lex_plain:
  "list_all plain_char s \<Longrightarrow> map jsUnquote (filter keeps_token (getx_lex (ascii_parts s))) = words_of s"
proof (induction s rule: length_induct)
  case (1 s)
  let ?sp = "\<lambda>c. js_space (byte c)"
  let ?r = "dropWhile ?sp s"
  have plain_drop: "list_all plain_char (dropWhile Q t)" if "list_all plain_char t" for Q t
    using that set_dropWhileD by (force simp: list_all_iff)
  have same: "words_of ?r = words_of s"
    by (rule words_of_drop) (use word_char_bounds in blast)
  have lex: "getx_lex (ascii_parts s) = (if s = [] then [] else if ?r = [] then [[last s]]
      else let (tok, more) = one_token (ascii_parts ?r)
           in raw tok # getx_lex (dropWhile (\<lambda>p. js_space (fst p)) more))"
    by (subst getx_lex.simps) (simp add: ascii_parts_while Let_def, simp add: ascii_parts_def last_map)
  have step: "getx_lex (ascii_parts s) = w # getx_lex (dropWhile (\<lambda>p. js_space (fst p)) (ascii_parts u))"
    if "s \<noteq> []" "?r \<noteq> []" "one_token (ascii_parts ?r) = (ascii_parts w, ascii_parts u)" for w u
    unfolding lex using that by (simp del: dropWhile_eq_Nil_conv)
  show ?case
  proof (cases "s = [] \<or> ?r = []")
    case True
    have "words_of s = []" if "?r = []" using same that by simp
    moreover have "\<not> keeps_token [last s]" if "s \<noteq> []" "?r = []"
    proof -
      have "last s = CHR '' ''" using that 1(2) plain_space by (auto simp: dropWhile_eq_Nil_conv list_all_iff)
      then show ?thesis by (simp add: keeps_token_def runes_def ascii_rune_parts js_space_def)
    qed
    ultimately show ?thesis using True lex by (auto simp del: dropWhile_eq_Nil_conv)
  next
    case False
    then obtain c t where r: "?r = c # t" by (cases ?r) auto
    have "list_all plain_char (c # t)" using plain_drop [OF 1(2), of ?sp] by (simp add: r)
    moreover have "\<not> js_space (byte c)" using hd_dropWhile [of ?sp s] False by (simp add: r)
    ultimately have c: "plain_char c" "c \<noteq> CHR '' ''" using plain_space by (auto simp: js_space_def)
    have next_part: "map jsUnquote (filter keeps_token (getx_lex (dropWhile (\<lambda>p. js_space (fst p)) (ascii_parts u)))) = words_of u"
      if "u = dropWhile Q (c # t)" "Q c" for Q u
    proof -
      let ?v = "dropWhile ?sp u"
      have "length u \<le> length t" using that by (simp add: length_dropWhile_le)
      moreover have "Suc (length t) \<le> length s" using length_dropWhile_le [of ?sp s] by (simp add: r)
      moreover have "length ?v \<le> length u" by (rule length_dropWhile_le)
      ultimately have "length ?v < length s" by simp
      moreover have "list_all plain_char ?v"
        using plain_drop [OF plain_drop [OF \<open>list_all plain_char (c # t)\<close>]] that(1) by simp
      ultimately have "map jsUnquote (filter keeps_token (getx_lex (ascii_parts ?v))) = words_of ?v"
        using 1(1) by blast
      moreover have "words_of ?v = words_of u" by (rule words_of_drop) (use word_char_bounds in blast)
      ultimately show ?thesis by (simp add: ascii_parts_while)
    qed
    show ?thesis
    proof (cases "word_char c")
      case True
      let ?w = "takeWhile word_char (c # t)" and ?u = "dropWhile word_char (c # t)"
      have tok: "one_token (ascii_parts ?r) = (ascii_parts ?w, ascii_parts ?u)"
        using True unfolding one_token_def Let_def ascii_parts_while by (simp add: r word_char_def [symmetric])
      have w: "list_all word_char ?w" "?w \<noteq> []" using True set_takeWhileD by (force simp: list_all_iff)+
      have "words_of s = words_of (?w @ ?u)" using same by (simp add: r)
      also have "\<dots> = ?w # words_of ?u"
        by (rule words_of_word [OF w]) (use hd_dropWhile [of word_char "c # t"] in blast)
      finally show ?thesis
        using step [OF _ _ tok] \<open>\<not> (s = [] \<or> ?r = [])\<close> next_part [of ?u word_char] True keeps_word [OF w(1)]
        by (simp del: dropWhile_eq_Nil_conv takeWhile.simps dropWhile.simps)
    next
      case False
      then have dot: "c = CHR ''.''" using c by (simp add: plain_char_def)
      let ?o = "\<lambda>c. \<not> word_char c"
      let ?w = "takeWhile ?o (c # t)" and ?u = "dropWhile ?o (c # t)"
      have tok: "one_token (ascii_parts ?r) = (ascii_parts ?w, ascii_parts ?u)"
        using False ascii_parts_while [of "\<lambda>n. \<not> word_rune n" t] unfolding one_token_def Let_def
        by (simp add: r dot word_char_def)
      have "\<not> keeps_token ?w" using False dot by (simp add: keeps_token_def)
      moreover have "words_of s = words_of ?u" using same words_of_drop [of ?o "c # t"] by (simp add: r)
      ultimately show ?thesis
        using step [OF _ _ tok] \<open>\<not> (s = [] \<or> ?r = [])\<close> next_part [of ?u ?o] False
        by (simp del: dropWhile_eq_Nil_conv takeWhile.simps dropWhile.simps)
    qed
  qed
qed

lemma plain_tokens: "getxTokenizePlain p = Some toks \<Longrightarrow> getxTokenizeRE p = toks"
proof -
  assume "getxTokenizePlain p = Some toks"
  then have p: "list_all plain_char p" "toks = words_of p"
    by (auto simp: getxTokenizePlain_def plain_char_def [abs_def] words_of_def split: if_splits)
  then have "rune_parts p = ascii_parts p"
    using plain_char_byte by (intro ascii_rune_parts) (auto simp: list_all_iff)
  then show ?thesis using lex_plain [OF p(1)] p(2) by (simp add: getxTokenizeRE_def keeps_token_def [abs_def])
qed

section \<open>The cache\<close>

text \<open>Every entry of the cache is the pattern's answer, and there are at most \<open>getxTokenCacheMax\<close>.\<close>

definition cache_ok :: "token_cache \<Rightarrow> bool" where
  "cache_ok cache =
     (length cache \<le> getxTokenCacheMax \<and> (\<forall>(p, toks) \<in> set cache. toks = getxTokenizeRE p))"

text \<open>C40: whatever paths were tokenized before, the tokenizer answers with exactly the tokens of
  \<^verbatim>\<open>getxTokenRE\<close>: neither the shortcut for the common paths nor the cache changes what a path means,
  and the cache stays within its bound.\<close>

theorem tokenize_agrees:
  assumes "cache_ok cache"
  shows "cache_ok (fst (getxTokenize cache p)) \<and> snd (getxTokenize cache p) = getxTokenizeRE p"
  using assms plain_tokens
  by (auto simp: cache_ok_def getxTokenize_def getxTokenCacheMax_def Let_def dest!: map_of_SomeD split: option.split)

theorem tokenize_agrees_witness:
  "snd (getxTokenize (fst (getxTokenize [] ''a ?'')) ''a ?'') = getxTokenizeRE ''a ?''"
proof -
  have "cache_ok []" by (simp add: cache_ok_def)
  from tokenize_agrees [OF this, of "''a ?''"] have "cache_ok (fst (getxTokenize [] ''a ?''))" by simp
  from tokenize_agrees [OF this, of "''a ?''"] show ?thesis by simp
qed

end
