(* ===== verification/Template.thy ===== *)
theory Template
  imports Getx Comp "HOL-Library.AList" "HOL-Library.List_Lexorder" "HOL-Library.Char_ord"
begin

text \<open>
  The template engine (\<^verbatim>\<open>go/template.go\<close>): how the pattern of a template is assembled from the
  delimiters and the replace keys, how it is cached, how a match is turned into text, and the loop
  over the matches. Go's \<^verbatim>\<open>regexp\<close> is the argument \<open>compile\<close>: a compiled pattern is its source, the
  names of its groups and its \<^verbatim>\<open>FindStringSubmatchIndex\<close>, whose offsets are -1 for a group that took
  no part. The callbacks of a caller (replace functions, the segment handler) change a state that
  begins with the package's two caches.
\<close>

record tre =
  tr_source :: string
  tr_names :: "string list"
  tr_find :: "string \<Rightarrow> (int \<times> int) list option"

type_synonym re_compile = "string \<Rightarrow> string + tre"

text \<open>\<^verbatim>\<open>FindStringIndex\<close>: the first pair of offsets.\<close>

definition first_loc :: "tre \<Rightarrow> string \<Rightarrow> (int \<times> int) option" where
  "first_loc re s = (case tr_find re s of None \<Rightarrow> None | Some [] \<Rightarrow> None | Some (l # ls) \<Rightarrow> Some l)"

text \<open>\<^verbatim>\<open>regexp.Compile\<close> as the callers that want no groups use it.\<close>

definition regex_of :: "re_compile \<Rightarrow> string \<Rightarrow> regex option" where
  "regex_of compile p = (case compile p of
     Inl e \<Rightarrow> None
   | Inr re \<Rightarrow> Some \<lparr>re_source = tr_source re, re_index = first_loc re\<rparr>)"

type_synonym groups = "(string \<times> string) list"

text \<open>What a replace key stands for: the kinds of function \<^verbatim>\<open>invokeReplace\<close> calls, which may panic, or a
  value.\<close>

datatype 's rval =
    RFunc "groups \<Rightarrow> string \<Rightarrow> 's \<Rightarrow> 's \<times> (error + string)"
  | RAny "'s \<Rightarrow> 's \<times> (error + jval)"
  | RText "'s \<Rightarrow> 's \<times> (error + string)"
  | RVal jval

record 's TemplateSpec =
  ts_Replace :: "(string \<times> 's rval) list"
  ts_Eject :: jval
  ts_Open :: string
  ts_Close :: string
  ts_Ref :: string
  ts_Insert :: "tre option"
  ts_Handle :: "(string \<Rightarrow> ('s, unit) comp) option"

text \<open>A nil \<^verbatim>\<open>*TemplateSpec\<close> is the empty one.\<close>

definition no_spec :: "'s TemplateSpec" where
  "no_spec = \<lparr>ts_Replace = [], ts_Eject = Null, ts_Open = [], ts_Close = [], ts_Ref = [],
     ts_Insert = None, ts_Handle = None\<rparr>"

section \<open>The keys of a replace map\<close>

definition line_break :: "string \<Rightarrow> bool" where
  "line_break s = list_ex line_end (runes s)"

text \<open>The text between two delimiters of one byte, when there is at least one and no line ends in it.\<close>

definition delimited :: "char \<Rightarrow> string \<Rightarrow> string option" where
  "delimited d s =
     (if length s < 3 \<or> hd s \<noteq> d \<or> last s \<noteq> d then None
      else let inner = butlast (tl s) in if line_break inner then None else Some inner)"

definition quotedRef :: "string \<Rightarrow> string option" where "quotedRef s = delimited QUOTE s"

definition isRegexKey :: "string \<Rightarrow> bool" where "isRegexKey k = (delimited SLASH k \<noteq> None)"

definition is_upper :: "char \<Rightarrow> bool" where "is_upper c = (65 \<le> byte c \<and> byte c \<le> 90)"
definition is_alnum :: "char \<Rightarrow> bool" where "is_alnum c = (word_char c \<and> c \<noteq> CHR ''_'')"

text \<open>\<^verbatim>\<open>tagKeyRE\<close>: the tag and the part from the dash on.\<close>

definition tag_parts :: "string \<Rightarrow> (string \<times> string) option" where
  "tag_parts k = (case k of
     [] \<Rightarrow> None
   | c # s \<Rightarrow>
       let tag = takeWhile is_alnum s; dash = dropWhile is_alnum s
       in if c \<noteq> CHR ''#'' \<or> tag = [] then None
          else (case dash of
             [] \<Rightarrow> Some (tag, [])
           | m # d \<Rightarrow>
               if m = CHR ''-'' \<and> 2 \<le> length d \<and> is_upper (hd d) \<and>
                  list_all (\<lambda>c. is_alnum c \<and> \<not> is_upper c) (tl d) then Some (tag, dash) else None))"

definition isTagKey :: "string \<Rightarrow> bool" where "isTagKey k = (tag_parts k \<noteq> None)"

text \<open>\<^verbatim>\<open>regexp.QuoteMeta\<close>.\<close>

definition quote_meta :: "string \<Rightarrow> string" where
  "quote_meta s = concat (map (\<lambda>c. if c \<in> set ''.+*?()|[]{}^$'' \<or> c = BSLASH then [BSLASH, c] else [c]) s)"

definition EscRE :: "string \<Rightarrow> string" where "EscRE s = quote_meta s"

fun idenstr_loop :: "nat list \<Rightarrow> bool \<Rightarrow> string" where
  "idenstr_loop [] run = []"
| "idenstr_loop (r # rs) run =
     (if word_rune r \<and> r \<noteq> 95 then char_of r # idenstr_loop rs False
      else if run then idenstr_loop rs True
      else CHR ''_'' # idenstr_loop rs True)"

definition idenstrTemplate :: "string \<Rightarrow> string" where
  "idenstrTemplate s = idenstr_loop (runes s) False"

text \<open>\<^verbatim>\<open>replaceKeyOrder\<close>: one total order on the keys. The sort is stable.\<close>

definition key_rank :: "string \<Rightarrow> nat" where
  "key_rank k = (if has_prefix k ''#'' \<and> CHR ''-'' \<in> set k then 0 else 1)"

definition key_before :: "string \<Rightarrow> string \<Rightarrow> bool" where
  "key_before a b =
     (if key_rank a \<noteq> key_rank b then key_rank a < key_rank b
      else if utf16Len a \<noteq> utf16Len b then utf16Len b < utf16Len a
      else jsLess a b)"

definition sortReplaceKeys :: "string list \<Rightarrow> string list" where
  "sortReplaceKeys ks = sort_by key_before ks"

text \<open>\<^verbatim>\<open>sort.Strings\<close> is HOL's sort on lists of bytes.\<close>

definition sortedKeysJoin :: "string list \<Rightarrow> string" where
  "sortedKeysJoin ks = join_with [CHR 0x00] (sort ks)"

section \<open>The assembled pattern\<close>

text \<open>\<^verbatim>\<open>unsupportedLookRE\<close>: a look-around occurs.\<close>

fun has_look :: "string \<Rightarrow> bool" where
  "has_look [] = False"
| "has_look (c # s) =
     (has_prefix (c # s) ''(?!'' \<or> has_prefix (c # s) ''(?='' \<or> has_prefix (c # s) ''(?<!'' \<or>
      has_prefix (c # s) ''(?<='' \<or> has_look s)"

text \<open>\<^verbatim>\<open>userGroupRE\<close> at the start of a text: the name of the group, and what follows.\<close>

definition user_group :: "string \<Rightarrow> (string \<times> string) option" where
  "user_group s =
     (let body = (if has_prefix s ''(?P<'' then Some (drop 4 s)
                  else if has_prefix s ''(?<'' then Some (drop 3 s) else None)
      in (case body of
            None \<Rightarrow> None
          | Some b \<Rightarrow>
              let name = takeWhile word_char b; rest = dropWhile word_char b
              in if name = [] \<or> \<not> has_prefix rest ''>'' then None else Some (name, tl rest)))"

lemma user_group_length: "user_group s = Some (name, rest) \<Longrightarrow> length rest < length s"
  using length_dropWhile_le [of word_char "drop 4 s"] length_dropWhile_le [of word_char "drop 3 s"]
  by (cases s) (auto simp: user_group_def Let_def split: if_splits)

definition group_open :: "string \<Rightarrow> int \<Rightarrow> string \<Rightarrow> string" where
  "group_open kind n name = ''(?P<'' @ kind @ int_digits n @ ''_'' @ name @ ''>''"

function renameUserGroups :: "string \<Rightarrow> int \<Rightarrow> string \<times> int" where
  "renameUserGroups s n =
     (case user_group s of
        Some (name, rest) \<Rightarrow>
          (let (out, m) = renameUserGroups rest (n + 1) in (group_open ''J_N'' n name @ out, m))
      | None \<Rightarrow>
          (case s of
             [] \<Rightarrow> ([], n)
           | c # t \<Rightarrow> (let (out, m) = renameUserGroups t n in (c # out, m))))"
  by pat_completeness auto
termination
  by (relation "measure (\<lambda>(s, n). length s)") (auto dest: user_group_length)

declare renameUserGroups.simps [simp del]

text \<open>Here the class holds a real tab.\<close>

definition blanks :: string where "blanks = ''[ '' @ [TAB] @ '']*''"

definition buildTagRegex :: "string \<Rightarrow> string \<Rightarrow> int \<Rightarrow> string \<times> int" where
  "buildTagRegex tag dash n =
     (let front = group_open ''J_N'' n ''indent'' @ blanks @ '')'' @ [BSLASH, SLASH, BSLASH, SLASH] @ blanks @ ''#'';
          back = blanks @ [BSLASH] @ ''n?''
      in if dash = [] then (front @ group_open ''J_T'' (n + 1) ''TAG'' @ tag @ '')'' @ back, n + 2)
         else (front @ group_open ''J_T'' (n + 1) (tl dash) @ ''[A-Za-z0-9]+)'' @
                 ''-'' @ group_open ''J_N'' (n + 2) ''TAG'' @ tl dash @ '')'' @ back, n + 3))"

text \<open>The alternatives of the replace keys: their pattern, and the key each group stands for.\<close>

definition key_group :: "int \<Rightarrow> string \<Rightarrow> string" where
  "key_group n k = ''J_K'' @ int_digits n @ ''_'' @ idenstrTemplate k"

fun key_alternatives :: "string list \<Rightarrow> int \<Rightarrow> error + (string \<times> (string \<times> string) list)" where
  "key_alternatives [] n = Inr ([], [])"
| "key_alternatives (k # ks) n =
     (let gname = key_group n k;
          body = (case delimited SLASH k of
             Some inner \<Rightarrow> (if has_look inner then None else Some (renameUserGroups inner (n + 1)))
           | None \<Rightarrow>
               (case tag_parts k of
                  Some (tag, dash) \<Rightarrow> Some (buildTagRegex tag dash (n + 1))
                | None \<Rightarrow> Some (quote_meta k, n + 1)))
      in (case body of
            None \<Rightarrow> Inl (ErrLookbehind k)
          | Some (b, m) \<Rightarrow>
              (case key_alternatives ks m of
                 Inl e \<Rightarrow> Inl e
               | Inr (alts, gk) \<Rightarrow> Inr (''|(?P<'' @ gname @ ''>'' @ b @ '')'' @ alts, (gname, k) # gk))))"

type_synonym template_re = "tre \<times> (string \<times> string) list"

definition buildTemplateRE ::
  "re_compile \<Rightarrow> string \<Rightarrow> string \<Rightarrow> string \<Rightarrow> string list \<Rightarrow> error + template_re" where
  "buildTemplateRE compile opn cls ref ks =
     (let front = ''(?P<J_O>'' @ opn @ '')(?P<J_R>'' @ ref @ '')(?P<J_C>'' @ cls @ '')''
      in (case key_alternatives (sortReplaceKeys (sortJS ks)) 1 of
            Inl e \<Rightarrow> Inl e
          | Inr (alts, gk) \<Rightarrow>
              (case compile (front @ alts) of
                 Inl e \<Rightarrow> Inl (ErrMsg (''template: failed to compile assembled regex: '' @ e))
               | Inr re \<Rightarrow> Inr (re, gk))))"

definition delimiters :: "'s TemplateSpec \<Rightarrow> string \<times> string \<times> string" where
  "delimiters spec =
     (if ts_Open spec \<noteq> [] then ts_Open spec else [BSLASH, CHR ''$'', BSLASH, CHR ''$''],
      if ts_Close spec \<noteq> [] then ts_Close spec else [BSLASH, CHR ''$'', BSLASH, CHR ''$''],
      if ts_Ref spec \<noteq> [] then ts_Ref spec else ''[^$]+'')"

section \<open>The caches\<close>

record caches =
  tc_templates :: "(string \<times> (error + template_re)) list"
  tc_ejects :: "(string \<times> regex) list"

definition templateCacheMax :: nat where "templateCacheMax = 100"

definition cache_key :: "string \<Rightarrow> string \<Rightarrow> string \<Rightarrow> string list \<Rightarrow> string" where
  "cache_key opn cls ref ks = opn @ [CHR 0x00] @ cls @ [CHR 0x00] @ ref @ [CHR 0x00] @ sortedKeysJoin ks"

definition getCachedTemplateRE ::
  "string \<Rightarrow> error + template_re \<Rightarrow> 'z caches_scheme \<Rightarrow> 'z caches_scheme \<times> (error + template_re)" where
  "getCachedTemplateRE key built s =
     (case map_of (tc_templates s) key of
        Some e \<Rightarrow> (s, e)
      | None \<Rightarrow>
          let kept = (if templateCacheMax \<le> length (tc_templates s) then [] else tc_templates s)
          in (s\<lparr>tc_templates := (key, built) # kept\<rparr>, built))"

section \<open>Eject\<close>

definition isNilMarker :: "jval \<Rightarrow> bool" where
  "isNilMarker m = (case m of Null \<Rightarrow> True | Regex None \<Rightarrow> True | _ \<Rightarrow> False)"

definition decomposeEject :: "jval \<Rightarrow> (jval \<times> jval) option" where
  "decomposeEject e = (case e of
     Arr t a (x # y # xs) \<Rightarrow> (if t = RegexpSlice then None else Some (x, y))
   | _ \<Rightarrow> None)"

definition js_blanks :: string where "js_blanks = ''[ '' @ [BSLASH] @ ''t]*''"

definition compileEjectMarker :: "re_compile \<Rightarrow> jval \<Rightarrow> ('z caches_scheme, regex option) comp" where
  "compileEjectMarker compile m = (case m of
     Null \<Rightarrow> ret None
   | Regex r \<Rightarrow> ret r
   | Str v \<Rightarrow> (\<lambda>s.
       case map_of (tc_ejects s) v of
         Some re \<Rightarrow> (s, Inr (Some re))
       | None \<Rightarrow>
           (case compile (js_blanks @ quote_meta v @ js_blanks @ [BSLASH] @ ''n?'') of
              Inl e \<Rightarrow> (s, Inl (ErrMsg e))
            | Inr tre \<Rightarrow>
                let re = \<lparr>re_source = tr_source tre, re_index = first_loc tre\<rparr>
                in (s\<lparr>tc_ejects := (v, re) # (if 100 \<le> length (tc_ejects s) then [] else tc_ejects s)\<rparr>,
                    Inr (Some re))))
   | _ \<Rightarrow> fail (ErrMsg ''eject marker: unsupported type''))"

definition marker_loc :: "regex option \<Rightarrow> string \<Rightarrow> (int \<times> int) option" where
  "marker_loc re src = (case re of None \<Rightarrow> None | Some r \<Rightarrow> re_index r src)"

text \<open>\<^verbatim>\<open>s[a:b]\<close>; None is a panic.\<close>

definition text_slice :: "string \<Rightarrow> int \<Rightarrow> int \<Rightarrow> string option" where
  "text_slice s a b =
     (if 0 \<le> a \<and> a \<le> b \<and> b \<le> int (length s) then Some (drop (nat a) (take (nat b) s)) else None)"

definition applyEject :: "re_compile \<Rightarrow> string \<Rightarrow> jval \<Rightarrow> ('z caches_scheme, string) comp" where
  "applyEject compile src e =
     (case decomposeEject e of
        None \<Rightarrow> ret src
      | Some (starts, ends) \<Rightarrow>
          if isNilMarker starts \<or> isNilMarker ends then ret src
          else
            bnd (compileEjectMarker compile starts) (\<lambda>startRE.
            bnd (compileEjectMarker compile ends) (\<lambda>endRE.
              let startIdx = (case marker_loc startRE src of None \<Rightarrow> 0 | Some l \<Rightarrow> snd l);
                  endIdx = (case marker_loc endRE src of None \<Rightarrow> int (length src) | Some l \<Rightarrow> fst l)
              in if endIdx < startIdx then ret src else or_panic (text_slice src startIdx endIdx))))"

section \<open>The text of a match\<close>

definition line_escape :: "nat \<Rightarrow> string option" where
  "line_escape r =
     (if r = 10 then Some [BSLASH, CHR ''n''] else if r = 13 then Some [BSLASH, CHR ''r'']
      else if r = 0x2028 then Some (BSLASH # ''u2028'') else if r = 0x2029 then Some (BSLASH # ''u2029'') else None)"

fun js_source :: "parts \<Rightarrow> bool \<Rightarrow> string" where
  "js_source [] inClass = []"
| "js_source ((r, p) # ps) inClass =
     (if r = 92 \<and> ps \<noteq> [] then
        (case ps of
           [] \<Rightarrow> []
         | (r', p') # qs \<Rightarrow>
             (case line_escape r' of Some e \<Rightarrow> e | None \<Rightarrow> p @ p') @ js_source qs inClass)
      else
        (case line_escape r of
           Some e \<Rightarrow> e @ js_source ps inClass
         | None \<Rightarrow>
             if r = 47 \<and> \<not> inClass then [BSLASH, SLASH] @ js_source ps inClass
             else p @ js_source ps (if r = 91 then True else if r = 93 then False else inClass)))"

definition jsRegexSource :: "string \<Rightarrow> string" where
  "jsRegexSource src = js_source (rune_parts src) False"

fun js_group_syntax :: "string \<Rightarrow> string" where
  "js_group_syntax (a # b # c # d # s) =
     (if [a, b, c, d] = ''(?P<'' then ''(?<'' @ js_group_syntax s else a # js_group_syntax (b # c # d # s))"
| "js_group_syntax s = s"

definition formatJSStyleRegex :: "tre \<Rightarrow> string" where
  "formatJSStyleRegex re = ''/'' @ jsRegexSource (js_group_syntax (tr_source re)) @ ''/''"

text \<open>\<^verbatim>\<open>*regexp.Regexp\<close> is a \<^verbatim>\<open>fmt.Stringer\<close>, whose method panics on a nil pointer.\<close>

definition formatReplaceValue :: "jval \<Rightarrow> string option" where
  "formatReplaceValue v = (case v of
     Null \<Rightarrow> Some []
   | Str s \<Rightarrow> Some s
   | Regex None \<Rightarrow> None
   | Regex (Some re) \<Rightarrow> Some (re_source re)
   | Obj a m \<Rightarrow> Some (jsJSON v)
   | Arr t a xs \<Rightarrow> Some (jsJSON v)
   | Undefined \<Rightarrow> Some (jsJSON v)
   | _ \<Rightarrow> Some (jsString v))"

definition formatValue :: "jval \<Rightarrow> string \<Rightarrow> string option" where
  "formatValue v fallback = (case v of Null \<Rightarrow> Some fallback | _ \<Rightarrow> formatReplaceValue v)"

definition is_nan :: "jval \<Rightarrow> bool" where
  "is_nan v = (case v of Num n \<Rightarrow> n = NaN | _ \<Rightarrow> False)"

definition resolveModelRef :: "re_compile \<Rightarrow> tre \<Rightarrow> jval \<Rightarrow> string \<Rightarrow> string \<Rightarrow> string option" where
  "resolveModelRef compile re model fullMatch ref =
     (case quotedRef ref of
        Some lit \<Rightarrow> Some lit
      | None \<Rightarrow>
          if ref = ''__JOSTRACA_REPLACE__'' then Some (formatJSStyleRegex re)
          else
            let val = GetX (regex_of compile) model (Str ref)
            in if is_nan val then Some fullMatch else formatValue val fullMatch)"

definition invokeReplace :: "'s rval \<Rightarrow> groups \<Rightarrow> string \<Rightarrow> ('s, string) comp" where
  "invokeReplace v groups match = (case v of
     RFunc f \<Rightarrow> f groups match
   | RAny f \<Rightarrow> bnd f (\<lambda>w. or_panic (formatReplaceValue w))
   | RText f \<Rightarrow> f
   | RVal w \<Rightarrow> (case w of RepFun t f \<Rightarrow> or_panic (f groups match) | _ \<Rightarrow> or_panic (formatReplaceValue w)))"

text \<open>\<^verbatim>\<open>userGroupNameRE\<close>: the stripped name.\<close>

definition user_group_name :: "string \<Rightarrow> string option" where
  "user_group_name k =
     (if \<not> (has_prefix k ''J_N'' \<or> has_prefix k ''J_T'') then None
      else
        let ds = takeWhile is_digit (drop 3 k); rest = dropWhile is_digit (drop 3 k)
        in if ds = [] \<or> length rest < 2 \<or> hd rest \<noteq> CHR ''_'' \<or> NL \<in> set (tl rest) then None
           else Some (tl rest))"

definition userGroupView :: "groups \<Rightarrow> string \<Rightarrow> groups" where
  "userGroupView groups match =
     foldl (\<lambda>out k.
       let v = (case map_of groups k of Some v \<Rightarrow> v | None \<Rightarrow> [])
       in if \<not> has_prefix k ''J_'' then AList.update k v out
          else (case user_group_name k of
             None \<Rightarrow> out
           | Some name \<Rightarrow>
               let out' = AList.update name v out
               in if has_prefix k ''J_T'' then AList.update ''name'' v out' else out'))
       [(''$&'', match)] (sortJS (map fst groups))"

fun named_loop :: "string list \<Rightarrow> (int \<times> int) list \<Rightarrow> string \<Rightarrow> groups \<Rightarrow> groups option" where
  "named_loop [] locs src out = Some out"
| "named_loop (n # ns) locs src out =
     (if n = [] then named_loop ns (tl locs) src out
      else (case locs of
         [] \<Rightarrow> None
       | (a, b) # ls \<Rightarrow>
           if a < 0 \<or> b < 0 then named_loop ns ls src out
           else (case text_slice src a b of None \<Rightarrow> None | Some t \<Rightarrow> named_loop ns ls src (AList.update n t out))))"

definition namedGroups :: "tre \<Rightarrow> string \<Rightarrow> (int \<times> int) list \<Rightarrow> groups option" where
  "namedGroups re src locs = named_loop (tr_names re) locs src []"

definition resolveMatch ::
  "re_compile \<Rightarrow> tre \<Rightarrow> jval \<Rightarrow> (string \<times> 's rval) list \<Rightarrow> (string \<times> string) list \<Rightarrow> string \<Rightarrow> groups
     \<Rightarrow> ('s, string) comp" where
  "resolveMatch compile re model replace gk match groups =
     (let empty = fail (ErrEmptyMatchRegex (formatJSStyleRegex re))
      in (case map_of groups ''J_R'' of
            Some ref \<Rightarrow> (if ref = [] then empty else or_panic (resolveModelRef compile re model match ref))
          | None \<Rightarrow>
              (case find (\<lambda>k. has_prefix k ''J_K'') (sortJS (map fst groups)) of
                 None \<Rightarrow> empty
               | Some k \<Rightarrow>
                   if map_of groups k = Some [] then empty
                   else
                     let key = (case map_of gk k of Some r \<Rightarrow> r | None \<Rightarrow> []);
                         val = (case map_of replace key of Some v \<Rightarrow> v | None \<Rightarrow> RVal Null)
                     in invokeReplace val (userGroupView groups match) match)))"

section \<open>The loop\<close>

text \<open>A segment goes to the caller's handler, or is appended to the result.\<close>

definition emit :: "(string \<Rightarrow> ('s, unit) comp) option \<Rightarrow> string \<Rightarrow> string \<Rightarrow> ('s, string) comp" where
  "emit handle sb seg = (case handle of None \<Rightarrow> ret (sb @ seg) | Some h \<Rightarrow> seq (h seg) (ret sb))"

text \<open>One match: the text before it, and what replaces it.\<close>

definition render_match ::
  "tre \<Rightarrow> (string \<Rightarrow> groups \<Rightarrow> ('s, string) comp) \<Rightarrow> (string \<Rightarrow> ('s, unit) comp) option \<Rightarrow> string
     \<Rightarrow> (int \<times> int) list \<Rightarrow> string \<Rightarrow> ('s, string) comp" where
  "render_match re resolve handle remain locs sb =
     bnd (or_panic (text_slice remain 0 (fst (hd locs)))) (\<lambda>lit.
     bnd (emit handle sb lit) (\<lambda>sb.
     bnd (or_panic (namedGroups re remain locs)) (\<lambda>groups.
     bnd (or_panic (text_slice remain (fst (hd locs)) (snd (hd locs)))) (\<lambda>match.
     bnd (resolve match groups) (\<lambda>ins. emit handle sb ins)))))"

text \<open>A match beyond the text makes the slicing panic; the last test only restates that it does not lie
  beyond it.\<close>

function render_loop ::
  "tre \<Rightarrow> (string \<Rightarrow> groups \<Rightarrow> ('s, string) comp) \<Rightarrow> (string \<Rightarrow> ('s, unit) comp) option \<Rightarrow> string \<Rightarrow> string
     \<Rightarrow> ('s, string) comp" where
  "render_loop re resolve handle remain sb s =
     (case tr_find re remain of
        None \<Rightarrow> emit handle sb remain s
      | Some [] \<Rightarrow> (s, Inl ErrPanic)
      | Some ((a, b) # locs) \<Rightarrow>
          if a = b then (s, Inl (ErrEmptyMatchRegex (formatJSStyleRegex re)))
          else
            (case render_match re resolve handle remain ((a, b) # locs) sb s of
               (t, Inl e) \<Rightarrow> (t, Inl e)
             | (t, Inr sb') \<Rightarrow>
                 if text_slice remain a b = None then (t, Inl ErrPanic)
                 else render_loop re resolve handle (drop (nat b) remain) sb' t))"
  by pat_completeness auto
termination
  by (relation "measure (\<lambda>(re, resolve, handle, remain, sb, s). length remain)")
    (auto simp: text_slice_def split: if_splits)

declare render_loop.simps [simp del]

definition Template ::
  "re_compile \<Rightarrow> string \<Rightarrow> jval \<Rightarrow> 'z caches_scheme TemplateSpec \<Rightarrow> ('z caches_scheme, string) comp" where
  "Template compile src model spec =
     bnd (applyEject compile src (ts_Eject spec)) (\<lambda>out.
     bnd (case ts_Insert spec of
            Some re \<Rightarrow> ret (re, [])
          | None \<Rightarrow>
              (case delimiters spec of (opn, cls, ref) \<Rightarrow>
                 let ks = map fst (ts_Replace spec)
                 in getCachedTemplateRE (cache_key opn cls ref ks) (buildTemplateRE compile opn cls ref ks))) (\<lambda>(re, gk).
     render_loop re (resolveMatch compile re model (ts_Replace spec) gk) (ts_Handle spec) out []))"

definition TemplateF :: "re_compile \<Rightarrow> string \<Rightarrow> jval \<Rightarrow> ('z caches_scheme, string) comp" where
  "TemplateF compile src model = Template compile src model no_spec"

definition TemplateR ::
  "re_compile \<Rightarrow> string \<Rightarrow> (string \<times> 'z caches_scheme rval) list \<Rightarrow> ('z caches_scheme, string) comp" where
  "TemplateR compile src replace = Template compile src Null (no_spec\<lparr>ts_Replace := replace\<rparr>)"

end
