(* ===== verification/Naming.thy ===== *)
theory Naming
  imports JsValue
begin

text \<open>
  The text helpers of \<^verbatim>\<open>go/util.go\<close>: indenting a block (\<^verbatim>\<open>Indent\<close>).
\<close>

section \<open>Indent\<close>

text \<open>The pad an \<^verbatim>\<open>ind\<close> argument stands for.\<close>

definition indent_pad :: "jval \<Rightarrow> string" where
  "indent_pad ind = (case ind of
     Null \<Rightarrow> ''  ''
   | Str s \<Rightarrow> s
   | GoInt i \<Rightarrow> replicate (nat i) (CHR '' '')
   | Num n \<Rightarrow> (case n of Fin q \<Rightarrow> (if q < 1 then [] else replicate (nat \<lfloor>q\<rfloor>) (CHR '' '')) | _ \<Rightarrow> [])
   | v \<Rightarrow> jsString v)"

text \<open>The walk over the bytes: a newline that is not the last byte is followed by the pad.\<close>

fun indent_loop :: "string \<Rightarrow> string \<Rightarrow> string" where
  "indent_loop pd [] = []"
| "indent_loop pd (c # s) = (if c = NL \<and> s \<noteq> [] then c # pd @ indent_loop pd s else c # indent_loop pd s)"

definition Indent :: "string \<Rightarrow> jval \<Rightarrow> string" where
  "Indent src ind =
     (if src = [] then src
      else
        let pd = indent_pad ind
        in if pd = [] then src
           else (if hd src \<noteq> NL \<or> length src = 1 then pd else []) @ indent_loop pd src)"

end
