(* ===== verification/Build.thy ===== *)
theory Build
  imports FileHandler Naming
begin

text \<open>
  The build phase (\<^verbatim>\<open>go/build.go\<close>, with the state of \<^verbatim>\<open>go/buildctx.go\<close> and the nodes of
  \<^verbatim>\<open>go/node.go\<close>): the walk \<^verbatim>\<open>step\<close> over the tree of the define phase and the operations it
  dispatches to. An operation that writes fields of its node gives the node back, so \<open>step\<close> gives
  the tree with its contents filled in. A \<^verbatim>\<open>*Node\<close> kept in the context is the node's path. The
  template engine is an argument, \<open>b_template\<close>, which gets the source and the replace map.
\<close>

datatype Kind =
    KindNone | KindProject | KindFolder | KindFile | KindContent | KindCopy | KindInject
  | KindFragment | KindSlot
  | KindOther   \<comment> \<open>a value outside the dispatch table\<close>

datatype AfterRef = AfterCopy | AfterFile | AfterExcluded

record folderRef =
  fr_node :: "string list option"
  fr_path :: "string list"
  fr_parent :: string

record NodeData =
  n_Kind :: Kind
  n_Name :: string
  n_Path :: "string list"
  n_FullPath :: string
  n_Folder :: string
  n_From :: string
  n_Indent :: jval
  n_Exclude :: jval
  n_Mode :: FileMode
  n_Replace :: "(string \<times> jval) list"
  n_Markers :: "string \<times> string"
  n_Content :: "string list"
  n_After :: "AfterRef option"
  n_callsite :: string
  n_copyBinary :: bool
  n_parentFile :: "string list option"
  n_prevFolder :: "folderRef option"
  n_prevProject :: "string list option"

datatype Node = Node (n_data: NodeData) (Children: "Node list")

definition kindName :: "Kind \<Rightarrow> string" where
  "kindName k = (case k of
     KindProject \<Rightarrow> ''project'' | KindFolder \<Rightarrow> ''folder'' | KindFile \<Rightarrow> ''file''
   | KindContent \<Rightarrow> ''content'' | KindCopy \<Rightarrow> ''copy'' | KindInject \<Rightarrow> ''inject''
   | KindFragment \<Rightarrow> ''fragment'' | KindSlot \<Rightarrow> ''slot'' | KindNone \<Rightarrow> ''none''
   | KindOther \<Rightarrow> ''unknown'')"

section \<open>State\<close>

text \<open>\<open>b_folder\<close> is the folder option as given; the file handler's \<open>c_folder\<close> is its canonical form.\<close>

record 'f Bcfg =
  b_cfg :: "'f Cfg"
  b_folder :: string
  b_exclude :: bool
  b_ignore :: "regex option list"
  b_template :: "string \<Rightarrow> (string \<times> jval) list \<Rightarrow> string + string"

record 'f Bs =
  bs_fh :: "'f Fh"
  bs_project :: "string list option"
  bs_folder :: folderRef
  bs_file :: "string list option"
  bs_filepaths :: "(string \<times> string) list"

text \<open>A call of the file handler, and the end of a run without an op's own result.\<close>

definition on_fh :: "('f Fh, 'a) comp \<Rightarrow> ('f Bs, 'a) comp" where
  "on_fh m s = (case m (bs_fh s) of (h, r) \<Rightarrow> (s\<lparr>bs_fh := h\<rparr>, r))"

definition newBuildCtx :: "string \<Rightarrow> 'f Fh \<Rightarrow> 'f Bs" where
  "newBuildCtx folder h =
     \<lparr>bs_fh = h, bs_project = None,
      bs_folder = \<lparr>fr_node = None, fr_path = [], fr_parent = (if folder = [] then DOT else folder)\<rparr>,
      bs_file = None, bs_filepaths = []\<rparr>"

section \<open>Errors of a node\<close>

definition wrap :: "NodeData \<Rightarrow> error \<Rightarrow> error" where
  "wrap n e =
     (if has_node_error e then e else NodeError (kindName (n_Kind n)) (n_Path n) (n_callsite n) e)"

definition wrapping :: "NodeData \<Rightarrow> ('s, 'a) comp \<Rightarrow> ('s, 'a) comp" where
  "wrapping n m s = (case m s of (s', Inl e) \<Rightarrow> (s', Inl (wrap n e)) | (s', Inr x) \<Rightarrow> (s', Inr x))"

definition require_name :: "string \<Rightarrow> string \<Rightarrow> ('s, unit) comp" where
  "require_name kind name = (if validName name then ret () else fail (ErrNameTraversal kind name))"

section \<open>Project and Folder\<close>

definition project_parent :: "'f Bcfg \<Rightarrow> NodeData \<Rightarrow> string" where
  "project_parent c n =
     (let folder = (if b_folder c = [] then DOT else b_folder c)
      in path_clean (fwd
           (if n_Folder n \<noteq> [] then
              (if isAbsFromPathOn (n_Folder n) (c_windows (b_cfg c)) then n_Folder n
               else folder @ ''/'' @ n_Folder n)
            else folder)))"

definition projectBefore :: "'f Bcfg \<Rightarrow> NodeData \<Rightarrow> ('f Bs, NodeData) comp" where
  "projectBefore c n =
     bnd (gets (\<lambda>s. n\<lparr>n_prevFolder := Some (bs_folder s), n_prevProject := bs_project s\<rparr>)) (\<lambda>n'.
       let parent = project_parent c n
       in seq (modify (\<lambda>s. s\<lparr>bs_project := Some (n_Path n),
                 bs_folder := \<lparr>fr_node = Some (n_Path n), fr_path = [], fr_parent = parent\<rparr>\<rparr>))
            (bnd (attempt (on_fh (ensureFolder (b_cfg c) parent))) (\<lambda>_. ret n')))"

definition projectAfter :: "NodeData \<Rightarrow> ('f Bs, unit) comp" where
  "projectAfter n =
     seq (case n_prevFolder n of None \<Rightarrow> ret () | Some f \<Rightarrow> modify (\<lambda>s. s\<lparr>bs_folder := f\<rparr>))
       (modify (\<lambda>s. s\<lparr>bs_project := n_prevProject n\<rparr>))"

text \<open>The path below the current folder, as every op composes it.\<close>

definition current_dir :: "folderRef \<Rightarrow> string" where
  "current_dir f =
     (let dir = join_with ''/'' (fr_path f)
      in if dir \<noteq> [] then fr_parent f @ ''/'' @ dir else fr_parent f)"

definition folderBefore :: "'f Bcfg \<Rightarrow> NodeData \<Rightarrow> ('f Bs, unit) comp" where
  "folderBefore c n =
     seq (require_name ''Folder'' (n_Name n))
       (seq (modify (\<lambda>s. s\<lparr>bs_folder := (bs_folder s)\<lparr>fr_path := fr_path (bs_folder s) @ [n_Name n]\<rparr>\<rparr>))
         (bnd (gets bs_folder) (\<lambda>f.
            let full = current_dir f
            in if full \<noteq> [] then on_fh (ensureFolder (b_cfg c) (path_clean (fwd full))) else ret ())))"

definition folderAfter :: "('f Bs, unit) comp" where
  "folderAfter =
     modify (\<lambda>s. s\<lparr>bs_folder := (bs_folder s)\<lparr>fr_path := butlast (fr_path (bs_folder s))\<rparr>\<rparr>)"

section \<open>File\<close>

definition root_name :: "string \<Rightarrow> string" where
  "root_name w = (if w = [] then ''<root>'' else w)"

definition claimFile :: "string \<Rightarrow> string \<Rightarrow> ('f Bs, unit) comp" where
  "claimFile fullpath whr =
     bnd (gets (\<lambda>s. map_of (bs_filepaths s) fullpath)) (\<lambda>taken.
       case taken of
         Some first \<Rightarrow> fail (ErrDuplicateFilePath fullpath (root_name first) (root_name whr))
       | None \<Rightarrow> modify (\<lambda>s. s\<lparr>bs_filepaths := (fullpath, whr) # bs_filepaths s\<rparr>))"

definition full_path :: "folderRef \<Rightarrow> string \<Rightarrow> string" where
  "full_path f name = canonOutPath (current_dir f @ ''/'' @ name)"

definition fileBefore :: "NodeData \<Rightarrow> ('f Bs, NodeData) comp" where
  "fileBefore n =
     seq (require_name ''File'' (n_Name n))
       (seq (modify (\<lambda>s. s\<lparr>bs_file := Some (n_Path n)\<rparr>))
         (bnd (gets (\<lambda>s. full_path (bs_folder s) (n_Name n))) (\<lambda>full.
            seq (claimFile full (join_with ''/'' (n_Path n))) (ret (n\<lparr>n_FullPath := full\<rparr>)))))"

text \<open>\<^verbatim>\<open>collectInPlace\<close>: the text a node takes from its children.\<close>

fun collectInPlace :: "Node list \<Rightarrow> string" where
  "collectInPlace [] = []"
| "collectInPlace (Node d cs # rest) =
     (if n_Kind d \<in> {KindNone, KindSlot, KindFolder, KindProject} then collectInPlace cs
      else if n_Kind d \<in> {KindContent, KindFragment, KindInject, KindCopy} then concat (n_Content d)
      else []) @ collectInPlace rest"

definition fileExcluded :: "NodeData \<Rightarrow> bool" where
  "fileExcluded n =
     (let rpath = join_with ''/'' (n_Path n)
      in (case n_Exclude n of
            Bool b \<Rightarrow> b
          | Str s \<Rightarrow> s = rpath
          | Arr t a xs \<Rightarrow> (t = StringSlice \<or> t = AnySlice) \<and>
              list_ex (\<lambda>x. case x of Str s \<Rightarrow> s = rpath | _ \<Rightarrow> False) xs
          | _ \<Rightarrow> False))"

text \<open>The \<^verbatim>\<open>Options.Exclude\<close> window: modified since the last successful build.\<close>

definition fileTouched :: "'f Bcfg \<Rightarrow> string \<Rightarrow> ('f Fh, bool) comp" where
  "fileTouched c p =
     bnd (fs_ask (\<lambda>v. b_exclude c \<and> api_Exists (c_api (b_cfg c)) v p)) (\<lambda>ex.
       if \<not> ex then ret False
       else bnd (fs_ask (\<lambda>v. api_Stat (c_api (b_cfg c)) v p)) (\<lambda>st.
         bnd (gets (\<lambda>s. meta_last (fh_prev s))) (\<lambda>last.
           ret (case st of Inl e \<Rightarrow> False | Inr fi \<Rightarrow> 0 < last \<and> last < fi_ModTime fi))))"

definition fileAfter :: "'f Bcfg \<Rightarrow> NodeData \<Rightarrow> Node list \<Rightarrow> ('f Bs, NodeData) comp" where
  "fileAfter c n cs =
     (let body = collectInPlace cs; n' = n\<lparr>n_Content := [body]\<rparr>; p = n_FullPath n
      in if p = [] then ret n'
         else bnd (on_fh (fs_ask (\<lambda>v. fileExcluded n \<and> api_Exists (c_api (b_cfg c)) v p))) (\<lambda>ex.
           if ex then ret n'
           else bnd (on_fh (fileTouched c p)) (\<lambda>touched.
             if touched then ret n'
             else seq (on_fh (saveMode (b_cfg c) p body ''FileOp:after:'' (n_Mode n))) (ret n'))))"

section \<open>Copy\<close>

definition copyFileWhence :: string where "copyFileWhence = ''Copy:copyFile:''"

text \<open>The entries of a list, in order; a match on a nil regexp is a panic.\<close>

fun excluded_by :: "string \<Rightarrow> jval list \<Rightarrow> bool option" where
  "excluded_by rel [] = Some False"
| "excluded_by rel (x # xs) =
     (case x of
        Str s \<Rightarrow> (if s = rel then Some True else excluded_by rel xs)
      | Regex None \<Rightarrow> None
      | Regex (Some re) \<Rightarrow> (if re_match re rel then Some True else excluded_by rel xs)
      | _ \<Rightarrow> excluded_by rel xs)"

definition copyExcluded :: "string \<Rightarrow> jval \<Rightarrow> bool option" where
  "copyExcluded rel exclude =
     (case propList exclude of
        Some xs \<Rightarrow> excluded_by rel xs
      | None \<Rightarrow>
          (case exclude of
             Str s \<Rightarrow> Some (s = rel)
           | Regex (Some re) \<Rightarrow> Some (re_match re rel)
           | _ \<Rightarrow> Some False))"

text \<open>\<^verbatim>\<open>(~|-jostraca-off)$\<close>.\<close>

definition defaultCopyIgnore :: "string \<Rightarrow> bool" where
  "defaultCopyIgnore name = (has_suffix name ''~'' \<or> has_suffix name ''-jostraca-off'')"

definition shouldIgnoreCopyPath :: "string \<Rightarrow> string \<Rightarrow> jval \<Rightarrow> regex option list \<Rightarrow> bool option" where
  "shouldIgnoreCopyPath name rel exclude ignores =
     (if defaultCopyIgnore name then Some True
      else if \<exists>re \<in> set ignores. (case re of None \<Rightarrow> False | Some r \<Rightarrow> re_match r name) then Some True
      else copyExcluded (if rel = [] then name else rel) exclude)"

definition render :: "'f Bcfg \<Rightarrow> NodeData \<Rightarrow> bytes \<Rightarrow> ('s, bytes) comp" where
  "render c n body =
     (case b_template c body (n_Replace n) of Inl e \<Rightarrow> fail (ErrTemplate e) | Inr out \<Rightarrow> ret out)"

definition read_source :: "'f Bcfg \<Rightarrow> string \<Rightarrow> ('f Fh, bytes) comp" where
  "read_source c p =
     bnd (fs_ask (\<lambda>v. api_ReadFile (c_api (b_cfg c)) v p)) (\<lambda>r.
       case r of Inl e \<Rightarrow> fail (ErrFs e) | Inr b \<Rightarrow> ret b)"

definition copyBefore :: "'f Bcfg \<Rightarrow> NodeData \<Rightarrow> ('f Bs, NodeData) comp" where
  "copyBefore c n =
     (let src0 = n_From n
      in bnd (on_fh (fs_ask (\<lambda>v. api_Stat (c_api (b_cfg c)) v src0))) (\<lambda>st.
           case st of
             Inl e \<Rightarrow> fail (ErrCopyStat src0 (ErrFs e))
           | Inr fi \<Rightarrow>
               if fi_IsDir fi then
                 seq (require_name ''Copy(to)'' (n_Name n)) (ret (n\<lparr>n_After := Some AfterCopy\<rparr>))
               else
                 let name = (if n_Name n = [] then pathBase src0 else n_Name n)
                 in seq (require_name ''File'' name)
                   (bnd (gets (\<lambda>s. full_path (bs_folder s) name)) (\<lambda>dest.
                     bnd (or_panic (copyExcluded (pathBase src0) (n_Exclude n))) (\<lambda>ex.
                       if ex then ret (n\<lparr>n_After := Some AfterExcluded\<rparr>)
                       else bnd (on_fh (read_source c src0)) (\<lambda>body.
                         let isBin = (IsBinExt (c_windows (b_cfg c)) src0 \<or> IsBinContent body)
                         in bnd (if isBin then ret body else render c n body) (\<lambda>out.
                              ret (n\<lparr>n_After := Some AfterFile, n_FullPath := dest,
                                     n_Content := [out], n_copyBinary := isBin\<rparr>))))))))"

definition maxCopyDepth :: nat where "maxCopyDepth = 64"

definition realpathOf :: "'f FS \<Rightarrow> 'f \<Rightarrow> string \<Rightarrow> string" where
  "realpathOf api v p =
     (case api_Realpath api of
        None \<Rightarrow> p
      | Some rp \<Rightarrow> (case rp v p of Inl e \<Rightarrow> p | Inr r \<Rightarrow> r))"

text \<open>A file met by the walk.\<close>

definition copy_file :: "'f Bcfg \<Rightarrow> NodeData \<Rightarrow> string \<Rightarrow> string \<Rightarrow> string \<Rightarrow> ('f Fh, unit) comp" where
  "copy_file c n name src dst =
     (if IsBinExt (c_windows (b_cfg c)) name then fh_copy (b_cfg c) src dst
      else bnd (read_source c src) (\<lambda>body.
        if IsBinExt (c_windows (b_cfg c)) src \<or> IsBinContent body
        then saveBinary (b_cfg c) dst body copyFileWhence
        else bnd (render c n body) (\<lambda>out. save (b_cfg c) dst out copyFileWhence)))"

text \<open>\<^verbatim>\<open>walkCopyDepth\<close>; \<open>left\<close> counts the levels that may still be entered, and \<open>visited\<close> is the chain of
  the directories being walked.\<close>

primrec walkCopyDepth ::
  "nat \<Rightarrow> 'f Bcfg \<Rightarrow> NodeData \<Rightarrow> string \<Rightarrow> string \<Rightarrow> string list \<Rightarrow> string \<Rightarrow> ('f Fh, unit) comp" where
  "walkCopyDepth 0 c n src0 to visited rel = fail (ErrCopyTooDeep src0)"
| "walkCopyDepth (Suc left) c n src0 to visited rel =
     bnd (fs_ask (\<lambda>v. realpathOf (c_api (b_cfg c)) v src0)) (\<lambda>real.
       if real \<in> set visited then
         warn [''copy'', ''symlink cycle, not descending: '' @ src0 @ '' -> '' @ real]
       else
         bnd (fs_ask (\<lambda>v. api_ReadDir (c_api (b_cfg c)) v src0)) (\<lambda>rd.
           case rd of
             Inl e \<Rightarrow> fail (ErrFs e)
           | Inr entries \<Rightarrow>
               each (\<lambda>e.
                 let src = src0 @ ''/'' @ de_Name e; dst = to @ ''/'' @ de_Name e;
                     entryRel = (if rel \<noteq> [] then rel @ ''/'' @ de_Name e else de_Name e)
                 in bnd (or_panic (shouldIgnoreCopyPath (de_Name e) entryRel (n_Exclude n) (b_ignore c))) (\<lambda>skip.
                      if skip then ret ()
                      else bnd (fs_ask (\<lambda>v. api_Stat (c_api (b_cfg c)) v src)) (\<lambda>st.
                        let isDir = (de_IsDir e \<or> (case st of Inr fi \<Rightarrow> fi_IsDir fi | Inl _ \<Rightarrow> False))
                        in if isDir then walkCopyDepth left c n src dst (real # visited) entryRel
                           else copy_file c n (de_Name e) src dst)))
                 (sort_js_by de_Name entries)))"

declare walkCopyDepth.simps [simp del]

definition walkCopy :: "'f Bcfg \<Rightarrow> NodeData \<Rightarrow> string \<Rightarrow> string \<Rightarrow> ('f Fh, unit) comp" where
  "walkCopy c n src0 to = walkCopyDepth (Suc maxCopyDepth) c n src0 to [] []"

definition copyWalk :: "'f Bcfg \<Rightarrow> NodeData \<Rightarrow> ('f Bs, unit) comp" where
  "copyWalk c n =
     bnd (gets (\<lambda>s. current_dir (bs_folder s))) (\<lambda>dir.
       on_fh (walkCopy c n (n_From n) (if n_Name n \<noteq> [] then dir @ ''/'' @ n_Name n else dir)))"

definition copyAfter :: "'f Bcfg \<Rightarrow> NodeData \<Rightarrow> ('f Bs, unit) comp" where
  "copyAfter c n =
     (case n_After n of
        Some AfterFile \<Rightarrow>
          (if n_copyBinary n then on_fh (saveBinary (b_cfg c) (n_FullPath n) (hd (n_Content n)) copyFileWhence)
           else on_fh (save (b_cfg c) (n_FullPath n) (hd (n_Content n)) copyFileWhence))
      | Some AfterCopy \<Rightarrow> copyWalk c n
      | _ \<Rightarrow> ret ())"

section \<open>Inject\<close>

definition injectBefore :: "NodeData \<Rightarrow> ('f Bs, NodeData) comp" where
  "injectBefore n =
     seq (require_name ''Inject'' (n_Name n))
       (bnd (gets (\<lambda>s. full_path (bs_folder s) (n_Name n))) (\<lambda>full.
          seq (modify (\<lambda>s. s\<lparr>bs_file := Some (n_Path n)\<rparr>)) (ret (n\<lparr>n_FullPath := full\<rparr>))))"

text \<open>The scan over the text \<open>r\<close> from the current position on: the output so far, and whether a pair
  was found. When neither marker moves the position, one rune is copied.\<close>

function inject_scan :: "string \<Rightarrow> string \<Rightarrow> string \<Rightarrow> string \<Rightarrow> string \<Rightarrow> bool \<Rightarrow> string \<times> bool" where
  "inject_scan startM endM body r out matched =
     (case str_index r startM of
        None \<Rightarrow> (out @ r, matched)
      | Some si \<Rightarrow>
          let after = si + length startM
          in (case str_index (drop after r) endM of
                None \<Rightarrow> (out @ r, matched)
              | Some k \<Rightarrow>
                  let ei = after + k; out' = out @ take after r @ body
                  in if ei = 0 then
                       (if r = [] then (out', True)
                        else let w = snd (decode_rune r)
                             in inject_scan startM endM body (drop w r) (out' @ take w r) True)
                     else inject_scan startM endM body (drop ei r) out' True))"
  by pat_completeness auto
termination
proof (relation "measure (\<lambda>(startM, endM, body, r, out, matched). length r)", goal_cases)
  case (2 startM endM body r out matched si after k ei out' w)
  then show ?case using decode_rune_width [of r] by (cases r) auto
next
  case (3 startM endM body r out matched si after k ei out')
  have "si + length startM \<le> length r" "k + length endM \<le> length (drop after r)"
    using str_index_SomeD [OF 3(1)] str_index_SomeD [OF 3(3)] by auto
  then have "ei \<le> length r" "0 < ei" using 3(2,4-) by auto
  then show ?case by simp
qed simp

declare inject_scan.simps [simp del]

definition marker_pair :: "string \<times> string \<Rightarrow> string" where
  "marker_pair m = ''['' @ go_quote (fst m) @ '','' @ go_quote (snd m) @ '']''"

definition injectAfter :: "'f Bcfg \<Rightarrow> NodeData \<Rightarrow> Node list \<Rightarrow> ('f Bs, unit) comp" where
  "injectAfter c n cs =
     (if jsTruthy (n_Exclude n) then ret ()
      else
        let body = collectInPlace cs; p = n_FullPath n
        in bnd (on_fh (fs_ask (\<lambda>v. api_Exists (c_api (b_cfg c)) v p))) (\<lambda>ex.
             if \<not> ex then fail (ErrInjectTargetMissing p)
             else bnd (on_fh (read_source c p)) (\<lambda>src.
               let (out, matched) = inject_scan (fst (n_Markers n)) (snd (n_Markers n)) body src [] False
               in if \<not> matched then
                    seq (on_fh (warn [''inject'', ''markers not found, nothing injected: path='' @ p @
                           '' markers='' @ marker_pair (n_Markers n)]))
                      (on_fh (save (b_cfg c) p src []))
                  else on_fh (save (b_cfg c) p out []))))"

section \<open>Fragment\<close>

definition fragmentBefore :: "NodeData \<Rightarrow> ('f Bs, NodeData) comp" where
  "fragmentBefore n = gets (\<lambda>s. n\<lparr>n_parentFile := bs_file s\<rparr>)"

definition fragmentAfter :: "NodeData \<Rightarrow> Node list \<Rightarrow> NodeData" where
  "fragmentAfter n cs =
     (let rendered = collectInPlace cs
      in n\<lparr>n_Content := [case n_Indent n of Null \<Rightarrow> rendered | ind \<Rightarrow> Indent rendered ind]\<rparr>)"

section \<open>The walk\<close>

definition op_before :: "'f Bcfg \<Rightarrow> NodeData \<Rightarrow> ('f Bs, NodeData) comp" where
  "op_before c n = (case n_Kind n of
     KindProject \<Rightarrow> projectBefore c n
   | KindFolder \<Rightarrow> seq (folderBefore c n) (ret n)
   | KindFile \<Rightarrow> fileBefore n
   | KindCopy \<Rightarrow> copyBefore c n
   | KindInject \<Rightarrow> injectBefore n
   | KindFragment \<Rightarrow> fragmentBefore n
   | KindOther \<Rightarrow> fail ErrMissingOp
   | _ \<Rightarrow> ret n)"

definition op_after :: "'f Bcfg \<Rightarrow> NodeData \<Rightarrow> Node list \<Rightarrow> ('f Bs, NodeData) comp" where
  "op_after c n cs = (case n_Kind n of
     KindProject \<Rightarrow> seq (projectAfter n) (ret n)
   | KindFolder \<Rightarrow> seq folderAfter (ret n)
   | KindFile \<Rightarrow> fileAfter c n cs
   | KindCopy \<Rightarrow> seq (copyAfter c n) (ret n)
   | KindInject \<Rightarrow> seq (injectAfter c n cs) (ret n)
   | KindFragment \<Rightarrow> ret (fragmentAfter n cs)
   | _ \<Rightarrow> ret n)"

fun step :: "'f Bcfg \<Rightarrow> Node \<Rightarrow> ('f Bs, Node) comp"
  and step_list :: "'f Bcfg \<Rightarrow> Node list \<Rightarrow> ('f Bs, Node list) comp" where
  "step c (Node n cs) =
     bnd (wrapping n (op_before c n)) (\<lambda>n.
     bnd (step_list c cs) (\<lambda>cs.
     bnd (wrapping n (op_after c n cs)) (\<lambda>n. ret (Node n cs))))"
| "step_list c [] = ret []"
| "step_list c (x # xs) =
     bnd (wrapping (n_data x) (step c x)) (\<lambda>x. bnd (step_list c xs) (\<lambda>xs. ret (x # xs)))"

definition runBuild :: "'f Bcfg \<Rightarrow> Node option \<Rightarrow> ('f Bs, unit) comp" where
  "runBuild c tree =
     (case tree of
        None \<Rightarrow> ret ()
      | Some n \<Rightarrow> bnd (step c n) (\<lambda>_. on_fh (metaDone (b_cfg c))))"

text \<open>\<^verbatim>\<open>newBuild\<close>: the file handler, its clock sample already taken, and the previous meta log.\<close>

definition newBuild :: "'f Bcfg \<Rightarrow> 'f Bs \<Rightarrow> 'f Bs \<times> (error + unit)" where
  "newBuild c = on_fh (loadMeta (b_cfg c))"

end
