(* ===== verification/Each.thy ===== *)
theory Each
  imports Getx "HOL-Library.AList"
begin

text \<open>
  Iterating over a list or a map as the components and the callers do (\<^verbatim>\<open>Each\<close> and its variants in
  \<^verbatim>\<open>go/util.go\<close>). The marks that \<^verbatim>\<open>Each\<close> writes into a map are in the items it returns; the
  caller's own map, which shares them, is not modelled.
\<close>

definition jsObjectLike :: "jval \<Rightarrow> bool" where
  "jsObjectLike v = (case v of
     Obj a m \<Rightarrow> True | Arr t a xs \<Rightarrow> True | Undefined \<Rightarrow> True | Regex (Some re) \<Rightarrow> True | _ \<Rightarrow> False)"

record EachSpec =
  es_NoMark :: bool
  es_Raw :: bool
  es_Sort :: bool

text \<open>Writing a key into a map; anything else is left alone.\<close>

definition put_key :: "string \<Rightarrow> jval \<Rightarrow> jval \<Rightarrow> jval" where
  "put_key k w v = (case v of Obj a m \<Rightarrow> Obj a (AList.update k w m) | _ \<Rightarrow> v)"

definition sortedMapEntries :: "(string \<times> jval) list \<Rightarrow> (string \<times> jval) list" where
  "sortedMapEntries m = sort_by (\<lambda>a b. jsLess (fst a) (fst b)) m"

definition each_item :: "EachSpec \<Rightarrow> nat \<Rightarrow> jval \<Rightarrow> jval" where
  "each_item spec i item =
     (let val = (if \<not> es_Raw spec \<and> \<not> jsObjectLike item then Obj 0 [(''val$'', item)] else item)
      in if es_NoMark spec then val else put_key ''index$'' (GoInt (int i)) val)"

definition each_entry :: "EachSpec \<Rightarrow> string \<times> jval \<Rightarrow> jval" where
  "each_entry spec e =
     (let val = (if \<not> es_Raw spec \<and> \<not> jsObjectLike (snd e)
                 then Obj 0 [(''key$'', Str (fst e)), (''val$'', snd e)] else snd e)
      in if es_NoMark spec then val else put_key ''key$'' (Str (fst e)) val)"

text \<open>What a map's entries are sorted by.\<close>

definition each_pick :: "bool \<Rightarrow> jval \<Rightarrow> jval" where
  "each_pick byKey v = (if byKey then (case jsProp v ''key$'' of Some p \<Rightarrow> p | None \<Rightarrow> Undefined) else v)"

definition each_less :: "bool \<Rightarrow> jval \<Rightarrow> jval \<Rightarrow> bool" where
  "each_less byKey a b =
     (case jsLessThan (each_pick byKey a) (each_pick byKey b) of (lt, undef) \<Rightarrow> lt \<and> \<not> undef)"

definition Each :: "jval \<Rightarrow> EachSpec \<Rightarrow> (jval \<Rightarrow> jval) option \<Rightarrow> jval list" where
  "Each subject spec apply =
     (let f = (case apply of None \<Rightarrow> (\<lambda>v. v) | Some g \<Rightarrow> g)
      in (case subject of
            Arr t a xs \<Rightarrow>
              let items = (if es_Sort spec then sort_by (\<lambda>a b. jsLess (jsString a) (jsString b)) xs else xs)
              in map (\<lambda>(i, item). f (each_item spec i item)) (zip [0..<length items] items)
          | Obj a m \<Rightarrow>
              let vals = map (each_entry spec) (sortedMapEntries m);
                  sorted_vals = (if es_Sort spec \<and> vals \<noteq> [] then sort_by (each_less (jsObjectLike (hd vals))) vals
                                 else vals)
              in map f sorted_vals
          | _ \<Rightarrow> []))"

definition EachF :: "jval \<Rightarrow> (jval \<Rightarrow> jval) \<Rightarrow> jval list" where
  "EachF items f = Each items \<lparr>es_NoMark = False, es_Raw = True, es_Sort = False\<rparr> (Some f)"

definition EachI :: "jval \<Rightarrow> (jval \<Rightarrow> nat \<Rightarrow> 'a) \<Rightarrow> 'a list" where
  "EachI items f = (case items of Arr t a xs \<Rightarrow> map (\<lambda>(i, x). f x i) (zip [0..<length xs] xs) | _ \<Rightarrow> [])"

text \<open>The keys of a map in order, with their values.\<close>

definition each_pairs :: "jval \<Rightarrow> (string \<times> jval) list" where
  "each_pairs m = (case m of
     Obj a kvs \<Rightarrow> map (\<lambda>k. (k, case map_of kvs k of Some v \<Rightarrow> v | None \<Rightarrow> Null)) (sortJS (map fst kvs))
   | _ \<Rightarrow> [])"

definition EachKV :: "jval \<Rightarrow> (jval \<Rightarrow> string \<Rightarrow> nat \<Rightarrow> 'a) \<Rightarrow> 'a list" where
  "EachKV m f =
     map (\<lambda>(i, k, v). f (Obj 0 [(''key$'', Str k), (''val$'', v)]) k i) (zip [0..<length (each_pairs m)] (each_pairs m))"

definition EachKVRaw :: "jval \<Rightarrow> (jval \<Rightarrow> string \<Rightarrow> nat \<Rightarrow> 'a) \<Rightarrow> 'a list" where
  "EachKVRaw m f = map (\<lambda>(i, k, v). f v k i) (zip [0..<length (each_pairs m)] (each_pairs m))"

end
