(* ===== verification/Define.thy ===== *)
theory Define
  imports Template Build Each
begin

text \<open>
  The define phase (\<^verbatim>\<open>go/builder.go\<close>, \<^verbatim>\<open>go/fragment.go\<close>, with the state of \<^verbatim>\<open>go/jostraca.go\<close> and the
  nodes of \<^verbatim>\<open>go/node.go\<close>): the component methods of a \<^verbatim>\<open>*J\<close>. The nodes live in a store, and a
  \<^verbatim>\<open>*J\<close> is the number of the node it is bound to, so that a callback may attach to any \<^verbatim>\<open>*J\<close> it
  holds. A callback is a computation on the state; its only error is a panic, since the errors
  of the components are kept in \<open>js_err\<close>. The three filters are the ones a Fragment sets. What the
  define phase reads from outside is in \<open>Jcfg\<close>: the model, the provider's \<^verbatim>\<open>ReadFile\<close> and
  \<^verbatim>\<open>Stat\<close>, \<^verbatim>\<open>regexp.Compile\<close>, the platform's \<^verbatim>\<open>filepath.IsAbs\<close>, and the external validator of
  the prop shapes.
\<close>

type_synonym J = "nat option"

datatype FilterFunc = ScanSlots | OnlySlot string | NotSlots

record DNode =
  dn_data :: NodeData
  dn_Children :: "nat list"
  dn_Filter :: "FilterFunc option"
  dn_slotNames :: "string list"
  dn_sawNonSlot :: bool
  dn_defaultSlot :: bool

record jstate = caches +
  js_err :: "error option"
  js_nodes :: "DNode list"
  js_root :: "nat option"
  js_finished :: bool

type_synonym body = "J \<Rightarrow> (jstate, unit) comp"

record Jcfg =
  j_model :: "(string \<times> jval) list"
  j_debug :: bool
  j_windows :: bool
  j_IsAbs :: "string \<Rightarrow> bool"
  j_folder :: string
  j_ReadFile :: "string \<Rightarrow> fs_error + bytes"
  j_Stat :: "string \<Rightarrow> fs_error option"
  j_compile :: re_compile
  j_shape :: "string \<Rightarrow> (string \<times> jval) list \<Rightarrow> string option"

section \<open>Nodes\<close>

definition newNode :: "Kind \<Rightarrow> string \<Rightarrow> string list \<Rightarrow> NodeData" where
  "newNode k name path = \<lparr>n_Kind = k, n_Name = name, n_Path = path, n_FullPath = [], n_Folder = [],
     n_From = [], n_Indent = Null, n_Exclude = Null, n_Mode = 0, n_Replace = [], n_Markers = ([], []),
     n_Content = [], n_After = None, n_callsite = [], n_copyBinary = False, n_parentFile = None,
     n_prevFolder = None, n_prevProject = None\<rparr>"

definition dnode :: "NodeData \<Rightarrow> DNode" where
  "dnode n = \<lparr>dn_data = n, dn_Children = [], dn_Filter = None, dn_slotNames = [],
     dn_sawNonSlot = False, dn_defaultSlot = False\<rparr>"

definition node_at :: "jstate \<Rightarrow> nat \<Rightarrow> DNode" where "node_at s i = js_nodes s ! i"

definition on_node :: "nat \<Rightarrow> (DNode \<Rightarrow> DNode) \<Rightarrow> (jstate, unit) comp" where
  "on_node i f = modify (\<lambda>s. s\<lparr>js_nodes := (js_nodes s)[i := f (js_nodes s ! i)]\<rparr>)"

definition childPath :: "jstate \<Rightarrow> nat \<Rightarrow> string \<Rightarrow> string list" where
  "childPath s i name =
     (let p = n_Path (dn_data (node_at s i)) in if name \<noteq> [] then p @ [name] else p)"

text \<open>The new node is stored, appended to its parent's children, and made the root if it is the first.\<close>

definition attach :: "nat \<Rightarrow> NodeData \<Rightarrow> (jstate, nat) comp" where
  "attach i n =
     bnd (gets (\<lambda>s. length (js_nodes s))) (\<lambda>id.
     seq (modify (\<lambda>s. s\<lparr>js_nodes := js_nodes s @ [dnode n]\<rparr>))
     (seq (on_node i (\<lambda>d. d\<lparr>dn_Children := dn_Children d @ [id]\<rparr>))
     (seq (modify (\<lambda>s. s\<lparr>js_root := (case js_root s of None \<Rightarrow> Some id | Some r \<Rightarrow> Some r)\<rparr>)) (ret id))))"

section \<open>The shared steps of a component\<close>

text \<open>\<^verbatim>\<open>mustBeInGenerate\<close>, and the short-circuit on an earlier error.\<close>

definition in_generate :: "J \<Rightarrow> (nat \<Rightarrow> (jstate, unit) comp) \<Rightarrow> (jstate, unit) comp" where
  "in_generate j m =
     bnd (gets js_finished) (\<lambda>finished.
       (case j of
          None \<Rightarrow> fail ErrPanic
        | Some i \<Rightarrow>
            if finished then fail ErrPanic
            else bnd (gets js_err) (\<lambda>e. case e of Some _ \<Rightarrow> ret () | None \<Rightarrow> m i)))"

definition set_err :: "error \<Rightarrow> (jstate, unit) comp" where
  "set_err e = modify (\<lambda>s. s\<lparr>js_err := Some e\<rparr>)"

text \<open>Whether the filter of the enclosing node rejects a component; the scan of a Fragment rejects every
  one, and learns from it.\<close>

definition filteredKind :: "nat \<Rightarrow> Kind \<Rightarrow> string \<Rightarrow> (jstate, bool) comp" where
  "filteredKind i k name =
     bnd (gets (\<lambda>s. dn_Filter (node_at s i))) (\<lambda>f.
       (case f of
          None \<Rightarrow> ret False
        | Some ScanSlots \<Rightarrow>
            seq (on_node i (\<lambda>d. if kindName k = ''slot''
                   then d\<lparr>dn_slotNames := List.insert name (dn_slotNames d)\<rparr>
                   else d\<lparr>dn_sawNonSlot := True\<rparr>))
              (ret True)
        | Some (OnlySlot w) \<Rightarrow> ret (\<not> (kindName k = ''slot'' \<and> name = w))
        | Some NotSlots \<Rightarrow> ret (kindName k = ''slot'')))"

definition attachAndDescend :: "nat \<Rightarrow> NodeData \<Rightarrow> body option \<Rightarrow> (jstate, unit) comp" where
  "attachAndDescend i n b =
     bnd (filteredKind i (n_Kind n) (n_Name n)) (\<lambda>rejected.
       if rejected then ret ()
       else bnd (attach i n) (\<lambda>id. (case b of None \<Rightarrow> ret () | Some f \<Rightarrow> f (Some id))))"

text \<open>A node built at the path below \<open>i\<close>.\<close>

definition with_path :: "nat \<Rightarrow> string \<Rightarrow> (string list \<Rightarrow> (jstate, unit) comp) \<Rightarrow> (jstate, unit) comp" where
  "with_path i name m = bnd (gets (\<lambda>s. childPath s i name)) m"

text \<open>An error of the call goes through \<open>f\<close> into the state; a panic is not caught.\<close>

definition catching :: "(error \<Rightarrow> error) \<Rightarrow> (jstate, 'a) comp \<Rightarrow> (jstate, 'a option) comp" where
  "catching f m =
     bnd (attempt m) (\<lambda>r.
       (case r of
          Inr x \<Rightarrow> ret (Some x)
        | Inl e \<Rightarrow> if e = ErrPanic then fail ErrPanic else seq (set_err (f e)) (ret None)))"

section \<open>Project, Folder, File, Slot, Cmp, Inject\<close>

definition Project :: "J \<Rightarrow> string \<Rightarrow> string \<Rightarrow> body option \<Rightarrow> (jstate, unit) comp" where
  "Project j name folder b = in_generate j (\<lambda>i. with_path i name (\<lambda>p.
     attachAndDescend i ((newNode KindProject name p)\<lparr>n_Folder := folder\<rparr>) b))"

definition Folder :: "J \<Rightarrow> string \<Rightarrow> body option \<Rightarrow> (jstate, unit) comp" where
  "Folder j name b = in_generate j (\<lambda>i. with_path i name (\<lambda>p.
     attachAndDescend i (newNode KindFolder name p) b))"

record FileProps =
  fp_Name :: string
  fp_Exclude :: jval
  fp_Mode :: FileMode

definition FileP :: "J \<Rightarrow> FileProps \<Rightarrow> body option \<Rightarrow> (jstate, unit) comp" where
  "FileP j p b = in_generate j (\<lambda>i. with_path i (fp_Name p) (\<lambda>path.
     attachAndDescend i
       ((newNode KindFile (fp_Name p) path)\<lparr>n_Exclude := fp_Exclude p, n_Mode := fp_Mode p\<rparr>) b))"

definition File :: "J \<Rightarrow> string \<Rightarrow> body option \<Rightarrow> (jstate, unit) comp" where
  "File j name b = FileP j \<lparr>fp_Name = name, fp_Exclude = Null, fp_Mode = 0\<rparr> b"

definition Slot :: "J \<Rightarrow> string \<Rightarrow> body option \<Rightarrow> (jstate, unit) comp" where
  "Slot j name b = in_generate j (\<lambda>i. with_path i name (\<lambda>p.
     attachAndDescend i (newNode KindSlot name p) b))"

definition Cmp :: "Jcfg \<Rightarrow> J \<Rightarrow> string \<Rightarrow> body option \<Rightarrow> (jstate, unit) comp" where
  "Cmp c j name b = in_generate j (\<lambda>i.
     (case b of
        None \<Rightarrow> ret ()
      | Some f \<Rightarrow> with_path i [] (\<lambda>p.
          attachAndDescend i
            ((newNode KindNone [] p)\<lparr>n_callsite := (if j_debug c then name else [])\<rparr>) (Some f))))"

definition defaultInjectMarkers :: "string \<times> string" where
  "defaultInjectMarkers = (''#--START--#'' @ [NL], NL # ''#--END--#'')"

definition InjectP :: "J \<Rightarrow> string \<Rightarrow> string \<times> string \<Rightarrow> jval \<Rightarrow> body option \<Rightarrow> (jstate, unit) comp" where
  "InjectP j name markers exclude b = in_generate j (\<lambda>i.
     if markers \<noteq> ([], []) \<and> (fst markers = [] \<or> snd markers = [])
     then set_err (ErrMsg (''Inject: both markers must be non-empty, got '' @ marker_pair markers))
     else with_path i name (\<lambda>p.
       attachAndDescend i
         ((newNode KindInject name p)\<lparr>n_Markers := (if markers = ([], []) then defaultInjectMarkers else markers),
            n_Exclude := exclude\<rparr>) b))"

definition Inject :: "J \<Rightarrow> string \<Rightarrow> body option \<Rightarrow> (jstate, unit) comp" where
  "Inject j name b = InjectP j name ([], []) Null b"

section \<open>Content and Line\<close>

record ContentProps =
  cp_Src :: string
  cp_Name :: string
  cp_Indent :: jval
  cp_Replace :: "(string \<times> jstate rval) list"
  cp_Extra :: "(string \<times> jval) list"
  cp_Raw :: bool

definition content_props :: "string \<Rightarrow> ContentProps" where
  "content_props src = \<lparr>cp_Src = src, cp_Name = [], cp_Indent = Null, cp_Replace = [], cp_Extra = [], cp_Raw = False\<rparr>"

text \<open>Two nil maps give a nil one, which is the empty map here: a template looks up keys in it.\<close>

definition mergeModel :: "(string \<times> jval) list \<Rightarrow> (string \<times> jval) list \<Rightarrow> (string \<times> jval) list" where
  "mergeModel base extra = foldl (\<lambda>out (k, v). AList.update k v out) base extra"

definition ContentP :: "Jcfg \<Rightarrow> J \<Rightarrow> ContentProps \<Rightarrow> (jstate, unit) comp" where
  "ContentP c j p = in_generate j (\<lambda>i.
     bnd (filteredKind i KindContent (cp_Name p)) (\<lambda>rejected.
       if rejected then ret ()
       else
         bnd (if cp_Raw p \<or> cp_Src p = [] then ret (Some (cp_Src p))
              else catching (\<lambda>e. e)
                (Template (j_compile c) (cp_Src p) (Obj 0 (mergeModel (j_model c) (cp_Extra p)))
                   (no_spec\<lparr>ts_Replace := cp_Replace p\<rparr>))) (\<lambda>out.
           (case out of
              None \<Rightarrow> ret ()
            | Some rendered \<Rightarrow>
                let final = (case cp_Indent p of Null \<Rightarrow> rendered | ind \<Rightarrow> Indent rendered ind)
                in with_path i (cp_Name p) (\<lambda>path.
                     bnd (attach i ((newNode KindContent (cp_Name p) path)\<lparr>n_Indent := cp_Indent p,
                        n_Content := [final]\<rparr>)) (\<lambda>_. ret ()))))))"

definition Content :: "Jcfg \<Rightarrow> J \<Rightarrow> string \<Rightarrow> (jstate, unit) comp" where
  "Content c j src = ContentP c j (content_props src)"

definition LineP :: "Jcfg \<Rightarrow> J \<Rightarrow> ContentProps \<Rightarrow> (jstate, unit) comp" where
  "LineP c j p =
     bnd (gets js_finished) (\<lambda>finished.
       if j = None \<or> finished then fail ErrPanic
       else ContentP c j (p\<lparr>cp_Src := cp_Src p @ [NL]\<rparr>))"

definition Line :: "Jcfg \<Rightarrow> J \<Rightarrow> string \<Rightarrow> (jstate, unit) comp" where
  "Line c j src = LineP c j (content_props src)"

section \<open>ListItems\<close>

definition listItemMacro :: string where
  "listItemMacro = ''/{item('' @ [BSLASH] @ ''.(?<path>[^}]+))?}/''"

definition listItemReplace :: "Jcfg \<Rightarrow> jval \<Rightarrow> (string \<times> jval) list" where
  "listItemReplace c item =
     [(listItemMacro, RepFun [] (\<lambda>groups match.
        (case map_of groups ''path'' of
           None \<Rightarrow> Some []
         | Some path \<Rightarrow>
             if path = [] then Some []
             else (case GetX (regex_of (j_compile c)) item (Str path) of
                     Null \<Rightarrow> Some []
                   | v \<Rightarrow> formatValue v []))))]"

record ListItemProps =
  li_Item :: jval
  li_Indent :: jval
  li_Replace :: "(string \<times> jval) list"

record ListItemsProps =
  lp_Item :: jval
  lp_NoLine :: bool
  lp_Indent :: jval

type_synonym item_body = "J \<Rightarrow> ListItemProps \<Rightarrow> (jstate, unit) comp"

definition list_body :: "Jcfg \<Rightarrow> ListItemsProps \<Rightarrow> item_body \<Rightarrow> body" where
  "list_body c p b = (\<lambda>j.
     seq (each (\<lambda>item. b j \<lparr>li_Item = item, li_Indent = lp_Indent p, li_Replace = listItemReplace c item\<rparr>)
            (Each (lp_Item p) \<lparr>es_NoMark = False, es_Raw = True, es_Sort = False\<rparr> None))
       (if lp_NoLine p then ret () else Line c j []))"

definition ListItemsP :: "Jcfg \<Rightarrow> J \<Rightarrow> ListItemsProps \<Rightarrow> item_body option \<Rightarrow> (jstate, unit) comp" where
  "ListItemsP c j p b = in_generate j (\<lambda>i.
     (case b of
        None \<Rightarrow> ret ()
      | Some f \<Rightarrow> with_path i [] (\<lambda>path.
          attachAndDescend i (newNode KindNone [] path) (Some (list_body c p f)))))"

definition ListItems :: "Jcfg \<Rightarrow> J \<Rightarrow> jval \<Rightarrow> item_body option \<Rightarrow> (jstate, unit) comp" where
  "ListItems c j items b = ListItemsP c j \<lparr>lp_Item = items, lp_NoLine = False, lp_Indent = Null\<rparr> b"

section \<open>CopyFiles\<close>

text \<open>The prop shapes: what the checks of \<^verbatim>\<open>go/cmpshape.go\<close> accept, and the props handed to the validator.\<close>

definition isIndentProp :: "jval \<Rightarrow> bool" where
  "isIndentProp v = (case v of Str s \<Rightarrow> True | GoInt i \<Rightarrow> True | Num n \<Rightarrow> n \<noteq> NaN | _ \<Rightarrow> False)"

definition isMarkerProp :: "jval \<Rightarrow> bool" where
  "isMarkerProp v = (case v of Str s \<Rightarrow> s \<noteq> [] | Regex (Some re) \<Rightarrow> True | _ \<Rightarrow> False)"

definition isCopyExcludeProp :: "jval \<Rightarrow> bool" where
  "isCopyExcludeProp v =
     ((case v of Bool b \<Rightarrow> True | _ \<Rightarrow> False) \<or> isMarkerProp v \<or>
      (case propList v of None \<Rightarrow> False | Some xs \<Rightarrow> list_all isMarkerProp xs))"

definition checkPropShape :: "Jcfg \<Rightarrow> string \<Rightarrow> (string \<times> jval) list \<Rightarrow> error option" where
  "checkPropShape c name props =
     (if props = [] then None
      else (case j_shape c name props of None \<Rightarrow> None | Some e \<Rightarrow> Some (ErrMsg (name @ '': '' @ e))))"

definition is_nil :: "jval \<Rightarrow> bool" where "is_nil v = (case v of Null \<Rightarrow> True | _ \<Rightarrow> False)"

definition copyFilesPropError :: "Jcfg \<Rightarrow> jval \<Rightarrow> error option" where
  "copyFilesPropError c exclude =
     checkPropShape c ''CopyFiles'' (if is_nil exclude then [] else [(''exclude'', exclude)])"

definition fragmentPropError :: "Jcfg \<Rightarrow> jval \<Rightarrow> jval \<Rightarrow> error option" where
  "fragmentPropError c indent eject =
     checkPropShape c ''Fragment''
       ((if is_nil indent then [] else [(''indent'', indent)]) @
        (if is_nil eject then []
         else [(''eject'', case propList eject of Some xs \<Rightarrow> Arr AnySlice 0 xs | None \<Rightarrow> eject)]))"

record CopyFilesProps =
  cf_From :: string
  cf_To :: string
  cf_Replace :: "(string \<times> jval) list"
  cf_Exclude :: jval

definition node_err :: "string \<Rightarrow> error \<Rightarrow> (jstate, unit) comp" where
  "node_err stp e = set_err (NodeError stp [] [] e)"

definition CopyFiles :: "Jcfg \<Rightarrow> J \<Rightarrow> CopyFilesProps \<Rightarrow> (jstate, unit) comp" where
  "CopyFiles c j p = in_generate j (\<lambda>i.
     bnd (filteredKind i KindCopy (cf_To p)) (\<lambda>rejected.
       if rejected then ret ()
       else if cf_From p = [] then node_err ''copy'' (ErrFromMissing ''CopyFiles'')
       else
         (case j_Stat c (cf_From p) of
            Some e \<Rightarrow> node_err ''copy'' (ErrFromCheck ''CopyFiles'' (cf_From p) (ErrFs e))
          | None \<Rightarrow>
              (case copyFilesPropError c (cf_Exclude p) of
                 Some e \<Rightarrow> node_err ''copy'' e
               | None \<Rightarrow> with_path i (cf_To p) (\<lambda>path.
                   bnd (attach i ((newNode KindCopy (cf_To p) path)\<lparr>n_From := cf_From p,
                      n_Replace := cf_Replace p, n_Exclude := cf_Exclude p\<rparr>)) (\<lambda>_. ret ()))))))"

section \<open>Fragment\<close>

text \<open>A replace value of a Fragment may also be a \<^verbatim>\<open>func(*J)\<close>, which emits at the marker.\<close>

datatype frag_val = FragJ body | FragVal "jstate rval"

record FragmentProps =
  fr_From :: string
  fr_Indent :: jval
  fr_Replace :: "(string \<times> frag_val) list"
  fr_Eject :: jval

definition slot_front :: string where
  "slot_front = ''/'' @ js_blanks @ ''[-<!/#*]*'' @ js_blanks @ ''<'' @ [BSLASH] @ ''[SLOT''"

definition slot_back :: string where
  "slot_back = '']>'' @ js_blanks @ ''[->/#*]*'' @ js_blanks @ ''/''"

definition fragmentDefaultSlotKey :: string where "fragmentDefaultSlotKey = slot_front @ slot_back"

definition slot_key :: "string \<Rightarrow> string" where "slot_key name = slot_front @ '':'' @ EscRE name @ slot_back"

text \<open>Running the body once more under a filter.\<close>

definition replay :: "nat \<Rightarrow> body option \<Rightarrow> FilterFunc \<Rightarrow> (jstate, unit) comp" where
  "replay n b f =
     (case b of
        None \<Rightarrow> ret ()
      | Some g \<Rightarrow> seq (on_node n (\<lambda>d. d\<lparr>dn_Filter := Some f\<rparr>))
          (seq (g (Some n)) (on_node n (\<lambda>d. d\<lparr>dn_Filter := None\<rparr>))))"

definition emitting :: "(jstate, unit) comp \<Rightarrow> jstate rval" where
  "emitting m = RFunc (\<lambda>groups match. seq m (ret []))"

definition fragment_replace :: "nat \<Rightarrow> body option \<Rightarrow> (string \<times> frag_val) list \<Rightarrow> string list \<Rightarrow> (string \<times> jstate rval) list" where
  "fragment_replace n b user names =
     (let own = map (\<lambda>(k, v). (k, case v of FragJ f \<Rightarrow> emitting (f (Some n)) | FragVal w \<Rightarrow> w)) user;
          slots = foldl (\<lambda>out name. AList.update (slot_key name) (emitting (replay n b (OnlySlot name))) out)
                    own (sortJS names)
      in AList.update fragmentDefaultSlotKey
           (emitting (seq (on_node n (\<lambda>d. d\<lparr>dn_defaultSlot := True\<rparr>)) (replay n b NotSlots))) slots)"

definition fragment_no_slot :: "string \<Rightarrow> error" where
  "fragment_no_slot src = ErrMsg (''jostraca: Fragment has non-Slot children, but '' @ src @
     '' contains no unnamed <[SLOT]> marker to receive them; their output would be silently discarded. '' @
     ''Add an unnamed <[SLOT]> marker to the fragment source, or wrap the children in a named Slot.'')"

text \<open>\<^verbatim>\<open>renderFragment\<close> of the node \<open>n\<close>: the scan, the rendering, and the check for children that found no
  marker. The node's path is read first, for the errors.\<close>

definition renderFragment :: "Jcfg \<Rightarrow> nat \<Rightarrow> FragmentProps \<Rightarrow> body option \<Rightarrow> (jstate, unit) comp" where
  "renderFragment c n p b =
     bnd (gets (\<lambda>s. n_Path (dn_data (node_at s n)))) (\<lambda>path.
       (case j_ReadFile c (fr_From p) of
          Inl e \<Rightarrow> set_err (NodeError ''fragment'' path [] (ErrFs e))
        | Inr src \<Rightarrow>
            seq (on_node n (\<lambda>d. d\<lparr>dn_slotNames := [], dn_sawNonSlot := False, dn_defaultSlot := False\<rparr>))
            (seq (replay n b ScanSlots)
            (bnd (gets (\<lambda>s. dn_slotNames (node_at s n))) (\<lambda>names.
            bnd (attempt (Template (j_compile c) src (Obj 0 (j_model c))
                   (no_spec\<lparr>ts_Replace := fragment_replace n b (fr_Replace p) names,
                      ts_Eject := fr_Eject p,
                      ts_Handle := Some (\<lambda>t. ContentP c (Some n) ((content_props t)\<lparr>cp_Raw := True\<rparr>))\<rparr>)))
              (\<lambda>r.
               if r = Inl ErrPanic then fail ErrPanic
               else bnd (gets js_err) (\<lambda>earlier.
                 (case earlier of
                    Some _ \<Rightarrow> ret ()
                  | None \<Rightarrow>
                      (case r of
                         Inl e \<Rightarrow> set_err (NodeError ''fragment'' path [] e)
                       | Inr _ \<Rightarrow>
                           bnd (gets (\<lambda>s. node_at s n)) (\<lambda>d.
                             if dn_sawNonSlot d \<and> \<not> dn_defaultSlot d
                             then node_err ''fragment'' (fragment_no_slot (fr_From p))
                             else ret ()))))))))))"

definition FragmentP :: "Jcfg \<Rightarrow> J \<Rightarrow> FragmentProps \<Rightarrow> body option \<Rightarrow> (jstate, unit) comp" where
  "FragmentP c j p0 b = in_generate j (\<lambda>i.
     bnd (filteredKind i KindFragment []) (\<lambda>rejected.
       if rejected then ret ()
       else if fr_From p0 = [] then node_err ''fragment'' (ErrFromMissing ''Fragment'')
       else
         let p = p0\<lparr>fr_From := resolveFragmentFrom (j_windows c) (j_folder c) (fr_From p0)\<rparr>
         in (case j_Stat c (fr_From p) of
               Some e \<Rightarrow> node_err ''fragment'' (ErrFromCheck ''Fragment'' (fr_From p) (ErrFs e))
             | None \<Rightarrow>
                 (case fragmentPropError c (fr_Indent p) (fr_Eject p) of
                    Some e \<Rightarrow> node_err ''fragment'' e
                  | None \<Rightarrow> with_path i [] (\<lambda>path.
                      bnd (attach i ((newNode KindFragment [] path)\<lparr>n_From := fr_From p, n_Indent := fr_Indent p\<rparr>))
                        (\<lambda>n. renderFragment c n p b))))))"

section \<open>The tree of a define phase\<close>

text \<open>The tree below a node; a child is always younger than its parent.\<close>

function tree_at :: "DNode list \<Rightarrow> nat \<Rightarrow> Node" where
  "tree_at nodes i =
     Node (dn_data (nodes ! i))
       (map (tree_at nodes) (filter (\<lambda>k. i < k \<and> k < length nodes) (dn_Children (nodes ! i))))"
  by pat_completeness auto
termination by (relation "measure (\<lambda>(nodes, i). length nodes - i)") auto

declare tree_at.simps [simp del]

text \<open>\<^verbatim>\<open>generate\<close> up to the build: the synthetic root, and what the callback leaves below it. The state's
  caches are what earlier calls left.\<close>

definition define_start :: "caches \<Rightarrow> jstate" where
  "define_start cc = \<lparr>tc_templates = tc_templates cc, tc_ejects = tc_ejects cc, js_err = None,
     js_nodes = [dnode (newNode KindNone [] [])], js_root = None, js_finished = False\<rparr>"

definition define_tree :: "jstate \<Rightarrow> Node option" where
  "define_tree s = (if dn_Children (node_at s 0) \<noteq> [] then Some (tree_at (js_nodes s) 0) else None)"

definition runDefine :: "caches \<Rightarrow> body \<Rightarrow> jstate \<times> (error + Node option)" where
  "runDefine cc f =
     bnd (f (Some 0)) (\<lambda>_. bnd (gets js_err) (\<lambda>e.
       (case e of Some e \<Rightarrow> fail e | None \<Rightarrow> gets define_tree))) (define_start cc)"

end
