(* ===== verification/RunFrame.thy ===== *)
theory RunFrame
  imports Build FhFrame
begin

text \<open>
  A relation between the states of a run that every single write keeps is kept by the whole run:
  by every branch of a save, by every operation of the walk and by the log at its end. The locale
  \<open>run_frame\<close> says what the writes are; it holds for the relation "the volume is the same" in a dry
  run, and for any relation that a provider's own operations keep (\<open>api_frame\<close>).
\<close>

locale run_frame =
  fixes c :: "'f Cfg" and S :: "'f Fh \<Rightarrow> 'f Fh \<Rightarrow> bool"
  assumes order: "order_rel S"
    and same: "same_vol s s' \<Longrightarrow> S s s'"
    and folder: "keeps S (ensureFolder c p)"
    and publish: "keeps S (if ct_Dryrun (c_control c) then ret () else writeAtomicMode c p content mode)"
    and chmod: "keeps S (chmodUnchanged c p mode)"
begin

lemma quiet_S: "keeps same_vol m \<Longrightarrow> keeps S m"
  using same by (auto simp: keeps_def)

lemmas S_prims = same_vol_prims [THEN quiet_S] same_vol_modify [THEN quiet_S] same_vol_calls [THEN quiet_S]
  same_vol_loads [THEN quiet_S]

lemmas S_rules = keeps_bnd [OF order] keeps_seq [OF order] keeps_attempt keeps_if keeps_option keeps_sum
  keeps_prod keeps_Let

lemma S_dir: "keeps S (ensureDirOf c p)"
  unfolding ensureDirOf_def by (intro S_rules S_prims folder)

lemma S_file: "keeps S (saveFile c p content mode whence)"
  unfolding saveFile_def by (intro S_rules(1-3) S_rules(5-8) S_prims S_dir publish)

lemma S_low:
  "keeps S (saveJSON c p content whence)" "keeps S (copyFile c p q whence)" "keeps S (writeDuplicate c p content)"
  "keeps S (apply_mode c p mode sv)"
proof -
  show "keeps S (saveJSON c p content whence)"
    unfolding saveJSON_def by (intro S_rules S_prims S_file)
  show "keeps S (copyFile c p q whence)"
    unfolding copyFile_def writeAtomic_def
    by (intro S_rules(1-3) S_rules(5-8) S_prims S_dir publish)
  show "keeps S (writeDuplicate c p content)"
  proof (cases "ct_Dryrun (c_control c)")
    case False
    then have "keeps S (writeAtomic c q content)" for q
      using publish [of q content 0] by (simp add: writeAtomic_def)
    then show ?thesis unfolding writeDuplicate_def by (intro S_rules S_prims S_dir)
  qed (simp add: writeDuplicate_def S_prims)
  show "keeps S (apply_mode c p mode sv)"
    unfolding apply_mode_def by (intro S_rules S_prims chmod)
qed

lemma S_saveAs: "keeps S (saveAs c p content whence tagged mode isText)"
  unfolding saveAs_def save_exists_def save_preserve_def save_present_def save_diff_def save_merge_def
    saveMerge_def save_write_def save_duplicate_def
  by (intro S_rules S_prims S_file S_low)

lemma S_ends: "keeps S (metaDone c)" "keeps S (loadMeta c)"
  unfolding metaDone_def loadMeta_def by (intro S_rules S_prims S_file S_low)+

end

section \<open>The walk\<close>

text \<open>A relation between the file handlers of two states of the walk.\<close>

definition on_vol :: "('f Fh \<Rightarrow> 'f Fh \<Rightarrow> bool) \<Rightarrow> 'f Bs \<Rightarrow> 'f Bs \<Rightarrow> bool" where
  "on_vol R s s' = R (bs_fh s) (bs_fh s')"

lemma order_on_vol [simp]: "order_rel R \<Longrightarrow> order_rel (on_vol R)"
  unfolding order_rel_def on_vol_def by blast

named_theorems still

lemma still_on_fh [still]: "keeps R m \<Longrightarrow> keeps (on_vol R) (on_fh m)"
  by (auto simp: keeps_def on_fh_def on_vol_def split: prod.splits)

lemma still_prims [still]:
  assumes "order_rel R"
  shows "keeps (on_vol R) (gets h)" "keeps (on_vol R) (ret x)" "keeps (on_vol R) (fail e)"
    "keeps (on_vol R) (modify (\<lambda>s. s\<lparr>bs_folder := f s\<rparr>))" "keeps (on_vol R) (modify (\<lambda>s. s\<lparr>bs_file := g s\<rparr>))"
    "keeps (on_vol R) (modify (\<lambda>s. s\<lparr>bs_project := p s\<rparr>))"
    "keeps (on_vol R) (modify (\<lambda>s. s\<lparr>bs_filepaths := q s\<rparr>))"
    "keeps (on_vol R) (modify (\<lambda>s. s\<lparr>bs_project := p s, bs_folder := f s\<rparr>))"
  using assms by (auto simp: keeps_def on_vol_def order_rel_def gets_def ret_def fail_def modify_def)

lemma still_bnd [still]:
  assumes "order_rel R"
  shows "keeps (on_vol R) m \<Longrightarrow> (\<And>x. keeps (on_vol R) (f x)) \<Longrightarrow> keeps (on_vol R) (bnd m f)"
    "keeps (on_vol R) m1 \<Longrightarrow> keeps (on_vol R) m2 \<Longrightarrow> keeps (on_vol R) (seq m1 m2)"
  using assms by (simp_all add: keeps_bnd keeps_seq)

lemma still_wrapping [still]: "keeps R m \<Longrightarrow> keeps R (wrapping n m)"
  by (auto simp: keeps_def wrapping_def split: prod.splits sum.splits)

lemmas still_control [still] =
  keeps_if keeps_option keeps_sum keeps_prod keeps_Let keeps_attempt order_same_vol

lemma still_small [still]:
  assumes "order_rel R"
  shows "keeps (on_vol R) (require_name k nm)" "keeps (on_vol R) (or_panic x)" "keeps (on_vol R) (render c n b)"
    "keeps (on_vol R) (claimFile p w)"
  unfolding require_name_def or_panic_def render_def claimFile_def by (intro still assms)+

lemma quiet_small [quiet]:
  "keeps same_vol (or_panic x)" "keeps same_vol (render c n b)" "keeps same_vol (read_source c p)"
  "keeps same_vol (fileTouched c p)"
  unfolding or_panic_def render_def read_source_def fileTouched_def by (intro quiet)+

context run_frame
begin

lemmas S_small = quiet_small [THEN quiet_S]

lemma S_saves:
  assumes "b_cfg b = c"
  shows "keeps S (save c p x w)" "keeps S (saveBinary c p x w)" "keeps S (saveMode c p x w m)" "keeps S (fh_copy c p q)"
    "keeps S (copy_file b n name p q)"
  unfolding copy_file_def fh_copy_def save_def saveBinary_def saveMode_def assms
  by (intro S_rules S_prims S_small S_saveAs)+

lemma S_walk:
  assumes "b_cfg b = c"
  shows "keeps S (walkCopyDepth left b n src to visited rel)"
proof (induction left arbitrary: src to visited rel)
  case (Suc left)
  show ?case
    unfolding walkCopyDepth.simps assms
    by (intro S_rules S_prims S_small keeps_each order S_saves Suc S_dir S_low folder assms)
qed (simp add: walkCopyDepth.simps S_prims)

lemma S_before:
  assumes "b_cfg b = c"
  shows "keeps (on_vol S) (op_before b n)"
proof -
  have "keeps (on_vol S) (projectBefore b n)" "keeps (on_vol S) (folderBefore b n)"
    "keeps (on_vol S) (fileBefore n)" "keeps (on_vol S) (copyBefore b n)"
    "keeps (on_vol S) (injectBefore n)" "keeps (on_vol S) (fragmentBefore n)"
    unfolding projectBefore_def folderBefore_def fileBefore_def copyBefore_def injectBefore_def fragmentBefore_def
      assms
    by (intro still order S_prims S_small folder S_dir)+
  then show ?thesis unfolding op_before_def by (auto split: Kind.splits intro: still order)
qed

lemma S_after:
  assumes "b_cfg b = c"
  shows "keeps (on_vol S) (op_after b n cs)"
proof -
  note saves = S_saves [OF assms]
  have "keeps (on_vol S) (projectAfter n)" "keeps (on_vol S) (folderAfter :: ('f Bs, unit) comp)"
    "keeps (on_vol S) (fileAfter b n cs)" "keeps (on_vol S) (injectAfter b n cs)"
    unfolding projectAfter_def folderAfter_def fileAfter_def injectAfter_def assms
    by (intro still order S_prims S_small saves)+
  moreover have "keeps (on_vol S) (copyWalk b n)"
    unfolding copyWalk_def walkCopy_def assms by (intro still order S_walk assms S_prims)
  then have "keeps (on_vol S) (copyAfter b n)"
    unfolding copyAfter_def assms
    by (intro still order saves) (auto split: AfterRef.splits intro: still order saves)
  ultimately show ?thesis unfolding op_after_def by (auto split: Kind.splits intro: still order)
qed

lemma S_step:
  shows "b_cfg b = c \<Longrightarrow> keeps (on_vol S) (step b t)"
    and "b_cfg b = c \<Longrightarrow> keeps (on_vol S) (step_list b ts)"
  by (induction b t and b ts rule: step_step_list.induct) (auto intro!: still order S_before S_after)

lemma S_run:
  assumes "b_cfg b = c"
  shows "keeps (on_vol S) (runBuild b tree)" "keeps (on_vol S) (newBuild b)"
  unfolding runBuild_def newBuild_def assms
  by (cases tree; auto intro!: still order S_step S_ends assms)
    (intro still S_ends)

end

section \<open>A relation that the provider keeps\<close>

locale api_frame =
  fixes api :: "'f FS" and R :: "'f \<Rightarrow> 'f \<Rightarrow> bool"
  assumes order: "order_rel R"
    and wfile: "R v (fst (api_WriteFile api v p x))"
    and excl: "api_WriteFileExcl api = Some w \<Longrightarrow> R v (fst (w v p x))"
    and mkdir: "R v (fst (api_MkdirAll api v p))"
    and remove: "R v (fst (api_Remove api v p))"
    and rename: "R v (fst (api_Rename api v p q))"
    and chmod: "api_Chmod api = Some ch \<Longrightarrow> R v (fst (ch v p m))"
begin

definition vol_rel :: "'f Fh \<Rightarrow> 'f Fh \<Rightarrow> bool" where "vol_rel s s' = R (fh_vol s) (fh_vol s')"

lemma order_vol [simp]: "order_rel vol_rel"
  using order unfolding order_rel_def vol_rel_def by blast

lemma vol_of_same: "same_vol s s' \<Longrightarrow> vol_rel s s'"
  using order by (simp add: same_vol_def vol_rel_def order_rel_def)

lemma vol_quiet: "keeps same_vol m \<Longrightarrow> keeps vol_rel m"
  using vol_of_same by (auto simp: keeps_def)

lemmas vol_prims = same_vol_prims [THEN vol_quiet] same_vol_modify [THEN vol_quiet]
lemmas vol_rules = keeps_bnd [OF order_vol] keeps_seq [OF order_vol] keeps_attempt keeps_if keeps_option keeps_sum
  keeps_prod keeps_Let

lemma vol_do: "(\<And>v. R v (fst (f v))) \<Longrightarrow> keeps vol_rel (fs_do f)"
proof -
  assume R: "\<And>v. R v (fst (f v))"
  have "R v v'" if "f v = (v', r)" for v v' r using R [of v] that by simp
  then show ?thesis by (auto simp: keeps_def fs_do_def vol_rel_def split: prod.splits)
qed

lemma vol_calls:
  assumes "c_api c = api"
  shows "keeps vol_rel (removeTemp c t)" "keeps vol_rel (try_temps c p x k)" "keeps vol_rel (copy_mode c t p m)"
    "keeps vol_rel (check_slash_target c p)"
proof -
  show rm: "keeps vol_rel (removeTemp c t)" for t
    unfolding removeTemp_def assms by (intro vol_rules vol_prims vol_do remove)
  show "keeps vol_rel (try_temps c p x k)"
  proof (induction k)
    case (Suc k)
    show ?case
      unfolding try_temps.simps assms
      by (intro vol_rules vol_prims vol_do wfile rm Suc) (rule excl, assumption)
  qed (simp add: vol_prims)
  show "keeps vol_rel (copy_mode c t p m)"
    unfolding copy_mode_def assms by (intro vol_rules vol_prims vol_do; rule chmod, assumption)
  show "keeps vol_rel (check_slash_target c p)"
    unfolding check_slash_target_def by (intro vol_rules vol_prims)
qed

lemma frame:
  assumes "c_api c = api"
  shows "run_frame c vol_rel"
proof
  show "keeps vol_rel (ensureFolder c p)" for p
    unfolding ensureFolder_def assms by (intro vol_rules vol_prims vol_do mkdir)
  show "keeps vol_rel (if ct_Dryrun (c_control c) then ret () else writeAtomicMode c p content mode)" for p content mode
    unfolding writeAtomicMode_def by (intro vol_rules vol_prims vol_calls assms) (simp add: assms vol_do rename)
  show "keeps vol_rel (chmodUnchanged c p mode)" for p mode
    unfolding chmodUnchanged_def assms by (intro vol_rules vol_prims vol_do; rule chmod, assumption)
qed (use vol_of_same in simp_all)

end

section \<open>A dry run\<close>

lemma dry_frame: "ct_Dryrun (c_control c) \<Longrightarrow> run_frame c same_vol"
  by unfold_locales (auto simp: dry_low same_vol_prims)

text \<open>The contract on a handler that is switched to a dry run.\<close>

definition dry_cfg :: "'f Cfg \<Rightarrow> 'f Cfg" where
  "dry_cfg c = c\<lparr>c_control := (c_control c)\<lparr>ct_Dryrun := True\<rparr>\<rparr>"

interpretation dry: run_frame "dry_cfg c" same_vol
  by (rule dry_frame) (simp add: dry_cfg_def)

end
