(* ===== verification/LiftFS.thy ===== *)
theory LiftFS
  imports RunFrame MemFSInv
begin

text \<open>
  A provider as a part of a larger state. A run sees the file systems outside it and an in-memory
  volume side by side; \<open>lift_api\<close> makes a provider of one of the two a provider of the pair. The
  lifted provider keeps the contract of the original, and leaves the other part alone.
\<close>

definition lift_do :: "('s \<Rightarrow> 'f) \<Rightarrow> ('f \<Rightarrow> 's \<Rightarrow> 's) \<Rightarrow> ('f \<Rightarrow> 'f \<times> fs_error option) \<Rightarrow> 's \<Rightarrow> 's \<times> fs_error option" where
  "lift_do sel upd f s = (case f (sel s) of (v, r) \<Rightarrow> (upd v s, r))"

definition lift1 :: "('s \<Rightarrow> 'f) \<Rightarrow> ('f \<Rightarrow> 's \<Rightarrow> 's) \<Rightarrow> ('f \<Rightarrow> 'a \<Rightarrow> 'f \<times> fs_error option) \<Rightarrow> 's \<Rightarrow> 'a \<Rightarrow> 's \<times> fs_error option" where
  "lift1 sel upd f s x = lift_do sel upd (\<lambda>v. f v x) s"

definition lift2 ::
  "('s \<Rightarrow> 'f) \<Rightarrow> ('f \<Rightarrow> 's \<Rightarrow> 's) \<Rightarrow> ('f \<Rightarrow> 'a \<Rightarrow> 'b \<Rightarrow> 'f \<times> fs_error option) \<Rightarrow> 's \<Rightarrow> 'a \<Rightarrow> 'b \<Rightarrow> 's \<times> fs_error option" where
  "lift2 sel upd f s x y = lift_do sel upd (\<lambda>v. f v x y) s"

definition lift_api :: "('s \<Rightarrow> 'f) \<Rightarrow> ('f \<Rightarrow> 's \<Rightarrow> 's) \<Rightarrow> 'f FS \<Rightarrow> 's FS" where
  "lift_api sel upd api =
     \<lparr>api_ReadFile = (\<lambda>s. api_ReadFile api (sel s)),
      api_WriteFile = lift2 sel upd (api_WriteFile api),
      api_Exists = (\<lambda>s. api_Exists api (sel s)),
      api_Stat = (\<lambda>s. api_Stat api (sel s)),
      api_MkdirAll = lift1 sel upd (api_MkdirAll api),
      api_ReadDir = (\<lambda>s. api_ReadDir api (sel s)),
      api_Remove = lift1 sel upd (api_Remove api),
      api_Rename = lift2 sel upd (api_Rename api),
      api_WriteFileExcl = map_option (lift2 sel upd) (api_WriteFileExcl api),
      api_Chmod = map_option (lift2 sel upd) (api_Chmod api),
      api_Realpath = map_option (\<lambda>f s. f (sel s)) (api_Realpath api)\<rparr>"

definition fst_api :: "'a FS \<Rightarrow> ('a \<times> 'b) FS" where "fst_api = lift_api fst (\<lambda>v s. (v, snd s))"
definition snd_api :: "'b FS \<Rightarrow> ('a \<times> 'b) FS" where "snd_api = lift_api snd (\<lambda>v s. (fst s, v))"

lemma held_lift [simp]: "held (lift_api sel upd api) s p = held api (sel s) p"
  by (simp add: held_def lift_api_def)

lemma only_changes_lift [simp]:
  "only_changes (lift_api sel upd api) key K s s' = only_changes api key K (sel s) (sel s')"
  by (simp add: only_changes_def)

lemma lift_provider:
  assumes sel: "\<And>v s. sel (upd v s) = v" and sib: "fs_siblings api key ok"
  shows "fs_siblings (lift_api sel upd api) key (\<lambda>s. ok (sel s))"
proof -
  note law = fs_siblings.axioms(1) [OF sib]
  have run: "f (sel s) = (sel s', r)" if "lift_do sel upd f s = (s', r)" for f s s' r
    using that sel by (auto simp: lift_do_def split: prod.splits)
  let ?lift = "lift_api sel upd api"
  have calls: "api_WriteFile ?lift s p b = lift_do sel upd (\<lambda>v. api_WriteFile api v p b) s"
    "api_Exists ?lift s p = api_Exists api (sel s) p"
    "api_MkdirAll ?lift s p = lift_do sel upd (\<lambda>v. api_MkdirAll api v p) s"
    "api_Remove ?lift s p = lift_do sel upd (\<lambda>v. api_Remove api v p) s"
    "api_Rename ?lift s p q = lift_do sel upd (\<lambda>v. api_Rename api v p q) s" for s p q b
    by (simp_all add: lift_api_def lift1_def lift2_def)
  have excl: "\<exists>w'. api_WriteFileExcl api = Some w' \<and> w = (\<lambda>s p b. lift_do sel upd (\<lambda>v. w' v p b) s)"
    if "api_WriteFileExcl ?lift = Some w" for w
    using that by (auto simp: lift_api_def lift2_def fun_eq_iff)
  have chmod: "\<exists>c'. api_Chmod api = Some c' \<and> c = (\<lambda>s p m. lift_do sel upd (\<lambda>v. c' v p m) s)"
    if "api_Chmod ?lift = Some c" for c
    using that by (auto simp: lift_api_def lift2_def fun_eq_iff)
  show ?thesis
  proof (unfold_locales, unfold held_lift only_changes_lift calls, goal_cases)
    case 1 then show ?case by (rule fs_provider.held_key [OF law])
  next
    case 2 then show ?case by (rule fs_provider.held_exists [OF law])
  next
    case 3 from fs_provider.write_ok [OF law 3(1) run [OF 3(2)]] show ?case .
  next
    case 4 from fs_provider.write_frame [OF law 4(1) run [OF 4(2)]] show ?case .
  next
    case (5 s w p b s')
    from excl [OF 5(2)] obtain w' where w: "api_WriteFileExcl api = Some w'" "w = (\<lambda>s p b. lift_do sel upd (\<lambda>v. w' v p b) s)"
      by blast
    from fs_provider.excl_ok [OF law 5(1) w(1) run [OF 5(3) [unfolded w(2)]]] show ?case .
  next
    case (6 s w p b s' r)
    from excl [OF 6(2)] obtain w' where w: "api_WriteFileExcl api = Some w'" "w = (\<lambda>s p b. lift_do sel upd (\<lambda>v. w' v p b) s)"
      by blast
    from fs_provider.excl_frame [OF law 6(1) w(1) run [OF 6(3) [unfolded w(2)]]] show ?case .
  next
    case (7 s w p b s' e)
    from excl [OF 7(2)] obtain w' where w: "api_WriteFileExcl api = Some w'" "w = (\<lambda>s p b. lift_do sel upd (\<lambda>v. w' v p b) s)"
      by blast
    from fs_provider.excl_exist [OF law 7(1) w(1) run [OF 7(3) [unfolded w(2)]] 7(4)] show ?case .
  next
    case (8 s w p b s' e)
    from excl [OF 8(2)] obtain w' where w: "api_WriteFileExcl api = Some w'" "w = (\<lambda>s p b. lift_do sel upd (\<lambda>v. w' v p b) s)"
      by blast
    from fs_provider.excl_fail [OF law 8(1) w(1) run [OF 8(3) [unfolded w(2)]] 8(4)] show ?case .
  next
    case 9 from fs_provider.mkdir_frame [OF law 9(1) run [OF 9(2)]] show ?case .
  next
    case 10 from fs_provider.remove_frame [OF law 10(1) run [OF 10(2)]] show ?case .
  next
    case 11 from fs_provider.rename_ok [OF law 11(1) run [OF 11(2)] 11(3)] show ?case .
  next
    case 12 from fs_provider.rename_frame [OF law 12(1) run [OF 12(2)]] show ?case .
  next
    case 13 from fs_provider.rename_fail [OF law 13(1) run [OF 13(2)]] show ?case .
  next
    case (14 s c p m s' r)
    from chmod [OF 14(2)] obtain c' where c: "api_Chmod api = Some c'" "c = (\<lambda>s p m. lift_do sel upd (\<lambda>v. c' v p m) s)"
      by blast
    from fs_provider.chmod_frame [OF law 14(1) c(1) run [OF 14(3) [unfolded c(2)]]] show ?case .
  next
    case 15 then show ?case by (rule fs_siblings.key_suffix [OF sib])
  qed
qed

lemma lift_frame:
  assumes "\<And>v s. other (upd v s) = other s"
  shows "api_frame (lift_api sel upd api) (\<lambda>s s'. other s' = other s)"
proof -
  have "other (fst (lift_do sel upd f s)) = other s" for f s
    using assms by (simp add: lift_do_def split: prod.split)
  then show ?thesis by unfold_locales (auto simp: lift_api_def lift1_def lift2_def order_rel_def)
qed

interpretation outside: api_frame "fst_api api" "\<lambda>s s'. snd s' = snd s"
  unfolding fst_api_def by (rule lift_frame) simp

interpretation inside: api_frame "snd_api api" "\<lambda>s s'. fst s' = fst s"
  unfolding snd_api_def by (rule lift_frame) simp

interpretation mem_pair: fs_siblings "snd_api (mem_api wd wall)" "memClean wd" "\<lambda>s. mem_inv (snd s)"
  unfolding snd_api_def by (rule lift_provider [OF _ memfs.fs_siblings_axioms]) simp

end
