(* ===== verification/Generate.thy ===== *)
theory Generate
  imports Define LiftFS
begin

text \<open>
  The entry points (\<^verbatim>\<open>go/jostraca.go\<close>): \<^verbatim>\<open>New\<close> and \<^verbatim>\<open>generate\<close>, which merges the options, picks the
  provider, runs the define phase and the build phase, and reports.

  \<open>Env\<close> is the host: what the references in the options stand for (a provider, a clock, a model, a
  pattern) and the external parameters of the phases. \<open>World\<close> is what a call can change: the file
  systems outside the process, the volume of the instance, the template caches and the counters of
  the process. A run works on the pair of the outside and a volume (\<^verbatim>\<open>LiftFS\<close>), whichever of
  the two it picked. A nil callback, pointer or function is None.
\<close>

record ('x, 'o) Env =
  e_fs :: "'x option \<Rightarrow> 'o FS"               \<comment> \<open>None is \<^verbatim>\<open>OsFS{}\<close>\<close>
  e_now :: "'x option \<Rightarrow> nat \<Rightarrow> int"
  e_model :: "'x option \<Rightarrow> (string \<times> jval) list"
  e_regex :: "'x \<Rightarrow> regex option"
  e_wd :: "string option"
  e_wall :: "nat \<Rightarrow> int"
  e_windows :: bool
  e_pid :: nat
  e_rand :: "64 word \<Rightarrow> bytes option"
  e_sha256 :: "bytes \<Rightarrow> bytes"
  e_unmarshal :: "bytes \<Rightarrow> string + json"
  e_IsAbs :: "string \<Rightarrow> bool"
  e_Abs :: "string \<Rightarrow> string option"       \<comment> \<open>\<^verbatim>\<open>filepath.Abs\<close> of the platform\<close>
  e_compile :: re_compile
  e_shape :: "string \<Rightarrow> (string \<times> jval) list \<Rightarrow> string option"
  e_template :: "(string \<times> jval) list \<Rightarrow> string \<Rightarrow> (string \<times> jval) list \<Rightarrow> string + string"

record 'o World =
  w_out :: 'o
  w_mem :: "MemVol option"
  w_caches :: caches
  w_seq :: "64 word"
  w_clock :: nat

record Result =
  rs_When :: int
  rs_Files :: Files
  rs_Audit :: "AuditEntry list"
  rs_Vol :: "(string \<times> bytes option) list option"
  rs_FS :: bool                              \<comment> \<open>whether the handle to the provider is attached\<close>
  rs_replayed :: "string list list"          \<comment> \<open>the warnings sent to the log\<close>

definition noResult :: Result where
  "noResult = \<lparr>rs_When = 0, rs_Files = noFiles, rs_Audit = [], rs_Vol = None, rs_FS = False, rs_replayed = []\<rparr>"

section \<open>Volumes and providers\<close>

definition seeded :: "('x, 'o) Env \<Rightarrow> (string \<times> bytes option) list option \<Rightarrow> MemVol" where
  "seeded env vol = \<lparr>mv_fs = newSeededMemFS (e_wd env) (e_wall env 0) (case vol of None \<Rightarrow> [] | Some v \<Rightarrow> v), mv_tick = 1\<rparr>"

text \<open>\<^verbatim>\<open>New\<close>: the volume of the instance.\<close>

definition New :: "('x, 'o) Env \<Rightarrow> 'x Options \<Rightarrow> MemVol option" where
  "New env opts = (if op_Mem opts = Some True then Some (seeded env (op_Vol opts)) else None)"

definition shares_mem :: "'x Options \<Rightarrow> 'o World \<Rightarrow> bool" where
  "shares_mem call w = (op_Vol call = None \<and> w_mem w \<noteq> None)"

definition pick_mem :: "('x, 'o) Env \<Rightarrow> 'x Options \<Rightarrow> 'x Options \<Rightarrow> 'o World \<Rightarrow> MemVol option" where
  "pick_mem env call merged w =
     (if op_Mem merged = Some True then
        if shares_mem call w then w_mem w else Some (seeded env (op_Vol merged))
      else None)"

definition in_memory :: "'x Options \<Rightarrow> MemVol option \<Rightarrow> bool" where
  "in_memory call mem = (op_FS call = None \<and> mem \<noteq> None)"

definition provider :: "('x, 'o) Env \<Rightarrow> 'x Options \<Rightarrow> 'x Options \<Rightarrow> MemVol option \<Rightarrow> ('o \<times> MemVol) FS" where
  "provider env call merged mem =
     (if in_memory call mem then snd_api (mem_api (e_wd env) (e_wall env)) else fst_api (e_fs env (op_FS merged)))"

definition no_vol :: MemVol where "no_vol = \<lparr>mv_fs = NewMemFS, mv_tick = 0\<rparr>"

definition run_folder :: "'x Options \<Rightarrow> string" where
  "run_folder merged = (if op_Folder merged = [] then DOT else op_Folder merged)"

section \<open>The two phases of a call\<close>

definition stat_error :: "(string \<Rightarrow> fs_error + FileInfo) \<Rightarrow> string \<Rightarrow> fs_error option" where
  "stat_error stat p = (case stat p of Inl e \<Rightarrow> Some e | Inr fi \<Rightarrow> None)"

definition define_cfg :: "('x, 'o) Env \<Rightarrow> 'x Options \<Rightarrow> 'f FS \<Rightarrow> 'f \<Rightarrow> Jcfg" where
  "define_cfg env merged api v =
     \<lparr>j_model = e_model env (op_Model merged), j_debug = (op_Debug merged \<noteq> []), j_windows = e_windows env,
      j_IsAbs = e_IsAbs env, j_folder = run_folder merged, j_ReadFile = api_ReadFile api v,
      j_Stat = stat_error (api_Stat api v),
      j_compile = e_compile env, j_shape = e_shape env\<rparr>"

definition build_cfg :: "('x, 'o) Env \<Rightarrow> 'x Options \<Rightarrow> 'f FS \<Rightarrow> nat \<Rightarrow> 'f Bcfg" where
  "build_cfg env merged api clock =
     \<lparr>b_cfg =
        \<lparr>c_api = api, c_now = e_now env (op_Now merged), c_folder = canonFolder (run_folder merged),
         c_when = e_now env (op_Now merged) clock, c_existing = op_Existing merged,
         c_control = op_Control merged, c_windows = e_windows env, c_pid = e_pid env, c_rand = e_rand env,
         c_sha256 = e_sha256 env, c_unmarshal = e_unmarshal env\<rparr>,
      b_folder = run_folder merged, b_exclude = op_Exclude merged,
      b_ignore = map (e_regex env) (op_Ignore merged),
      b_template = e_template env (e_model env (op_Model merged))\<rparr>"

text \<open>The file handler's start: the clock's first sample is \<^verbatim>\<open>Result.When\<close>.\<close>

definition build_start :: "'x Options \<Rightarrow> 'f \<Rightarrow> nat \<Rightarrow> 64 word \<Rightarrow> 'f Bs" where
  "build_start merged v clock sq = newBuildCtx (run_folder merged) (startFh v (Suc clock) sq)"

definition caches_of :: "jstate \<Rightarrow> caches" where
  "caches_of s = \<lparr>tc_templates = tc_templates s, tc_ejects = tc_ejects s\<rparr>"

definition conflict_option_error :: "'x Options \<Rightarrow> error" where
  "conflict_option_error merged =
     ErrMsg (''Jostraca Options (`existing` property): Value '' @ [QUOTE] @ et_Conflict (ex_Txt (op_Existing merged)) @
       [QUOTE] @ '' for property '' @ [QUOTE] @ ''txt.conflict'' @ [QUOTE] @ '' must be exactly one of: markers, fail'')"

text \<open>What a call leaves of the world: the outside, the instance's volume when it was the one shared, and
  the counters.\<close>

definition after_run :: "bool \<Rightarrow> ('o \<times> MemVol) Fh \<Rightarrow> 'o World \<Rightarrow> 'o World" where
  "after_run shared h w =
     w\<lparr>w_out := fst (fh_vol h), w_mem := (if shared then Some (snd (fh_vol h)) else w_mem w),
       w_seq := fh_seq h, w_clock := fh_clock h\<rparr>"

text \<open>The build of a defined tree; \<^verbatim>\<open>Files\<close> are reported only when the build phase runs, and the warnings
  replayed only when it does not fail.\<close>

definition run_tree :: "'f Bcfg \<Rightarrow> bool \<Rightarrow> Node option \<Rightarrow> 'f Bs \<Rightarrow> 'f Bs \<times> (error + string list list)" where
  "run_tree bc doBuild tree =
     bnd (newBuild bc) (\<lambda>_.
       if doBuild then seq (runBuild bc tree) (gets (\<lambda>s. fh_warnings (bs_fh s)))
       else gets (\<lambda>s. fh_warnings (bs_fh s)))"

definition report :: "'f Bcfg \<Rightarrow> bool \<Rightarrow> bool \<Rightarrow> MemVol option \<Rightarrow> 'f Fh \<Rightarrow> error + string list list \<Rightarrow> Result \<times> error option" where
  "report bc doBuild loaded vol h r =
     (let res = \<lparr>rs_When = (if loaded then c_when (b_cfg bc) else 0),
            rs_Files = (if loaded \<and> doBuild then fh_files h else noFiles),
            rs_Audit = (if loaded then fh_audit h else []),
            rs_Vol = (if loaded then map_option (\<lambda>m. memVol (mv_fs m)) vol else None),
            rs_FS = (loaded \<and> vol \<noteq> None), rs_replayed = []\<rparr>
      in (case r of
            Inl e \<Rightarrow> (res, Some e)
          | Inr ws \<Rightarrow>
              (res\<lparr>rs_replayed := ws\<rparr>,
               if doBuild \<and> fh_failures h \<noteq> [] then Some (ErrMergeConflict (fh_failures h)) else None)))"

definition generate ::
  "('x, 'o) Env \<Rightarrow> 'x Options \<Rightarrow> 'x Options \<Rightarrow> (Jcfg \<Rightarrow> body) option \<Rightarrow> ('x Options \<Rightarrow> 'x Options) option
     \<Rightarrow> 'o World \<Rightarrow> 'o World \<times> Result \<times> error option" where
  "generate env global call rootf force w =
     (case rootf of
        None \<Rightarrow> (w, noResult, Some ErrNilRoot)
      | Some f \<Rightarrow>
          let merged = (case force of None \<Rightarrow> mergeOptions global call | Some g \<Rightarrow> g (mergeOptions global call))
          in if \<not> validConflict merged then (w, noResult, Some (conflict_option_error merged))
             else
               let mem = pick_mem env call merged w;
                   api = provider env call merged mem;
                   v = (w_out w, case mem of None \<Rightarrow> no_vol | Some m \<Rightarrow> m);
                   (s, r) = runDefine (w_caches w) (f (define_cfg env merged api v));
                   w = w\<lparr>w_caches := caches_of s\<rparr>
               in (case r of
                     Inl e \<Rightarrow> (w, noResult, Some e)
                   | Inr tree \<Rightarrow>
                       let bc = build_cfg env merged api (w_clock w);
                           doBuild = (op_Build merged \<noteq> Some False);
                           b0 = build_start merged v (w_clock w) (w_seq w);
                           loaded = (case snd (newBuild bc b0) of Inl e \<Rightarrow> False | Inr u \<Rightarrow> True);
                           (b, r) = run_tree bc doBuild tree b0;
                           h = bs_fh b
                       in (after_run (op_Mem merged = Some True \<and> shares_mem call w) h w,
                           report bc doBuild loaded (map_option (\<lambda>_. snd (fh_vol h)) mem) h r)))"

definition Generate ::
  "('x, 'o) Env \<Rightarrow> 'x Options \<Rightarrow> 'x Options \<Rightarrow> (Jcfg \<Rightarrow> body) option \<Rightarrow> 'o World \<Rightarrow> 'o World \<times> Result \<times> error option" where
  "Generate env global call rootf = generate env global call rootf None"

end
