(* ===== verification/BuildProps.thy ===== *)
theory BuildProps
  imports RunFrame SaveProps PathProps
begin

text \<open>
  The claims about the build phase (\<^verbatim>\<open>go/build.go\<close>): that a dry run touches nothing, that every op
  leaves the current folder as it found it, that output paths are claimed once and stay below their
  project, what a file's text is, and how errors surface.
\<close>

section \<open>The current folder\<close>

text \<open>What holds of the state and the result when a call succeeds.\<close>

definition ensures :: "('s \<Rightarrow> 'a \<Rightarrow> 's \<Rightarrow> bool) \<Rightarrow> ('s, 'a) comp \<Rightarrow> bool" where
  "ensures Q m = (\<forall>s s' x. m s = (s', Inr x) \<longrightarrow> Q s x s')"

definition place :: "'f Bs \<Rightarrow> folderRef \<times> string list option" where
  "place s = (bs_folder s, bs_project s)"

definition claimed :: "'f Bs \<Rightarrow> string list" where
  "claimed s = map fst (bs_filepaths s)"

lemma claimed_simps [simp]:
  "claimed (s\<lparr>bs_filepaths := ps\<rparr>) = map fst ps" "claimed (s\<lparr>bs_fh := h\<rparr>) = claimed s"
  "claimed (s\<lparr>bs_folder := f\<rparr>) = claimed s" "claimed (s\<lparr>bs_project := p\<rparr>) = claimed s"
  "claimed (s\<lparr>bs_file := g\<rparr>) = claimed s"
  by (simp_all add: claimed_def)

lemma map_of_claimed: "map_of (bs_filepaths s) p = None \<longleftrightarrow> p \<notin> set (claimed s)"
  by (simp add: claimed_def map_of_eq_None_iff)

definition same_place :: "'f Bs \<Rightarrow> 'f Bs \<Rightarrow> bool" where
  "same_place s s' = (place s' = place s \<and> claimed s' = claimed s)"

lemma order_same_place [simp]: "order_rel same_place"
  by (simp add: order_rel_def same_place_def)

named_theorems in_place

lemma in_place_on_fh [in_place]: "keeps same_place (on_fh m)"
  by (auto simp: keeps_def on_fh_def same_place_def place_def split: prod.splits)

lemma in_place_prims [in_place]:
  "keeps same_place (gets h)" "keeps same_place (ret x)" "keeps same_place (fail e)"
  "keeps same_place (modify (\<lambda>s. s\<lparr>bs_file := g s\<rparr>))"
  by (auto simp: keeps_def same_place_def place_def gets_def ret_def fail_def modify_def)

lemma in_place_bnd [in_place]:
  "keeps same_place m \<Longrightarrow> (\<And>x. keeps same_place (f x)) \<Longrightarrow> keeps same_place (bnd m f)"
  "keeps same_place m1 \<Longrightarrow> keeps same_place m2 \<Longrightarrow> keeps same_place (seq m1 m2)"
  by (simp_all add: keeps_bnd keeps_seq)

lemmas in_place_control [in_place] = keeps_if keeps_option keeps_sum keeps_prod keeps_Let

lemma in_place_ops [in_place]:
  "keeps same_place (require_name k nm)" "keeps same_place (or_panic x)" "keeps same_place (render c n b)"
  "keeps same_place (copyBefore c n)" "keeps same_place (injectBefore n)" "keeps same_place (fragmentBefore n)"
  "keeps same_place (fileAfter c n cs)" "keeps same_place (injectAfter c n cs)" "keeps same_place (copyWalk c n)"
  unfolding require_name_def or_panic_def render_def copyBefore_def injectBefore_def fragmentBefore_def
    fileAfter_def injectAfter_def copyWalk_def
  by (intro in_place)+

lemma in_place_copyAfter [in_place]: "keeps same_place (copyAfter c n)"
  unfolding copyAfter_def by (intro in_place) (auto split: AfterRef.splits intro: in_place)

lemma on_fh_frame:
  "on_fh m s = (s', r) \<Longrightarrow> bs_folder s' = bs_folder s \<and> bs_project s' = bs_project s \<and>
    bs_file s' = bs_file s \<and> claimed s' = claimed s"
  by (auto simp: on_fh_def split: prod.splits)

lemma require_name_ok: "require_name k nm s = (s', Inr x) \<longleftrightarrow> validName nm \<and> s' = s"
  by (auto simp: require_name_def ret_def fail_def)

lemma seq_require: "seq (require_name k nm) m s = (if validName nm then m s else (s, Inl (ErrNameTraversal k nm)))"
  by (simp add: seq_def require_name_def)

lemma seq_claim:
  "seq (claimFile p w) m s = (case map_of (bs_filepaths s) p of
     Some f \<Rightarrow> (s, Inl (ErrDuplicateFilePath p (root_name f) (root_name w)))
   | None \<Rightarrow> m (s\<lparr>bs_filepaths := (p, w) # bs_filepaths s\<rparr>))"
  by (simp add: seq_def claimFile_def bnd_def gets_def fail_def modify_def split: option.split)

lemma bnd_modify [simp]: "bnd (modify f) g s = g () (f s)"
  by (simp add: bnd_def modify_def)

lemma seq_modify [simp]: "seq (modify f) m s = m (f s)"
  by (simp add: seq_def)

lemma projectBefore_ok:
  assumes "projectBefore c n s = (s', Inr n')"
  shows "n' = n\<lparr>n_prevFolder := Some (bs_folder s), n_prevProject := bs_project s\<rparr>"
    "place s' = (\<lparr>fr_node = Some (n_Path n), fr_path = [], fr_parent = project_parent c n\<rparr>, Some (n_Path n))"
    "claimed s' = claimed s"
  using assms
  by (auto simp: projectBefore_def Let_def attempt_def place_def ret_def bnd_def [of "attempt _"]
      split: prod.splits dest!: on_fh_frame)

lemma folderBefore_ok:
  assumes "folderBefore c n s = (s', Inr x)"
  shows "validName (n_Name n)"
    "place s' = ((bs_folder s)\<lparr>fr_path := fr_path (bs_folder s) @ [n_Name n]\<rparr>, bs_project s)"
    "claimed s' = claimed s"
  using assms
  by (auto simp: folderBefore_def seq_require Let_def place_def ret_def split: if_splits dest!: on_fh_frame)

lemma fileBefore_ok:
  assumes "fileBefore n s = (s', Inr n')"
  shows "validName (n_Name n)" "n' = n\<lparr>n_FullPath := full_path (bs_folder s) (n_Name n)\<rparr>"
    "place s' = place s" "claimed s' = n_FullPath n' # claimed s"
    "n_FullPath n' \<notin> set (claimed s)"
proof -
  let ?p = "full_path (bs_folder s) (n_Name n)"
  have "validName (n_Name n) \<and> ?p \<notin> set (claimed s) \<and>
      s' = s\<lparr>bs_file := Some (n_Path n), bs_filepaths := (?p, join_with ''/'' (n_Path n)) # bs_filepaths s\<rparr> \<and>
      n' = n\<lparr>n_FullPath := ?p\<rparr>"
    using assms
    by (simp add: fileBefore_def seq_require seq_claim ret_def map_of_claimed eq_commute [of s'] eq_commute [of n']
        split: if_splits option.splits)
  then show "validName (n_Name n)" "n' = n\<lparr>n_FullPath := ?p\<rparr>" "place s' = place s"
    "claimed s' = n_FullPath n' # claimed s"
    "n_FullPath n' \<notin> set (claimed s)" by (simp_all add: place_def claimed_def)
qed

section \<open>Output paths\<close>

text \<open>The output paths of the Files of a built tree, in the order in which they were claimed.\<close>

fun file_paths :: "Node \<Rightarrow> string list" where
  "file_paths (Node n cs) =
     (if n_Kind n = KindFile then [n_FullPath n] else []) @ concat (map file_paths cs)"

text \<open>Each of them with the folder of the Project it is in.\<close>

fun placed :: "'f Bcfg \<Rightarrow> string \<Rightarrow> Node \<Rightarrow> (string \<times> string) list" where
  "placed c P (Node n cs) =
     (if n_Kind n = KindFile then [(P, n_FullPath n)] else []) @
     concat (map (placed c (if n_Kind n = KindProject then project_parent c n else P)) cs)"

text \<open>What the ops leave of a node, its kind and its output path once it is set, and what the walk
  does to the current folder and the claimed paths.\<close>

definition entered :: "'f Bcfg \<Rightarrow> NodeData \<Rightarrow> 'f Bs \<Rightarrow> 'f Bs \<Rightarrow> NodeData \<Rightarrow> bool" where
  "entered c n s s' n' =
     (n_Kind n' = n_Kind n \<and> n_Folder n' = n_Folder n \<and>
      claimed s' = (if n_Kind n = KindFile then [n_FullPath n'] else []) @ claimed s \<and>
      (n_Kind n = KindFile \<longrightarrow> n_FullPath n' \<notin> set (claimed s) \<and> validName (n_Name n) \<and>
        n_FullPath n' = full_path (bs_folder s) (n_Name n)) \<and>
      (n_Kind n = KindProject \<longrightarrow> n_prevFolder n' = Some (bs_folder s) \<and> n_prevProject n' = bs_project s \<and>
        fr_path (bs_folder s') = [] \<and> fr_parent (bs_folder s') = project_parent c n) \<and>
      (n_Kind n = KindFolder \<longrightarrow> validName (n_Name n) \<and> bs_project s' = bs_project s \<and>
        bs_folder s' = (bs_folder s)\<lparr>fr_path := fr_path (bs_folder s) @ [n_Name n]\<rparr>) \<and>
      (n_Kind n \<noteq> KindProject \<longrightarrow> n_Kind n \<noteq> KindFolder \<longrightarrow> place s' = place s))"

lemma yields_sum [yields_rules]:
  "(\<And>y. x = Inl y \<Longrightarrow> yields P (f y)) \<Longrightarrow> (\<And>y. x = Inr y \<Longrightarrow> yields P (g y)) \<Longrightarrow>
   yields P (case x of Inl y \<Rightarrow> f y | Inr y \<Rightarrow> g y)"
  by (cases x) auto

lemma yieldsD: "yields P m \<Longrightarrow> m s = (s', Inr x) \<Longrightarrow> P x"
  by (auto simp: yields_def)

lemma copyBefore_node: "yields (\<lambda>n'. n_Kind n' = n_Kind n \<and> n_Folder n' = n_Folder n) (copyBefore c n)"
  unfolding copyBefore_def Let_def by (intro yields_rules) auto

lemma before_enters:
  assumes "op_before c n s = (s', Inr n')"
  shows "entered c n s s' n'"
proof (cases "n_Kind n")
  case KindProject
  then show ?thesis using assms projectBefore_ok [of c n s s' n'] by (simp add: op_before_def entered_def place_def)
next
  case KindFolder
  then obtain "folderBefore c n s = (s', Inr ())" "n' = n"
    using assms by (auto simp: op_before_def seq_def ret_def elim!: bnd_cases)
  then show ?thesis using KindFolder folderBefore_ok [of c n s s' "()"] by (simp add: entered_def place_def)
next
  case KindFile
  then show ?thesis using assms fileBefore_ok [of n s s' n'] by (simp add: op_before_def entered_def)
next
  case KindCopy
  then have run: "copyBefore c n s = (s', Inr n')" using assms by (simp add: op_before_def)
  have "same_place s s'" using keepsD [OF in_place_ops(4) run] .
  moreover have "n_Kind n' = n_Kind n \<and> n_Folder n' = n_Folder n"
    using yieldsD [OF copyBefore_node run] .
  ultimately show ?thesis using KindCopy by (simp add: entered_def same_place_def)
next
  case KindInject
  then have run: "injectBefore n s = (s', Inr n')" using assms by (simp add: op_before_def)
  have "same_place s s'" using keepsD [OF in_place_ops(5) run] .
  moreover have "n_Kind n' = n_Kind n \<and> n_Folder n' = n_Folder n"
    using run by (auto simp: injectBefore_def seq_require ret_def split: if_splits)
  ultimately show ?thesis using KindInject by (simp add: entered_def same_place_def)
qed (use assms in \<open>auto simp: op_before_def entered_def ret_def fail_def fragmentBefore_def gets_def place_def\<close>)

text \<open>Leaving a node puts the folder and the project back.\<close>

lemma after_leaves:
  assumes "op_after c n cs t = (t', Inr n'')"
  shows "n_Kind n'' = n_Kind n" "n_FullPath n'' = n_FullPath n" "n_Folder n'' = n_Folder n"
    "claimed t' = claimed t"
    "n_Kind n = KindProject \<Longrightarrow> n_prevFolder n = Some f \<Longrightarrow> place t' = (f, n_prevProject n)"
    "n_Kind n = KindFolder \<Longrightarrow> place t' = ((bs_folder t)\<lparr>fr_path := butlast (fr_path (bs_folder t))\<rparr>, bs_project t)"
    "n_Kind n \<noteq> KindProject \<Longrightarrow> n_Kind n \<noteq> KindFolder \<Longrightarrow> place t' = place t"
proof -
  let ?node = "\<lambda>m. n_Kind m = n_Kind n \<and> n_FullPath m = n_FullPath n \<and> n_Folder m = n_Folder n"
  have "yields ?node (op_after c n cs)"
    unfolding op_after_def fileAfter_def fragmentAfter_def Let_def
    by (auto split: Kind.split intro!: yields_rules)
  from yieldsD [OF this assms]
  show "n_Kind n'' = n_Kind n" "n_FullPath n'' = n_FullPath n" "n_Folder n'' = n_Folder n" by auto
  have other: "same_place t t'" if "n_Kind n \<noteq> KindProject" "n_Kind n \<noteq> KindFolder"
  proof -
    have "keeps same_place (op_after c n cs)"
      using that unfolding op_after_def by (auto split: Kind.split intro!: in_place)
    from keepsD [OF this assms] show ?thesis .
  qed
  then show "n_Kind n \<noteq> KindProject \<Longrightarrow> n_Kind n \<noteq> KindFolder \<Longrightarrow> place t' = place t"
    by (simp add: same_place_def)
  have project: "t' = t\<lparr>bs_folder := (case n_prevFolder n of None \<Rightarrow> bs_folder t | Some f \<Rightarrow> f),
      bs_project := n_prevProject n\<rparr>" if "n_Kind n = KindProject"
    using assms that
    by (auto simp: op_after_def projectAfter_def seq_def ret_def bnd_def modify_def split: option.splits)
  have folder: "t' = t\<lparr>bs_folder := (bs_folder t)\<lparr>fr_path := butlast (fr_path (bs_folder t))\<rparr>\<rparr>"
    if "n_Kind n = KindFolder"
    using assms that by (auto simp: op_after_def folderAfter_def ret_def)
  show "claimed t' = claimed t"
    using other project folder
    by (cases "n_Kind n = KindProject"; cases "n_Kind n = KindFolder") (simp_all add: same_place_def)
  show "n_Kind n = KindProject \<Longrightarrow> n_prevFolder n = Some f \<Longrightarrow> place t' = (f, n_prevProject n)"
    using project by (simp add: place_def)
  show "n_Kind n = KindFolder \<Longrightarrow> place t' = ((bs_folder t)\<lparr>fr_path := butlast (fr_path (bs_folder t))\<rparr>, bs_project t)"
    using folder by (simp add: place_def)
qed

lemma wrapping_ok: "wrapping n m s = (s', Inr x) \<longleftrightarrow> m s = (s', Inr x)"
  by (auto simp: wrapping_def split: prod.splits sum.splits)

lemma step_ok:
  assumes "step c (Node n cs) s = (s', Inr t')"
  obtains n1 s1 cs' s2 n2 where "op_before c n s = (s1, Inr n1)" "step_list c cs s1 = (s2, Inr cs')"
    "op_after c n1 cs' s2 = (s', Inr n2)" "t' = Node n2 cs'"
  using assms by (auto simp: wrapping_ok ret_def elim!: bnd_cases)

lemma step_list_ok:
  assumes "step_list c (x # xs) s = (s', Inr ts)"
  obtains t s1 us where "step c x s = (s1, Inr t)" "step_list c xs s1 = (s', Inr us)" "ts = t # us"
  using assms by (auto simp: wrapping_ok ret_def elim!: bnd_cases)

text \<open>Between the two ops of a node, and around the whole walk of a node.\<close>

definition walked :: "'f Bs \<Rightarrow> string list \<Rightarrow> 'f Bs \<Rightarrow> bool" where
  "walked s ps s' =
     (place s' = place s \<and> claimed s' = rev ps @ claimed s \<and>
      (distinct (claimed s) \<longrightarrow> distinct (claimed s')))"

lemma walked_trans: "walked s ps t \<Longrightarrow> walked t qs u \<Longrightarrow> walked s (ps @ qs) u"
  by (auto simp: walked_def)

lemma step_walked:
  shows "step c t s = (s', Inr t') \<Longrightarrow> walked s (file_paths t') s'"
    and "step_list c ts s = (s', Inr ts') \<Longrightarrow> walked s (concat (map file_paths ts')) s'"
proof (induction c t and c ts arbitrary: s s' t' and s s' ts' rule: step_step_list.induct)
  case (1 c n cs)
  from step_ok [OF 1(2)] obtain n1 s1 cs' s2 n2 where
    b: "op_before c n s = (s1, Inr n1)" and l: "step_list c cs s1 = (s2, Inr cs')" and
    a: "op_after c n1 cs' s2 = (s', Inr n2)" and t: "t' = Node n2 cs'" .
  note e = before_enters [OF b] and w = 1(1) [OF l] and af = after_leaves [OF a]
  have place: "place s' = place s"
  proof (cases "n_Kind n")
    case KindProject
    then show ?thesis using e af(5) [of "bs_folder s"] by (simp add: entered_def place_def)
  next
    case KindFolder
    then show ?thesis using e af(6) w by (simp add: entered_def place_def walked_def)
  qed (use e af(7) w in \<open>simp_all add: entered_def walked_def\<close>)
  have "claimed s1 = (if n_Kind n = KindFile then [n_FullPath n1] else []) @ claimed s"
    "n_Kind n1 = n_Kind n" "n_Kind n = KindFile \<longrightarrow> n_FullPath n1 \<notin> set (claimed s)"
    using e unfolding entered_def by blast+
  moreover define ps where "ps = concat (map file_paths cs')"
  then have "walked s1 ps s2" "file_paths t' = (if n_Kind n2 = KindFile then [n_FullPath n2] else []) @ ps"
    using w by (simp_all add: t)
  ultimately show ?case using place af(1,2,4) by (auto simp: walked_def)
next
  case (2 c)
  then show ?case by (simp add: ret_def walked_def)
next
  case (3 c x xs)
  from step_list_ok [OF 3(3)] obtain t s1 us where
    x: "step c x s = (s1, Inr t)" and xs: "step_list c xs s1 = (s', Inr us)" and ts: "ts' = t # us" .
  show ?case using walked_trans [OF 3(1) [OF x] 3(2) [OF xs]] by (simp add: ts)
qed

section \<open>Containment\<close>

lemma validName_join: "validName (join_with ''/'' ws) = list_all validName ws"
proof (induction ws rule: induct_list012)
  case (3 a b ws)
  have "fields_func (\<lambda>c. c = SLASH \<or> c = BSLASH) (a @ SLASH # t)
      = fields_func (\<lambda>c. c = SLASH \<or> c = BSLASH) a @ fields_func (\<lambda>c. c = SLASH \<or> c = BSLASH) t" for t
    by (simp add: fields_func_def split_by_append)
  then have "validName (a @ SLASH # t) = (validName a \<and> validName t)" for t
    by (auto simp: validName_def fields_func_def)
  then show ?case using 3 by simp
qed (simp_all add: validName_def)

text \<open>A folder of a Project in canonical form, with the names of the Folders passed since.\<close>

definition good_folder :: "string \<Rightarrow> folderRef \<Rightarrow> bool" where
  "good_folder P f = (fr_parent f = P \<and> (\<exists>g. g \<noteq> [] \<and> P = canonFolder g) \<and> list_all validName (fr_path f))"

lemma canonFolder_not_Nil [simp]: "canonFolder g \<noteq> []"
  by (simp add: canonFolder_clean)

lemma canonFolder_idem: "canonFolder (canonFolder g) = canonFolder g"
  by (simp add: canonFolder_clean)

lemma full_path_within:
  assumes "good_folder P f" and "validName name"
  shows "withinFolder False P (full_path f name)"
proof -
  obtain g where P: "P = canonFolder g" "fr_parent f = P" and ps: "list_all validName (fr_path f)"
    using assms(1) by (auto simp: good_folder_def)
  let ?dir = "join_with ''/'' (fr_path f)"
  define w where "w = (if ?dir \<noteq> [] then join_with ''/'' [?dir, name] else name)"
  have v: "validName w" using ps assms(2) validName_join [of "fr_path f"] validName_join [of "[?dir, name]"]
    by (simp add: w_def)
  have "full_path f name = canonOutPath (P @ ''/'' @ w)"
    using P by (simp add: full_path_def current_dir_def Let_def w_def)
  moreover have "canonFolder P = P" "P \<noteq> []" using P canonFolder_idem by simp_all
  ultimately show ?thesis using valid_name_within [OF _ v, of P] by simp
qed

lemma project_parent_canon: "\<exists>g. g \<noteq> [] \<and> project_parent c n = canonFolder g"
proof -
  let ?folder = "if b_folder c = [] then DOT else b_folder c"
  let ?g = "if n_Folder n \<noteq> [] then (if isAbsFromPathOn (n_Folder n) (c_windows (b_cfg c)) then n_Folder n
    else ?folder @ ''/'' @ n_Folder n) else ?folder"
  have "?g \<noteq> []" by simp
  moreover have "project_parent c n = canonFolder ?g" by (simp add: project_parent_def canonFolder_clean Let_def)
  ultimately show ?thesis by blast
qed

definition contained :: "(string \<times> string) list \<Rightarrow> bool" where
  "contained ps = list_all (\<lambda>(P, p). withinFolder False P p) ps"

lemma contained_append [simp]: "contained (a @ b) = (contained a \<and> contained b)" "contained []"
  by (simp_all add: contained_def)

lemma contained_one [simp]: "contained [(P, p)] = withinFolder False P p"
  by (simp add: contained_def)

lemma step_contained:
  shows "step c t s = (s', Inr t') \<Longrightarrow> good_folder P (bs_folder s) \<Longrightarrow> contained (placed c P t')"
    and "step_list c ts s = (s', Inr ts') \<Longrightarrow> good_folder P (bs_folder s) \<Longrightarrow>
      contained (concat (map (placed c P) ts'))"
proof (induction c t and c ts arbitrary: s s' t' P and s s' ts' P rule: step_step_list.induct)
  case (1 c n cs)
  from step_ok [OF 1(2)] obtain n1 s1 cs' s2 n2 where
    b: "op_before c n s = (s1, Inr n1)" and l: "step_list c cs s1 = (s2, Inr cs')" and
    a: "op_after c n1 cs' s2 = (s', Inr n2)" and t: "t' = Node n2 cs'" .
  note e = before_enters [OF b] and af = after_leaves [OF a]
  let ?Q = "if n_Kind n = KindProject then project_parent c n else P"
  have "good_folder ?Q (bs_folder s1)"
  proof (cases "n_Kind n = KindProject \<or> n_Kind n = KindFolder")
    case True
    then show ?thesis using e 1(3) project_parent_canon [of c n]
      by (auto simp: entered_def good_folder_def)
  next
    case False
    then show ?thesis using e 1(3) by (simp add: entered_def place_def)
  qed
  from 1(1) [OF l this] have "contained (concat (map (placed c ?Q) cs'))" .
  moreover have keep: "n_Kind n2 = n_Kind n" "n_Folder n2 = n_Folder n"
    using e af(1,3) unfolding entered_def by argo+
  moreover have "project_parent c n2 = project_parent c n" unfolding project_parent_def keep(2) ..
  moreover have "n_Kind n = KindFile \<longrightarrow> withinFolder False P (n_FullPath n2)"
    using e af(2) full_path_within [OF 1(3)] by (auto simp: entered_def)
  ultimately show ?case by (cases "n_Kind n = KindProject") (simp_all add: t)
next
  case (2 c)
  then show ?case by (simp add: ret_def)
next
  case (3 c x xs)
  from step_list_ok [OF 3(3)] obtain t s1 us where
    x: "step c x s = (s1, Inr t)" and xs: "step_list c xs s1 = (s', Inr us)" and ts: "ts' = t # us" .
  have "bs_folder s1 = bs_folder s" using step_walked(1) [OF x] by (simp add: walked_def place_def)
  then show ?case using 3(1) [OF x 3(4)] 3(2) [OF xs] 3(4) by (simp add: ts)
qed

section \<open>A sample build\<close>

text \<open>One File of one Content, in a Folder of a Project.\<close>

definition blankNode :: "Kind \<Rightarrow> string \<Rightarrow> string list \<Rightarrow> NodeData" where
  "blankNode k name path =
     \<lparr>n_Kind = k, n_Name = name, n_Path = path, n_FullPath = [], n_Folder = [], n_From = [], n_Indent = Null,
      n_Exclude = Null, n_Mode = 0, n_Replace = [], n_Markers = ([], []), n_Content = [], n_After = None,
      n_callsite = [], n_copyBinary = False, n_parentFile = None, n_prevFolder = None, n_prevProject = None\<rparr>"

definition sampleTree :: "string \<Rightarrow> string \<Rightarrow> Node" where
  "sampleTree name body =
     Node (blankNode KindNone [] [])
      [Node ((blankNode KindProject ''p'' [''p''])\<lparr>n_Folder := ''app''\<rparr>)
        [Node (blankNode KindFolder ''src'' [''p'', ''src''])
          [Node (blankNode KindFile name [''p'', ''src'', name])
            [Node ((blankNode KindContent [] [''p'', ''src'', name])\<lparr>n_Content := [body]\<rparr>) []]]]]"

definition sampleBcfg :: "Control \<Rightarrow> MemVol Bcfg" where
  "sampleBcfg ct = \<lparr>b_cfg = sampleCfg ct (ex_Txt noExisting), b_folder = ''/o'', b_exclude = False, b_ignore = [],
     b_template = (\<lambda>src rep. Inr src)\<rparr>"

definition sampleRun :: "MemVol Bs \<times> (error + Node)" where
  "sampleRun = step (sampleBcfg (noControl\<lparr>ct_Dryrun := True\<rparr>)) (sampleTree ''a'' ''hi'') (newBuildCtx ''/o'' (sampleFh []))"

lemma sampleRun_files: "\<exists>s' t'. sampleRun = (s', Inr t') \<and> file_paths t' = [''/o/app/src/a'']"
proof -
  have "case sampleRun of (s', Inr t') \<Rightarrow> file_paths t' = [''/o/app/src/a''] | _ \<Rightarrow> False"
    by code_simp
  then show ?thesis by (auto split: prod.splits sum.splits)
qed

section \<open>Claims\<close>

text \<open>C19: a dry run of a whole build writes nothing: whatever the tree, and whether the build ends well
  or in an error, the volume is the one it started with.\<close>

theorem dry_build_writes_nothing:
  assumes "ct_Dryrun (c_control (b_cfg c))"
  shows "fh_vol (bs_fh (fst (runBuild c tree s))) = fh_vol (bs_fh s)"
  using keepsD [OF run_frame.S_run(1) [OF dry_frame [OF assms] refl] prod.collapse [symmetric]]
  by (simp add: on_vol_def same_vol_def)

theorem dry_build_writes_nothing_witness:
  "fh_vol (bs_fh (fst (runBuild (sampleBcfg (noControl\<lparr>ct_Dryrun := True\<rparr>)) (Some (sampleTree ''a'' ''hi''))
     (newBuildCtx ''/o'' (sampleFh [(''/o/app/src/a'', Some ''y'')]))))) = fh_vol (sampleFh [(''/o/app/src/a'', Some ''y'')])"
  by (subst dry_build_writes_nothing) (simp_all add: sampleBcfg_def sampleCfg_def newBuildCtx_def)

text \<open>C20: no two Files of a build that ends well share an output path, each claim of a path is by a
  File, and the walk leaves the current folder and the current project as it found them.\<close>

theorem build_paths_unique:
  assumes "step c t s = (s', Inr t')" and "bs_filepaths s = []"
  shows "distinct (file_paths t') \<and> map fst (bs_filepaths s') = rev (file_paths t') \<and>
    bs_folder s' = bs_folder s \<and> bs_project s' = bs_project s"
  using step_walked(1) [OF assms(1)] assms(2) by (auto simp: walked_def claimed_def place_def)

theorem build_paths_unique_witness:
  "\<exists>s' t'. sampleRun = (s', Inr t') \<and> map fst (bs_filepaths s') = [''/o/app/src/a''] \<and> bs_project s' = None"
proof -
  obtain s' t' where run: "sampleRun = (s', Inr t')" "file_paths t' = [''/o/app/src/a'']"
    using sampleRun_files by blast
  from build_paths_unique [OF run(1) [unfolded sampleRun_def]] run(2)
  have "map fst (bs_filepaths s') = [''/o/app/src/a''] \<and> bs_project s' = None" by (simp add: newBuildCtx_def)
  then show ?thesis using run(1) by (intro exI [of _ s'] exI [of _ t']) simp
qed

text \<open>C21: however deep a model nests its Folders, no File escapes: in a build that ends well, the output
  path of each File lies within the folder of the Project around it.\<close>

theorem build_stays_inside:
  assumes "step c t s = (s', Inr t')" and "fr_path (bs_folder s) = []"
    and "fr_parent (bs_folder s) = canonFolder folder" and "folder \<noteq> []"
  shows "list_all (\<lambda>(P, p). withinFolder False P p) (placed c (canonFolder folder) t')"
  using step_contained(1) [OF assms(1), of "canonFolder folder"] assms(2-4)
  by (auto simp: good_folder_def contained_def)

theorem build_stays_inside_witness:
  "\<exists>s' t'. sampleRun = (s', Inr t') \<and> list_all (\<lambda>(P, p). withinFolder False P p)
     (placed (sampleBcfg (noControl\<lparr>ct_Dryrun := True\<rparr>)) (canonFolder ''/o'') t')"
proof -
  obtain s' t' where run: "sampleRun = (s', Inr t')" using sampleRun_files by blast
  have "canonFolder ''/o'' = ''/o''" by code_simp
  then have "list_all (\<lambda>(P, p). withinFolder False P p)
      (placed (sampleBcfg (noControl\<lparr>ct_Dryrun := True\<rparr>)) (canonFolder ''/o'') t')"
    by (intro build_stays_inside [OF run [unfolded sampleRun_def]]) (simp_all add: newBuildCtx_def)
  then show ?thesis using run by blast
qed

end
