(* ===== verification/FhWrite.thy ===== *)
theory FhWrite
  imports FhMerge
begin

text \<open>
  A save under the default modes, in which an existing file is overwritten: the file ends up holding
  exactly the generated content, unless it carries the protect marker.
\<close>

definition write_only :: "modeBits \<Rightarrow> bool" where
  "write_only m = (mb_write m \<and> \<not> mb_diff m \<and> \<not> mb_merge m \<and> \<not> mb_preserve m)"

context fh_run
begin

lemma save_write_ok:
  assumes "inv (fh_vol s)" and "\<not> ct_Dryrun (c_control c)" and "canonOutPath p = p"
    and "sv_write sv" and "sv_unchanged sv \<Longrightarrow> held api (fh_vol s) p = Some content"
    and run: "save_write c whence p content mode sv s = (t, Inr sv')"
  shows "inv (fh_vol t) \<and> held api (fh_vol t) p = Some content"
proof -
  from bnd_ok [OF run [unfolded save_write_def if_P [OF assms(4)]]] obtain sv1 s1
    where body: "(if sv_unchanged sv then
               bnd (apply_mode c p mode (because ''unchanged-0'' sv)) (\<lambda>sv.
                 seq (filelog ''unchanged'' p) (ret sv))
             else
               let sv = because ''write-1'' sv
               in seq (saveFile c p content mode (whence @ ''write''))
                    (seq (filelog ''written'' p) (ret sv))) s = (s1, Inr sv1)"
    and fin: "bnd (final_action c ''write'' sv1) (\<lambda>sv. ret (sv\<lparr>sv_landed := True\<rparr>)) s1 = (t, Inr sv')"
    by blast
  have "keeps same_ctx (bnd (final_action c ''write'' sv1) (\<lambda>sv. ret (sv\<lparr>sv_landed := True\<rparr>)))"
    by (intro ctx_steps same_ctx_calls)
  from same_ctxD [OF this fin] have t: "fh_vol t = fh_vol s1" by simp
  show ?thesis
  proof (cases "sv_unchanged sv")
    case True
    have "keeps (kept {}) (bnd (apply_mode c p mode (because ''unchanged-0'' sv)) (\<lambda>sv.
        seq (filelog ''unchanged'' p) (ret sv)))"
      by (intro kept_bnd kept_seq kept_apply_mode keeps_rules order_kept kept_quiet [OF same_vol_prims(4)])
    from keepsD [OF this] body True assms(1)
    have "inv (fh_vol s1) \<and> spares api key {} (fh_vol s) (fh_vol s1)" by (simp add: kept_def)
    then show ?thesis using assms(5) [OF True] t by (auto elim: sparesD)
  next
    case False
    then have "seq (saveFile c p content mode (whence @ ''write''))
        (seq (filelog ''written'' p) (ret (because ''write-1'' sv))) s = (s1, Inr sv1)"
      using body by simp
    from seq_ok [OF this] obtain s2 where sf: "saveFile c p content mode (whence @ ''write'') s = (s2, Inr ())"
      and r: "seq (filelog ''written'' p) (ret (because ''write-1'' sv)) s2 = (s1, Inr sv1)" by blast
    have "keeps same_ctx (seq (filelog ''written'' p) (ret (because ''write-1'' sv)))"
      by (intro ctx_steps same_ctx_prims)
    from same_ctxD [OF this r] saveFile_result [OF assms(1,2) sf] t assms(3)
    show ?thesis by (simp add: put_result_def)
  qed
qed

lemma write_save:
  fixes content :: bytes and p0 :: string
  defines "p \<equiv> canonOutPath p0"
  assumes "inv (fh_vol s)" and "\<not> ct_Dryrun (c_control c)" and "write_only (modesFor c isText)"
    and "key p \<notin> key ` sidecars c p"
    and run: "saveAs c p0 content whence tagged mode isText s = (s', Inr ())"
  shows "held api (fh_vol s') p = Some content \<or>
    (\<exists>b. held api (fh_vol s') p = Some b \<and> str_contains b protectMarker)"
proof -
  let ?m = "modesFor c isText"
  have p: "canonOutPath p = p" by (simp add: p_def)
  have dup: "key (duplicateFolder c @ ''/'' @ relative (c_folder c) p) \<noteq> key p" using assms(5) by (auto simp: sidecars_def)
  have landed: ?thesis if out: "with_outcome c p whence tagged content mode ?m sv t = (s', Inr ())" and "inv (fh_vol t)" "sv_write sv"
    "sv_unchanged sv \<Longrightarrow> held api (fh_vol t) p = Some content" for sv t
  proof -
    from bnd_ok [OF out [unfolded with_outcome_def Let_def]] obtain sv2 t2
      where w: "save_write c whence p content mode sv t = (t2, Inr sv2)"
        and r: "bnd (save_duplicate c p (relative (c_folder c) p) content sv2) (\<lambda>sv. save_finish c
          (''FileHandler:save:'' @ (if tagged then wstrOf whence else [])) p (relative (c_folder c) p) content ?m sv) t2 = (s', Inr ())"
      by blast
    have h: "inv (fh_vol t2) \<and> held api (fh_vol t2) p = Some content"
      using save_write_ok [OF that(2) assms(3) p that(3,4) w] .
    have "keeps (kept {key (duplicateFolder c @ ''/'' @ relative (c_folder c) p)})
        (bnd (save_duplicate c p rp content sv2) (\<lambda>sv. save_finish c dtag p rp content ?m sv))"
      if "rp = relative (c_folder c) p" for rp dtag
      unfolding that by (intro kept_bnd kept_save_duplicate kept_quiet [OF same_vol_loads(5)])
    from keepsD [OF this [OF refl] r] h show ?thesis using dup by (auto simp: kept_def elim: sparesD)
  qed
  show ?thesis
  proof (cases "api_Exists api (fh_vol s) p")
    case False
    obtain s1 where n: "note_save p s = (s1, Inr ())"
      by (cases "p \<in> set (fh_saved s)") (auto simp: note_save_def warn_def modify_def)
    have v1: "fh_vol s1 = fh_vol s" using same_ctxD [OF same_ctx_prims(5) n] by simp
    have "p0 \<noteq> []" using run by (auto simp: saveAs_def fail_def)
    then have "with_outcome c p whence tagged content mode ?m (start_vars (relative (c_folder c) p) False) s1 = (s', Inr ())"
      using run n v1 False
      unfolding saveAs_def p_def [symmetric] with_outcome_def Let_def seq_def fs_ask_def c_api by (simp add: bnd_run_ok)
    then show ?thesis by (rule landed) (use assms(2) v1 in \<open>simp_all add: start_vars_def\<close>)
  next
    case True
    then show ?thesis
    proof (cases rule: saveAs_there [OF True [unfolded p_def] run, folded p_def, case_names stopped loaded])
      case (loaded b s2)
      show ?thesis
      proof (cases "str_contains b protectMarker")
        case True
        note spared = protected_save [OF assms(2) loaded(1) [unfolded p_def] True run, folded p_def]
        have "held api (fh_vol s') p = Some b"
          by (rule sparesD [OF spared _ loaded(1)]) (use dup assms(5) in \<open>auto simp: sidecars_def\<close>)
        then show ?thesis using True by blast
      next
        case False
        have m: "mb_write ?m" "\<not> mb_diff ?m" "\<not> mb_merge ?m" "\<not> mb_preserve ?m"
          using assms(4) by (simp_all add: write_only_def)
        obtain sv s3 where "with_existing c p whence tagged content mode ?m b s2 = (s3, Inr sv)"
          and out: "with_outcome c p whence tagged content mode ?m sv s3 = (s', Inr ())" using bnd_ok [OF loaded(4)] by blast
        then have "s3 = s2" "sv_write sv" "sv_unchanged sv = (b = content)"
          using m False
          by (auto simp: with_existing_def save_preserve_def save_present_def because_def start_vars_def ret_def Let_def)
        then show ?thesis using landed [OF out] assms(2) loaded(1,2) by simp
      qed
    qed simp
  qed
qed

end

end
