(* ===== verification/BuildWrite.thy ===== *)
theory BuildWrite
  imports BuildProps FhWrite
begin

text \<open>
  What a build leaves on the filesystem: with the default modes, each File's text at its path.
\<close>

text \<open>A tree of what writes no file but its Files, none of which is excluded.\<close>

fun plain_tree :: "Node \<Rightarrow> bool" where
  "plain_tree (Node n cs) =
     (n_Kind n \<notin> {KindCopy, KindInject} \<and> (n_Kind n = KindFile \<longrightarrow> \<not> fileExcluded n) \<and> list_all plain_tree cs)"

text \<open>The Files of a built tree, each with its output path and its text.\<close>

fun file_texts :: "Node \<Rightarrow> (string \<times> string) list" where
  "file_texts (Node n cs) =
     (if n_Kind n = KindFile then [(n_FullPath n, collectInPlace cs)] else []) @ concat (map file_texts cs)"

lemma file_texts_paths: "map fst (file_texts t) = file_paths t"
proof (induction t)
  case (Node n cs)
  then have "map (map fst \<circ> file_texts) cs = map file_paths cs" by simp
  then show ?case by (simp add: map_concat del: map_eq_conv)
qed

lemma canonOutPath_not_Nil: "canonOutPath p \<noteq> []"
  using canonOutPath_cases [of p] by auto

definition touches :: "'f Cfg \<Rightarrow> (string \<Rightarrow> string) \<Rightarrow> string list \<Rightarrow> string set" where
  "touches c key ps = (\<Union>p \<in> set ps. insert (key p) (key ` sidecars c p))"

text \<open>No path of the list names the same file as another, or as one that is written beside one.\<close>

fun apart :: "'f Cfg \<Rightarrow> (string \<Rightarrow> string) \<Rightarrow> string list \<Rightarrow> bool" where
  "apart c key [] = True"
| "apart c key (p # ps) =
     (key p \<notin> key ` sidecars c p \<and>
      (\<forall>q \<in> set ps. key p \<notin> insert (key q) (key ` sidecars c q) \<and> key q \<notin> insert (key p) (key ` sidecars c p)) \<and>
      apart c key ps)"

lemma touches_simps [simp]:
  "touches c key [] = {}" "touches c key (p # ps) = insert (key p) (key ` sidecars c p) \<union> touches c key ps"
  "touches c key (ps @ qs) = touches c key ps \<union> touches c key qs"
  by (auto simp: touches_def)

lemma apart_append:
  "apart c key (ps @ qs) \<longleftrightarrow> apart c key ps \<and> apart c key qs \<and>
     (\<forall>p \<in> set ps. \<forall>q \<in> set qs. key p \<notin> insert (key q) (key ` sidecars c q) \<and> key q \<notin> insert (key p) (key ` sidecars c p))"
  by (induction ps) (simp, simp only: append_Cons apart.simps set_append ball_Un list.set ball_simps, blast)

lemma apart_touches:
  assumes "apart c key (ps @ qs)"
  shows "p \<in> set ps \<Longrightarrow> key p \<notin> touches c key qs" "q \<in> set qs \<Longrightarrow> key q \<notin> touches c key ps"
  using assms by (fastforce simp: apart_append touches_def)+

definition written :: "'f FS \<Rightarrow> 'f \<Rightarrow> string \<times> string \<Rightarrow> bool" where
  "written api v f = (held api v (fst f) = Some (snd f) \<or>
     (\<exists>b. held api v (fst f) = Some b \<and> str_contains b protectMarker))"

lemma written_spared:
  "written api v f \<Longrightarrow> spares api key K v w \<Longrightarrow> key (fst f) \<notin> K \<Longrightarrow> written api w f"
  unfolding written_def by (auto elim: sparesD)

context fh_run
begin

lemma plain_before:
  assumes "b_cfg b = c" and "n_Kind n \<notin> {KindCopy, KindInject}"
  shows "keeps (on_vol (kept {})) (op_before b n)"
proof -
  have ens: "keeps (kept {}) (ensureFolder (b_cfg b) p)" for p using kept_ensureFolder assms(1) by simp
  have "keeps (on_vol (kept {})) (projectBefore b n)" "keeps (on_vol (kept {})) (folderBefore b n)"
    "keeps (on_vol (kept {})) (fileBefore n)" "keeps (on_vol (kept {})) (fragmentBefore n)"
    unfolding projectBefore_def folderBefore_def fileBefore_def fragmentBefore_def
    by (intro still order_kept ens)+
  then show ?thesis
    using assms(2) unfolding op_before_def by (auto split: Kind.splits intro: still_prims(2,3) still_bnd order_kept)
qed

lemma plain_after:
  assumes "b_cfg b = c" and "n_Kind n \<notin> {KindCopy, KindInject, KindFile}"
  shows "keeps (on_vol (kept {})) (op_after b n cs)"
proof -
  have "keeps (on_vol (kept {})) (projectAfter n)" "keeps (on_vol (kept {})) (folderAfter :: ('f Bs, unit) comp)"
    unfolding projectAfter_def folderAfter_def by (intro still order_kept)+
  then show ?thesis
    using assms(2) unfolding op_after_def by (auto split: Kind.splits intro: still_prims(2,3) still_bnd order_kept)
qed

lemma plain_file:
  assumes "b_cfg b = c" and "\<not> b_exclude b" and "\<not> fileExcluded n" and "n_FullPath n = canonOutPath p"
    and "inv (fh_vol (bs_fh s))" and "\<not> ct_Dryrun (c_control c)" and "\<And>isText. write_only (modesFor c isText)"
    and run: "fileAfter b n cs s = (s', Inr n')"
  defines "q \<equiv> canonOutPath p"
  shows "kept (insert (key q) (key ` sidecars c q)) (bs_fh s) (bs_fh s')"
    "key q \<notin> key ` sidecars c q \<Longrightarrow> written api (fh_vol (bs_fh s')) (q, collectInPlace cs)"
proof -
  obtain h where sv: "saveMode c q (collectInPlace cs) ''FileOp:after:'' (n_Mode n) (bs_fh s) = (h, Inr ())"
    and s': "s' = s\<lparr>bs_fh := h\<rparr>"
    using run assms(1-4) canonOutPath_not_Nil [of p]
    by (auto simp: fileAfter_def Let_def fs_ask_def fileTouched_def on_fh_def seq_def q_def ret_def bnd_def gets_def
        split: prod.splits sum.splits if_splits)
  then have sv: "saveAs c q (collectInPlace cs) ''FileOp:after:'' False (n_Mode n)
      (\<not> IsBinExt (c_windows c) (canonOutPath q)) (bs_fh s) = (h, Inr ())" by (simp add: saveMode_def)
  from keepsD [OF kept_saveAs sv] show "kept (insert (key q) (key ` sidecars c q)) (bs_fh s) (bs_fh s')"
    by (simp add: s' q_def)
  show "written api (fh_vol (bs_fh s')) (q, collectInPlace cs)" if "key q \<notin> key ` sidecars c q"
    using write_save [OF assms(5-7) _ sv] that by (simp add: s' q_def written_def)
qed

definition built :: "'f Bs \<Rightarrow> 'f Bs \<Rightarrow> string list \<Rightarrow> (string \<times> string) list \<Rightarrow> bool" where
  "built s s' ps fs =
     (inv (fh_vol (bs_fh s)) \<longrightarrow> inv (fh_vol (bs_fh s')) \<and>
        spares api key (touches c key ps) (fh_vol (bs_fh s)) (fh_vol (bs_fh s')) \<and>
        (apart c key ps \<longrightarrow> list_all (written api (fh_vol (bs_fh s'))) fs))"

lemma built_append:
  assumes "built s t ps fs" "built t u qs gs" and "map fst fs = ps"
  shows "built s u (ps @ qs) (fs @ gs)"
proof -
  have "list_all (written api (fh_vol (bs_fh u))) fs"
    if "list_all (written api (fh_vol (bs_fh t))) fs" "spares api key (touches c key qs) (fh_vol (bs_fh t)) (fh_vol (bs_fh u))"
      "apart c key (ps @ qs)"
    unfolding list_all_iff
  proof (rule ballI)
    fix f assume "f \<in> set fs"
    then have "fst f \<in> set ps" "written api (fh_vol (bs_fh t)) f" using assms(3) that(1) by (auto simp: list_all_iff)
    then show "written api (fh_vol (bs_fh u)) f"
      using apart_touches(1) [OF that(3)] written_spared [OF _ that(2)] by blast
  qed
  moreover have "spares api key (touches c key (ps @ qs)) v w"
    if "spares api key (touches c key ps) v x" "spares api key (touches c key qs) x w" for v w x
    using that spares_mono [of api key _ _ _ "touches c key (ps @ qs)"] by (auto intro: spares_trans)
  ultimately show ?thesis using assms(1,2) unfolding built_def apart_append list_all_append by blast
qed

lemma built_kept: "kept {} (bs_fh s) (bs_fh t) \<Longrightarrow> built s t [] []"
  by (auto simp: built_def kept_def)

lemma built_rotate: "built s t (ps @ [p]) (fs @ [f]) \<Longrightarrow> built s t (p # ps) (f # fs)"
  unfolding built_def by (auto simp: apart_append Un_commute)

lemma built_trans_Nil:
  "built s t [] [] \<Longrightarrow> built t u ps fs \<Longrightarrow> built s u ps fs"
  "built s t ps fs \<Longrightarrow> built t u [] [] \<Longrightarrow> map fst fs = ps \<Longrightarrow> built s u ps fs"
  using built_append [of s t "[]" "[]" u ps fs] built_append [of s t ps fs u "[]" "[]"] by simp_all

lemma map_file_texts: "map fst (concat (map file_texts ts)) = concat (map file_paths ts)"
  by (simp add: map_concat file_texts_paths comp_def)

lemma step_built:
  assumes cfg: "\<not> ct_Dryrun (c_control c)" "\<And>isText. write_only (modesFor c isText)"
  shows "step b t s = (s', Inr t') \<Longrightarrow> b_cfg b = c \<Longrightarrow> \<not> b_exclude b \<Longrightarrow> plain_tree t \<Longrightarrow>
      built s s' (file_paths t') (file_texts t')"
    and "step_list b ts s = (s', Inr ts') \<Longrightarrow> b_cfg b = c \<Longrightarrow> \<not> b_exclude b \<Longrightarrow> list_all plain_tree ts \<Longrightarrow>
      built s s' (concat (map file_paths ts')) (concat (map file_texts ts'))"
proof (induction b t and b ts arbitrary: s s' t' and s s' ts' rule: step_step_list.induct)
  case (1 b n cs)
  from step_ok [OF 1(2)] obtain n1 s1 cs' s2 n2 where
    bf: "op_before b n s = (s1, Inr n1)" and l: "step_list b cs s1 = (s2, Inr cs')" and
    a: "op_after b n1 cs' s2 = (s', Inr n2)" and t: "t' = Node n2 cs'" .
  from 1(5) have kind: "n_Kind n \<notin> {KindCopy, KindInject}" "list_all plain_tree cs" by simp_all
  note e = before_enters [OF bf] and af = after_leaves [OF a]
  have n1: "n_Kind n1 = n_Kind n" using e by (simp add: entered_def)
  have "built s s1 [] []"
    using keepsD [OF plain_before [OF 1(3) kind(1)] bf] by (simp add: built_kept on_vol_def)
  from built_trans_Nil(1) [OF this 1(1) [OF l 1(3,4) kind(2)]]
  have cs: "built s s2 (concat (map file_paths cs')) (concat (map file_texts cs'))" .
  show ?case
  proof (cases "n_Kind n = KindFile")
    case True
    then have run: "fileBefore n s = (s1, Inr n1)" "fileAfter b n1 cs' s2 = (s', Inr n2)"
      using bf a n1 by (simp_all add: op_before_def op_after_def)
    note n1' = fileBefore_ok(2) [OF run(1)]
    obtain p where p: "n_FullPath n1 = canonOutPath p" using n1' by (simp add: full_path_def)
    have ex: "\<not> fileExcluded n1" using 1(5) True n1' by (simp add: fileExcluded_def)
    have "built s2 s' [n_FullPath n1] [(n_FullPath n1, collectInPlace cs')]"
      using plain_file [OF 1(3,4) ex p _ cfg run(2)] p by (auto simp: built_def kept_def)
    from built_rotate [OF built_append [OF cs this map_file_texts]] show ?thesis
      using True n1 af by (simp add: t)
  next
    case False
    then have "built s2 s' [] []"
      using keepsD [OF plain_after [OF 1(3)] a] kind(1) n1 by (simp add: built_kept on_vol_def)
    from built_trans_Nil(2) [OF cs this map_file_texts] show ?thesis using False n1 af by (simp add: t)
  qed
next
  case (2 b)
  then show ?case by (simp add: ret_def built_kept kept_def)
next
  case (3 b x xs)
  from step_list_ok [OF 3(3)] obtain t s1 us where
    x: "step b x s = (s1, Inr t)" and xs: "step_list b xs s1 = (s', Inr us)" and ts: "ts' = t # us" .
  from 3(6) have "plain_tree x" "list_all plain_tree xs" by simp_all
  from built_append [OF 3(1) [OF x 3(4,5) this(1)] 3(2) [OF xs 3(4,5) this(2)] file_texts_paths]
  show ?case by (simp add: ts)
qed

end

text \<open>C22: a build under the default modes delivers what its tree says: when the walk over a tree of
  Projects, Folders, Files and their contents succeeds, each File's path holds exactly the text
  collected from the File's children, unless the file there carries the protect marker. (The Files
  are to have paths that do not clash with one another or with the files beside them.)\<close>

theorem build_writes_files:
  assumes "fs_siblings (c_api (b_cfg b)) key ok" and "ok (fh_vol (bs_fh s))"
    and "\<not> ct_Dryrun (c_control (b_cfg b))" and "\<And>isText. write_only (modesFor (b_cfg b) isText)"
    and "\<not> b_exclude b" and "plain_tree t" and "step b t s = (s', Inr t')"
    and "apart (b_cfg b) key (file_paths t')"
  shows "list_all (\<lambda>(p, txt). held (c_api (b_cfg b)) (fh_vol (bs_fh s')) p = Some txt \<or>
      (\<exists>old. held (c_api (b_cfg b)) (fh_vol (bs_fh s')) p = Some old \<and> str_contains old protectMarker))
    (file_texts t')"
proof -
  note run = fh_run_I [OF assms(1)]
  from fh_run.step_built(1) [OF run assms(3,4,7) refl assms(5,6)] assms(2,8)
  have "list_all (written (c_api (b_cfg b)) (fh_vol (bs_fh s'))) (file_texts t')"
    by (simp add: fh_run.built_def [OF run])
  then show ?thesis by (simp add: written_def [abs_def] case_prod_unfold)
qed

definition writeRun :: "MemVol Bs \<times> (error + Node)" where
  "writeRun = step (sampleBcfg (noControl\<lparr>ct_NoDuplicate := True\<rparr>)) (sampleTree ''a'' ''hi'') (newBuildCtx ''/o'' (sampleFh []))"

lemma writeRun_files: "\<exists>s' t'. writeRun = (s', Inr t') \<and> file_texts t' = [(''/o/app/src/a'', ''hi'')]"
proof -
  have "case writeRun of (s', Inr t') \<Rightarrow> file_texts t' = [(''/o/app/src/a'', ''hi'')] | _ \<Rightarrow> False"
    by code_simp
  then show ?thesis by (auto split: prod.splits sum.splits)
qed

theorem build_writes_files_witness:
  "\<exists>s' t'. writeRun = (s', Inr t') \<and> list_all (\<lambda>(p, txt). held (mem_api (Some ''/w'') (\<lambda>n. 100 + int n)) (fh_vol (bs_fh s')) p = Some txt \<or>
      (\<exists>old. held (mem_api (Some ''/w'') (\<lambda>n. 100 + int n)) (fh_vol (bs_fh s')) p = Some old \<and> str_contains old protectMarker))
    (file_texts t')"
proof -
  let ?b = "sampleBcfg (noControl\<lparr>ct_NoDuplicate := True\<rparr>)" and ?key = "memClean (Some ''/w'')"
  obtain s' t' where run: "writeRun = (s', Inr t')" "file_texts t' = [(''/o/app/src/a'', ''hi'')]"
    using writeRun_files by blast
  have paths: "file_paths t' = [''/o/app/src/a'']"
    using file_texts_paths [of t'] run(2) by simp
  have provider: "fs_siblings (c_api (b_cfg ?b)) ?key mem_inv"
    using sample_provider by (simp add: sampleBcfg_def)
  have "?key ''/o/app/src/a'' \<notin> ?key ` sidecars (b_cfg ?b) ''/o/app/src/a''"
    unfolding sidecars_def by code_simp
  then have apart: "apart (b_cfg ?b) ?key (file_paths t')" by (simp add: paths)
  have modes: "write_only (modesFor (b_cfg ?b) isText)" for isText
    by (cases isText; simp add: sampleBcfg_def sampleCfg_def noExisting_def modesFor_def write_only_def boolOr_def)
  have "list_all (\<lambda>(p, txt). held (c_api (b_cfg ?b)) (fh_vol (bs_fh s')) p = Some txt \<or>
      (\<exists>old. held (c_api (b_cfg ?b)) (fh_vol (bs_fh s')) p = Some old \<and> str_contains old protectMarker)) (file_texts t')"
  proof (rule build_writes_files [OF provider _ _ modes _ _ run(1) [unfolded writeRun_def] apart])
    show "mem_inv (fh_vol (bs_fh (newBuildCtx ''/o'' (sampleFh []))))" by (simp add: newBuildCtx_def sample_inv)
    show "plain_tree (sampleTree ''a'' ''hi'')" by code_simp
  qed (simp_all add: sampleBcfg_def sampleCfg_def noControl_def)
  then show ?thesis using run(1) by (intro exI [of _ s'] exI [of _ t']) (simp add: sampleBcfg_def sampleCfg_def)
qed

end
