(* ===== verification/CmpTree.thy ===== *)
theory CmpTree
  imports Define
begin

text \<open>
  A component tree given as data (\<^verbatim>\<open>go/tree.go\<close>): the check of every node before anything runs, and the
  callback it becomes, which calls the components of \<open>Define\<close>. The tree is a \<^verbatim>\<open>json.Unmarshal\<close>
  result. A child is a thunk that also takes the props its parent binds for it.
\<close>

type_synonym props = "(string \<times> jval) list"
type_synonym treeThunk = "J \<Rightarrow> props \<Rightarrow> (jstate, unit) comp"
type_synonym CmpTreeCmp = "J \<Rightarrow> props \<Rightarrow> body list \<Rightarrow> (jstate, unit) comp"

definition treeCmpNames :: "string list" where
  "treeCmpNames = [''Project'', ''Folder'', ''File'', ''Content'', ''Fragment'',
     ''Inject'', ''Line'', ''Slot'', ''CopyFiles'', ''ListItems'']"

definition treeCmpDeprecated :: "(string \<times> string) list" where
  "treeCmpDeprecated = [(''Copy'', ''CopyFiles''), (''List'', ''ListItems'')]"

definition treeClosedCmp :: "(string \<times> string list) list" where
  "treeClosedCmp =
     [(''Fragment'', [''from'', ''indent'', ''replace'', ''eject'', ''item'']),
      (''CopyFiles'', [''from'', ''to'', ''replace'', ''exclude'', ''item'', ''indent''])]"

definition treeRawCmp :: "string \<Rightarrow> bool" where
  "treeRawCmp name = (name = ''Content'' \<or> name = ''Line'')"

definition treeErr :: "string \<Rightarrow> string \<Rightarrow> error" where
  "treeErr msg path = ErrMsg (''cmpTree: '' @ msg @ '' (at '' @ (if path = [] then ''<root>'' else path) @ '')'')"

section \<open>Props\<close>

fun copyProps :: "jval \<Rightarrow> jval" where
  "copyProps (Obj a m) = Obj 0 (map (\<lambda>f. (fst f, copyProps (snd f))) m)"
| "copyProps (Arr t a xs) = (if t = AnySlice then Arr AnySlice 0 (map copyProps xs) else Arr t a xs)"
| "copyProps v = v"

definition layer :: "props \<Rightarrow> props \<Rightarrow> props" where
  "layer upper base = foldr (\<lambda>(k, v) out. AList.update k v out) upper base"

definition propsMerge :: "props \<Rightarrow> props \<Rightarrow> props \<Rightarrow> props" where
  "propsMerge defaults inherit own = layer (map (\<lambda>(k, v). (k, copyProps v)) own) (layer inherit (layer defaults []))"

text \<open>\<^verbatim>\<open>p[key]\<close>, nil when absent.\<close>

definition propVal :: "props \<Rightarrow> string \<Rightarrow> jval" where
  "propVal p key = (case map_of p key of None \<Rightarrow> Null | Some v \<Rightarrow> v)"

definition propString :: "props \<Rightarrow> string \<Rightarrow> string" where
  "propString p key = (case propVal p key of Str s \<Rightarrow> s | _ \<Rightarrow> [])"

definition propBool :: "props \<Rightarrow> string \<Rightarrow> bool" where
  "propBool p key = js_bool (propVal p key)"

definition propMap :: "props \<Rightarrow> string \<Rightarrow> props" where
  "propMap p key = (case propVal p key of Obj a m \<Rightarrow> m | _ \<Rightarrow> [])"

text \<open>The conversion of a float64 to uint32 is the machine's beyond the range of int64; it is 0 here.\<close>

definition propMode :: "props \<Rightarrow> FileMode" where
  "propMode p = (case propVal p ''mode'' of
     Num (Fin q) \<Rightarrow>
       (let n = (if 0 \<le> q then \<lfloor>q\<rfloor> else - \<lfloor>- q\<rfloor>)
        in if \<bar>n\<bar> < 2 ^ 63 then word_of_int n else 0)
   | GoInt i \<Rightarrow> word_of_int i
   | _ \<Rightarrow> 0)"

definition propMarkers :: "props \<Rightarrow> string \<times> string" where
  "propMarkers p = (case propVal p ''markers'' of
     Arr t a [x, y] \<Rightarrow>
       (if t = AnySlice
        then (case x of Str s \<Rightarrow> s | _ \<Rightarrow> [], case y of Str s \<Rightarrow> s | _ \<Rightarrow> []) else ([], []))
   | _ \<Rightarrow> ([], []))"

definition propSrc :: "props \<Rightarrow> string" where
  "propSrc p = (case propVal p ''arg'' of Null \<Rightarrow> propString p ''src'' | v \<Rightarrow> jsString v)"

definition contentProps :: "props \<Rightarrow> ContentProps" where
  "contentProps p = \<lparr>cp_Src = propSrc p, cp_Name = propString p ''name'', cp_Indent = propVal p ''indent'',
     cp_Replace = map (\<lambda>(k, v). (k, RVal v)) (propMap p ''replace''), cp_Extra = propMap p ''extra'',
     cp_Raw = propBool p ''raw''\<rparr>"

section \<open>Checks\<close>

definition validFolder :: "Jcfg \<Rightarrow> props \<Rightarrow> string \<Rightarrow> error option" where
  "validFolder c p path = (case propVal p ''folder'' of
     Null \<Rightarrow> None
   | Str folder \<Rightarrow>
       (if j_IsAbs c folder \<or> has_prefix folder ''/'' then Some (treeErr (''folder must not be absolute: '' @ folder) path)
        else if DOTDOT \<in> set (fields_func (\<lambda>c. c = SLASH \<or> c = BSLASH) folder)
        then Some (treeErr (''folder must not contain a '' @ [QUOTE] @ ''..'' @ [QUOTE] @ '' segment: '' @ folder) path)
        else None)
   | _ \<Rightarrow> Some (treeErr ''folder is not a string'' path))"

definition validClosedProps :: "string \<Rightarrow> props \<Rightarrow> string \<Rightarrow> error option" where
  "validClosedProps name p path = (case map_of treeClosedCmp name of
     None \<Rightarrow> None
   | Some allowed \<Rightarrow>
       (let bad = filter (\<lambda>k. k \<notin> set allowed) (map fst p)
        in if bad = [] then None
           else Some (treeErr (name @ '': prop not allowed: '' @ join_with '', '' (sort bad)) path)))"

text \<open>\<^verbatim>\<open>treePropError\<close> and \<^verbatim>\<open>refuseProps\<close> of \<^verbatim>\<open>go/cmpshape.go\<close>: the props of a closed component before they
  are read.\<close>

definition treePropError :: "Jcfg \<Rightarrow> string \<Rightarrow> props \<Rightarrow> error option" where
  "treePropError c name p =
     (let keys = (if name = ''Fragment'' then [''from'', ''indent'', ''replace'', ''eject'']
                  else if name = ''CopyFiles'' then [''from'', ''to'', ''replace'', ''exclude''] else [])
      in checkPropShape c name
           (List.map_filter (\<lambda>k. map_option (Pair k) (map_of p k)) keys))"

definition refuseProps :: "Jcfg \<Rightarrow> string \<Rightarrow> string \<Rightarrow> props \<Rightarrow> (jstate, bool) comp" where
  "refuseProps c name stp p =
     bnd (gets js_err) (\<lambda>e.
       (case e of
          Some _ \<Rightarrow> ret True
        | None \<Rightarrow>
            (case treePropError c name p of
               Some e \<Rightarrow> seq (node_err stp e) (ret True)
             | None \<Rightarrow> ret False)))"

section \<open>The components by name\<close>

definition runChildren :: "treeThunk list \<Rightarrow> props \<Rightarrow> body" where
  "runChildren children inherit = (\<lambda>j. each (\<lambda>ch. ch j inherit) children)"

definition list_item_body :: "treeThunk list \<Rightarrow> bool \<Rightarrow> item_body" where
  "list_item_body children indentSet = (\<lambda>j it.
     let inherit = [(''item'', li_Item it), (''replace'', Obj 0 (li_Replace it))] @
           (if indentSet then [(''indent'', li_Indent it)] else [])
     in each (\<lambda>ch. ch j inherit) children)"

definition treeBuild :: "Jcfg \<Rightarrow> string \<Rightarrow> J \<Rightarrow> props \<Rightarrow> treeThunk list \<Rightarrow> (jstate, unit) comp" where
  "treeBuild c name j p ch =
     (let b = Some (runChildren ch [])
      in if name = ''Project'' then Project j (propString p ''name'') (propString p ''folder'') b
         else if name = ''Folder'' then Folder j (propString p ''name'') b
         else if name = ''File'' then
           FileP j \<lparr>fp_Name = propString p ''name'', fp_Exclude = propVal p ''exclude'', fp_Mode = propMode p\<rparr> b
         else if name = ''Content'' then ContentP c j (contentProps p)
         else if name = ''Line'' then LineP c j (contentProps p)
         else if name = ''Fragment'' then
           bnd (refuseProps c ''Fragment'' ''fragment'' p) (\<lambda>refused.
             if refused then ret ()
             else FragmentP c j \<lparr>fr_From = propString p ''from'', fr_Indent = propVal p ''indent'',
                    fr_Replace = map (\<lambda>(k, v). (k, FragVal (RVal v))) (propMap p ''replace''),
                    fr_Eject = propVal p ''eject''\<rparr> b)
         else if name = ''Slot'' then Slot j (propString p ''name'') b
         else if name = ''Inject'' then
           InjectP j (propString p ''name'') (propMarkers p) (propVal p ''exclude'') b
         else if name = ''CopyFiles'' then
           bnd (refuseProps c ''CopyFiles'' ''copy'' p) (\<lambda>refused.
             if refused then ret ()
             else CopyFiles c j \<lparr>cf_From = propString p ''from'', cf_To = propString p ''to'',
                    cf_Replace = propMap p ''replace'', cf_Exclude = propVal p ''exclude''\<rparr>)
         else if name = ''ListItems'' then
           ListItemsP c j \<lparr>lp_Item = propVal p ''item'',
              lp_NoLine = (case propVal p ''line'' of Bool l \<Rightarrow> \<not> l | _ \<Rightarrow> False), lp_Indent = propVal p ''indent''\<rparr>
             (Some (list_item_body ch (map_of p ''indent'' \<noteq> None)))
         else ret ())"

text \<open>The component a name stands for: the caller's own, a built-in, or the deprecated name of one.\<close>

definition builtin_of :: "string \<Rightarrow> string option" where
  "builtin_of name = (if name \<in> set treeCmpNames then Some name else map_of treeCmpDeprecated name)"

section \<open>The walk\<close>

definition obj_of :: "jval \<Rightarrow> props option" where
  "obj_of v = (case v of Obj a m \<Rightarrow> Some m | _ \<Rightarrow> None)"

definition list_of :: "jval \<Rightarrow> jval list option" where
  "list_of v = (case v of Arr t a xs \<Rightarrow> (if t = AnySlice then Some xs else None) | _ \<Rightarrow> None)"

text \<open>A null \<^verbatim>\<open>props\<close> or \<^verbatim>\<open>children\<close> is absent.\<close>

definition node_props :: "props \<Rightarrow> string \<Rightarrow> error + props" where
  "node_props obj path = (case propVal obj ''props'' of
     Null \<Rightarrow> Inr []
   | v \<Rightarrow> (case obj_of v of None \<Rightarrow> Inl (treeErr ''props is not an object'' path) | Some p \<Rightarrow> Inr p))"

definition node_kids :: "props \<Rightarrow> string \<Rightarrow> error + jval list" where
  "node_kids obj path = (case propVal obj ''children'' of
     Null \<Rightarrow> Inr []
   | v \<Rightarrow> (case list_of v of None \<Rightarrow> Inl (treeErr ''children is not an array'' path) | Some xs \<Rightarrow> Inr xs))"

text \<open>The checks of one node, in the code's order: its name, component, own props and children.\<close>

definition check_node ::
  "Jcfg \<Rightarrow> (string \<times> CmpTreeCmp) list \<Rightarrow> jval \<Rightarrow> string \<Rightarrow> error + (string \<times> props \<times> jval list)" where
  "check_node c cmps node path = (case obj_of node of
     None \<Rightarrow> Inl (treeErr ''node is not an object'' path)
   | Some obj \<Rightarrow>
       (case propVal obj ''cmp'' of
          Str name \<Rightarrow>
            (if name = [] then Inl (treeErr ''node has no cmp name'' path)
             else if map_of cmps name = None \<and> builtin_of name = None
             then Inl (treeErr (''unknown component: '' @ name) path)
             else
               (case node_props obj path of
                  Inl e \<Rightarrow> Inl e
                | Inr p \<Rightarrow>
                    (case validFolder c p path of
                       Some e \<Rightarrow> Inl e
                     | None \<Rightarrow>
                         (case (if map_of cmps name = None then validClosedProps (the (builtin_of name)) p path
                                else None) of
                            Some e \<Rightarrow> Inl e
                          | None \<Rightarrow> map_sum id (\<lambda>kids. (name, p, kids)) (node_kids obj path)))))
        | _ \<Rightarrow> Inl (treeErr ''node has no cmp name'' path)))"

lemma propVal_size: "size (propVal m key) < size (Obj a m)"
proof (cases "map_of m key")
  case None
  then show ?thesis by (simp add: propVal_def)
next
  case (Some v)
  then have "(key, v) \<in> set m" by (rule map_of_SomeD)
  then show ?thesis using Some size_list_estimation' [of "(key, v)" m "size v" "size_prod (\<lambda>x. 0) size"]
    by (simp add: propVal_def)
qed

lemma check_node_kids:
  assumes "check_node c cmps node path = Inr (name, p, kids)"
  shows "size_list size kids < size node"
proof -
  obtain a obj where node: "node = Obj a obj"
    using assms by (cases node) (auto simp: check_node_def obj_of_def)
  then have "node_kids obj path = Inr kids"
    using assms by (auto simp: check_node_def obj_of_def map_sum_def split: jval.splits if_splits sum.splits option.splits)
  then have "kids = [] \<or> (\<exists>b. propVal obj ''children'' = Arr AnySlice b kids)"
    by (auto simp: node_kids_def list_of_def split: jval.splits if_splits option.splits)
  then have "size_list size kids \<le> size (propVal obj ''children'') \<or> kids = []" by auto
  then show ?thesis using propVal_size [of obj "''children''" a] node by auto
qed

text \<open>The thunk of a node, with the thunks of its children made first; an error in any refuses the tree.\<close>

definition kid_path :: "string \<Rightarrow> string \<Rightarrow> nat \<Rightarrow> string" where
  "kid_path path name i = path @ ''/'' @ name @ ''['' @ int_digits (int i) @ '']''"

definition node_call ::
  "Jcfg \<Rightarrow> (string \<times> CmpTreeCmp) list \<Rightarrow> props \<Rightarrow> string \<Rightarrow> props \<Rightarrow> treeThunk list \<Rightarrow> treeThunk" where
  "node_call c cmps defaults name p ch =
     (case map_of cmps name of
        Some custom \<Rightarrow> (\<lambda>j inherit. custom j (propsMerge [] inherit p) (map (\<lambda>t. (\<lambda>j. t j [])) ch))
      | None \<Rightarrow>
          (let b = the (builtin_of name)
           in (\<lambda>j inherit. treeBuild c b j (propsMerge (if treeRawCmp b then defaults else []) inherit p) ch)))"

function (sequential) nodeThunk ::
  "Jcfg \<Rightarrow> (string \<times> CmpTreeCmp) list \<Rightarrow> props \<Rightarrow> jval \<Rightarrow> string \<Rightarrow> error + treeThunk"
  and kidThunks ::
  "Jcfg \<Rightarrow> (string \<times> CmpTreeCmp) list \<Rightarrow> props \<Rightarrow> jval list \<Rightarrow> nat \<Rightarrow> (nat \<Rightarrow> string) \<Rightarrow> error + treeThunk list" where
  "nodeThunk c cmps defaults node path =
     (case check_node c cmps node path of
        Inl e \<Rightarrow> Inl e
      | Inr (name, p, kids) \<Rightarrow>
          map_sum id (node_call c cmps defaults name p) (kidThunks c cmps defaults kids 0 (kid_path path name)))"
| "kidThunks c cmps defaults [] i at_path = Inr []"
| "kidThunks c cmps defaults (k # ks) i at_path =
     (case nodeThunk c cmps defaults k (at_path i) of
        Inl e \<Rightarrow> Inl e
      | Inr t \<Rightarrow> map_sum id (\<lambda>ts. t # ts) (kidThunks c cmps defaults ks (Suc i) at_path))"
  by pat_completeness auto
termination
  by (relation "measure (\<lambda>x. case x of
      Inl (c, cmps, defaults, node, path) \<Rightarrow> size node
    | Inr (c, cmps, defaults, ks, i, at_path) \<Rightarrow> size_list size ks)")
    (auto dest: check_node_kids)

declare nodeThunk.simps [simp del]

record CmpTreeOptions =
  to_Cmp :: "(string \<times> CmpTreeCmp) list"
  to_Raw :: bool

definition CmpTree :: "Jcfg \<Rightarrow> jval \<Rightarrow> CmpTreeOptions list \<Rightarrow> error + body" where
  "CmpTree c tree opts =
     (let cmps = foldl (\<lambda>out o'. foldl (\<lambda>out (k, v). AList.update k v out) out (to_Cmp o')) [] opts;
          defaults = (if list_ex to_Raw opts then [(''raw'', Bool True)] else []);
          nodes = (case list_of tree of Some xs \<Rightarrow> xs | None \<Rightarrow> [tree])
      in map_sum id (\<lambda>ts. runChildren ts [])
           (kidThunks c cmps defaults nodes 0 (\<lambda>i. ''['' @ int_digits (int i) @ '']'')))"

end
