(* ===== verification/TemplateProps.thy ===== *)
theory TemplateProps
  imports Template
begin

text \<open>
  The claims about the template engine of \<open>Template\<close>: the replace keys are tried in an order that
  depends on the set of keys alone, the cache gives every template its own pattern, what is not
  matched is copied byte for byte, and ejecting cuts the source without changing it.
\<close>

section \<open>The order of the keys\<close>

interpretation key_order: strict_total key_before
proof
  fix x y z
  show "\<not> key_before x x" by (simp add: key_before_def)
  show "key_before x z" if "key_before x y" "key_before y z"
    using that jsLess_trans by (auto simp: key_before_def split: if_splits)
  show "key_before x y \<or> x = y \<or> key_before y x"
    using jsLess_total by (auto simp: key_before_def split: if_splits)
qed

text \<open>The order in which the replace keys are tried depends on the set of keys alone, not on the
  order in which Go ranges over the map: it is a permutation of the keys in which tag keys with a
  name come first, then longer keys before shorter ones, and every permutation of the keys gives
  the same list.\<close>

lemma replace_key_order:
  "mset (sortReplaceKeys ks) = mset ks \<and>
   sorted_wrt (\<lambda>a b. \<not> key_before b a) (sortReplaceKeys ks) \<and>
   {sortReplaceKeys ks' | ks'. mset ks' = mset ks} = {sortReplaceKeys ks}"
  unfolding sortReplaceKeys_def
  using key_order.sort_perm [of ks] key_order.sort_sorted [of ks] key_order.sort_canonical by blast

section \<open>The cache\<close>

definition nul_free :: "string \<Rightarrow> bool" where "nul_free s = (CHR 0x00 \<notin> set s)"

lemma nul_split:
  "nul_free a \<Longrightarrow> nul_free b \<Longrightarrow> a @ [CHR 0x00] @ x = b @ [CHR 0x00] @ y \<Longrightarrow> a = b \<and> x = y"
  unfolding nul_free_def
proof (induction a arbitrary: b)
  case Nil
  then show ?case by (cases b) auto
next
  case (Cons c a)
  then show ?case by (cases b) auto
qed

text \<open>The keys of one replace map.\<close>

definition clean_keys :: "string list \<Rightarrow> bool" where
  "clean_keys ks = (list_all nul_free ks \<and> ks \<noteq> [[]])"

lemma join_nul_inj:
  assumes "clean_keys xs" and "clean_keys ys" and "join_with [CHR 0x00] xs = join_with [CHR 0x00] ys"
  shows "xs = ys"
proof -
  have split: "split_by (\<lambda>c. c = CHR 0x00) (join_with [CHR 0x00] ks) = (if ks = [] then [[]] else ks)"
    if "clean_keys ks" for ks
    using that split_join [of ks "CHR 0x00"] by (auto simp: clean_keys_def nul_free_def list_all_iff)
  have "(if xs = [] then [[]] else xs) = (if ys = [] then [[]] else ys)"
    using split [OF assms(1)] split [OF assms(2)] assms(3) by simp
  then show ?thesis using assms(1,2) by (cases "xs = []"; cases "ys = []") (simp_all add: clean_keys_def)
qed

definition clean_spec :: "string \<Rightarrow> string \<Rightarrow> string \<Rightarrow> string list \<Rightarrow> bool" where
  "clean_spec opn cls ref ks = (nul_free opn \<and> nul_free cls \<and> nul_free ref \<and> clean_keys ks)"

lemma cache_key_inj:
  assumes "clean_spec o1 c1 r1 k1" and "clean_spec o2 c2 r2 k2"
    and "cache_key o1 c1 r1 k1 = cache_key o2 c2 r2 k2"
  shows "o1 = o2 \<and> c1 = c2 \<and> r1 = r2 \<and> mset k1 = mset k2"
proof -
  have clean: "clean_keys (sort ks) = clean_keys ks" for ks
  proof -
    have "sort ks = [[]] \<longleftrightarrow> ks = [[]]"
      by (metis mset_sort mset_single_iff_right sorted_list_of_multiset_mset sorted_list_of_multiset_singleton)
    then show ?thesis by (simp add: clean_keys_def list_all_iff)
  qed
  have "o1 = o2 \<and> c1 = c2 \<and> r1 = r2 \<and> sortedKeysJoin k1 = sortedKeysJoin k2"
    using assms nul_split unfolding cache_key_def clean_spec_def by metis
  moreover have "sort k1 = sort k2" if "sortedKeysJoin k1 = sortedKeysJoin k2"
    using that assms(1,2) join_nul_inj [of "sort k1" "sort k2"] clean
    by (simp add: sortedKeysJoin_def clean_spec_def)
  ultimately show ?thesis by (metis mset_sort)
qed

lemma build_of_mset:
  "mset ks = mset ks' \<Longrightarrow> buildTemplateRE compile opn cls ref ks = buildTemplateRE compile opn cls ref ks'"
  using sort_js_unique [of ks ks' "\<lambda>s. s"] by (simp add: buildTemplateRE_def sortJS_def)

definition templates_ok :: "re_compile \<Rightarrow> 'z caches_scheme \<Rightarrow> bool" where
  "templates_ok compile s =
     (length (tc_templates s) \<le> templateCacheMax \<and>
      (\<forall>(key, e) \<in> set (tc_templates s). \<exists>opn cls ref ks.
         clean_spec opn cls ref ks \<and> key = cache_key opn cls ref ks \<and> e = buildTemplateRE compile opn cls ref ks))"

lemma cached_pattern_ok:
  assumes "templates_ok compile s" and "clean_spec opn cls ref ks"
  shows "templates_ok compile (fst (getCachedTemplateRE (cache_key opn cls ref ks) (buildTemplateRE compile opn cls ref ks) s)) \<and>
    snd (getCachedTemplateRE (cache_key opn cls ref ks) (buildTemplateRE compile opn cls ref ks) s) =
      buildTemplateRE compile opn cls ref ks"
proof (cases "map_of (tc_templates s) (cache_key opn cls ref ks)")
  case None
  then show ?thesis using assms
    by (auto simp: getCachedTemplateRE_def Let_def templates_ok_def templateCacheMax_def)
next
  case (Some e)
  then have "(cache_key opn cls ref ks, e) \<in> set (tc_templates s)" by (rule map_of_SomeD)
  then obtain o2 c2 r2 k2 where "clean_spec o2 c2 r2 k2" "cache_key opn cls ref ks = cache_key o2 c2 r2 k2"
    "e = buildTemplateRE compile o2 c2 r2 k2"
    using assms(1) by (fastforce simp: templates_ok_def)
  then have "e = buildTemplateRE compile opn cls ref ks"
    using cache_key_inj [OF assms(2)] build_of_mset by metis
  then show ?thesis using Some assms(1) by (simp add: getCachedTemplateRE_def)
qed

lemma cached_pattern:
  assumes "templates_ok compile s" and "clean_spec opn cls ref ks"
  shows "snd (getCachedTemplateRE (cache_key opn cls ref ks) (buildTemplateRE compile opn cls ref ks) s) =
    buildTemplateRE compile opn cls ref ks"
  using cached_pattern_ok [OF assms] by blast

text \<open>C29: the cache of assembled patterns never hands one template the pattern of another: as long as
  the delimiters and keys hold no NUL byte and the map is not the one with the empty key alone, a
  look-up gives what assembling this very specification gives, whatever was rendered before; and
  the cache keeps to its bound.\<close>

theorem template_cache_transparent:
  assumes "templates_ok compile s" and "clean_spec opn cls ref ks"
  shows "templates_ok compile (fst (getCachedTemplateRE (cache_key opn cls ref ks) (buildTemplateRE compile opn cls ref ks) s)) \<and>
    snd (getCachedTemplateRE (cache_key opn cls ref ks) (buildTemplateRE compile opn cls ref ks) s) =
      buildTemplateRE compile opn cls ref ks"
  by (rule cached_pattern_ok [OF assms])

text \<open>The empty key is the exception: its map has the cache key of no map at all, so the pattern of
  whichever was rendered first serves both.\<close>

lemma empty_key_collides:
  assumes "map_of (tc_templates s) (cache_key opn cls ref []) = None"
  shows "snd (getCachedTemplateRE (cache_key opn cls ref [[]]) built
    (fst (getCachedTemplateRE (cache_key opn cls ref []) plain s))) = plain"
  using assms by (simp add: getCachedTemplateRE_def Let_def cache_key_def sortedKeysJoin_def)

section \<open>What is not matched\<close>

text \<open>The pieces of a rendering: the text before a match, the match, and what replaced it.\<close>

type_synonym piece = "string \<times> string \<times> string"

definition read_piece :: "piece \<Rightarrow> string" where "read_piece p = (case p of (lit, match, ins) \<Rightarrow> lit @ match)"
definition wrote_piece :: "piece \<Rightarrow> string" where "wrote_piece p = (case p of (lit, match, ins) \<Rightarrow> lit @ ins)"

text \<open>The pieces are those the pattern cuts: each match is what \<open>re\<close> finds first in the source from
  where the last one ended, its groups are read at the offsets the pattern reports, and its
  replacement is what \<open>resolve\<close> answers for them, run in the state the last one left; the pattern
  finds nothing in what remains.\<close>

fun cuts ::
  "tre \<Rightarrow> (string \<Rightarrow> groups \<Rightarrow> ('s, string) comp) \<Rightarrow> piece list \<Rightarrow> string \<Rightarrow> 's \<Rightarrow> 's \<Rightarrow> bool" where
  "cuts re resolve [] rest s t = (tr_find re rest = None \<and> t = s)"
| "cuts re resolve ((lit, match, ins) # ps) rest s t =
     (let src = lit @ match @ concat (map read_piece ps) @ rest
      in match \<noteq> [] \<and>
         (\<exists>locs groups u.
            tr_find re src = Some ((int (length lit), int (length (lit @ match))) # locs) \<and>
            namedGroups re src ((int (length lit), int (length (lit @ match))) # locs) = Some groups \<and>
            resolve match groups s = (u, Inr ins) \<and> cuts re resolve ps rest u t))"

definition rendering ::
  "tre \<Rightarrow> (string \<Rightarrow> groups \<Rightarrow> ('s, string) comp) \<Rightarrow> string \<Rightarrow> string \<Rightarrow> 's \<Rightarrow> 's \<Rightarrow> bool" where
  "rendering re resolve src out s t =
     (\<exists>ps rest. src = concat (map read_piece ps) @ rest \<and> out = concat (map wrote_piece ps) @ rest \<and>
        cuts re resolve ps rest s t)"

text \<open>The pattern of a template: the caller's own, or the one assembled from the delimiters and the keys.\<close>

definition pattern_of :: "re_compile \<Rightarrow> 's TemplateSpec \<Rightarrow> error + template_re" where
  "pattern_of compile spec = (case ts_Insert spec of
     Some re \<Rightarrow> Inr (re, [])
   | None \<Rightarrow> (case delimiters spec of (opn, cls, ref) \<Rightarrow> buildTemplateRE compile opn cls ref (map fst (ts_Replace spec))))"

definition cleanly_keyed :: "'s TemplateSpec \<Rightarrow> bool" where
  "cleanly_keyed spec = (case delimiters spec of (opn, cls, ref) \<Rightarrow> clean_spec opn cls ref (map fst (ts_Replace spec)))"

lemma slice_cut: "text_slice s a b = Some u \<Longrightarrow> s = take (nat a) s @ u @ drop (nat b) s"
proof -
  assume "text_slice s a b = Some u"
  then have "u = drop (nat a) (take (nat b) s)" "nat a \<le> nat b"
    by (auto simp: text_slice_def split: if_splits)
  then show ?thesis
    by (metis append.assoc append_take_drop_id min.absorb1 take_take)
qed

lemma slice_split:
  assumes "text_slice s 0 a = Some lit" and "text_slice s a b = Some match"
  shows "s = lit @ match @ drop (nat b) s \<and> a = int (length lit) \<and> b = int (length (lit @ match))"
  using slice_cut [OF assms(2)] assms by (auto simp: text_slice_def split: if_splits)

lemma render_match_piece:
  assumes "render_match re resolve None remain ((a, b) # locs) sb s = (t, Inr sb')"
  shows "\<exists>lit match ins groups. text_slice remain 0 a = Some lit \<and> text_slice remain a b = Some match \<and>
    namedGroups re remain ((a, b) # locs) = Some groups \<and>
    resolve match groups s = (t, Inr ins) \<and> sb' = sb @ lit @ ins"
  using assms unfolding render_match_def
  by (auto simp: emit_def ret_def or_panic_def fail_def dest!: bnd_ok split: option.splits)

lemma render_loop_rendering:
  "render_loop re resolve handle src sb s = (t, Inr out) \<Longrightarrow> handle = None \<Longrightarrow>
   \<exists>tl. out = sb @ tl \<and> rendering re resolve src tl s t"
proof (induction re resolve handle src sb s rule: render_loop.induct)
  case (1 re resolve handle remain sb s)
  show ?case
  proof (cases "tr_find re remain")
    case None
    then have "out = sb @ remain" "t = s" using 1(2,3) by (auto simp: render_loop.simps emit_def ret_def)
    then show ?thesis using None unfolding rendering_def
      by (intro exI [of _ remain]) (auto intro!: exI [of _ "[]"] exI [of _ remain])
  next
    case (Some locs0)
    then obtain a b locs where locs: "locs0 = (a, b) # locs" "a \<noteq> b"
      using 1(2) by (cases locs0) (auto simp: render_loop.simps split: if_splits)
    obtain t1 sb1 where m: "render_match re resolve None remain ((a, b) # locs) sb s = (t1, Inr sb1)"
      "text_slice remain a b \<noteq> None" "render_loop re resolve None (drop (nat b) remain) sb1 t1 = (t, Inr out)"
      using 1(2,3) Some locs by (auto simp: render_loop.simps [of _ _ _ remain] split: if_splits prod.splits sum.splits)
    obtain lit match ins groups where p: "text_slice remain 0 a = Some lit" "text_slice remain a b = Some match"
      "namedGroups re remain ((a, b) # locs) = Some groups" "resolve match groups s = (t1, Inr ins)" "sb1 = sb @ lit @ ins"
      using render_match_piece [OF m(1)] by blast
    obtain tl where tl: "out = sb1 @ tl" "rendering re resolve (drop (nat b) remain) tl t1 t"
      using 1(1) [OF Some locs(1) refl locs(2)] m 1(3) by fastforce
    obtain ps rest where ps: "drop (nat b) remain = concat (map read_piece ps) @ rest"
      "tl = concat (map wrote_piece ps) @ rest" "cuts re resolve ps rest t1 t"
      using tl(2) unfolding rendering_def by blast
    note sl = slice_split [OF p(1,2)]
    have src: "remain = lit @ match @ concat (map read_piece ps) @ rest" using sl ps(1) by simp
    have ne: "match \<noteq> []" using sl locs(2) by auto
    have "tr_find re remain = Some ((int (length lit), int (length (lit @ match))) # locs)"
      "namedGroups re remain ((int (length lit), int (length (lit @ match))) # locs) = Some groups"
      using Some locs(1) p(3) sl by auto
    then have "cuts re resolve ((lit, match, ins) # ps) rest s t"
      using p(4) ps(3) ne unfolding cuts.simps Let_def src [symmetric] by blast
    then have "rendering re resolve remain (lit @ ins @ tl) s t"
      unfolding rendering_def using src ps(2)
      by (intro exI [of _ "(lit, match, ins) # ps"] exI [of _ rest]) (simp add: read_piece_def wrote_piece_def)
    then show ?thesis using tl(1) p(5) by auto
  qed
qed

lemma applyEject_templates:
  assumes "applyEject compile src e s = (t, r)"
  shows "tc_templates t = tc_templates s"
proof -
  have m: "keeps (\<lambda>s t. tc_templates t = tc_templates s) (compileEjectMarker compile x)" for x
    unfolding compileEjectMarker_def
    by (auto simp: keeps_def ret_def fail_def Let_def split: jval.splits option.splits sum.splits)
  have "keeps (\<lambda>s t. tc_templates t = tc_templates s) (applyEject compile src e)"
    unfolding applyEject_def Let_def or_panic_def
    by (intro keeps_rules m) (auto simp: order_rel_def)
  from keepsD [OF this assms] show ?thesis .
qed

text \<open>C28: rendering touches nothing but the matches of the template's own pattern. A successful
  \<^verbatim>\<open>Template\<close> without a segment handler finds the pattern (the caller's, or else the one assembled
  from this very specification, whatever the cache held) first in the ejected source and then again
  and again from the end of the last match, until it occurs no more; it copies what lies between the
  matches byte for byte, and puts in place of each match what \<^verbatim>\<open>resolveMatch\<close> makes of the groups the
  pattern reports there. (Unless the pattern is the caller's, delimiters and keys are to hold no NUL
  byte and the keys are not to be the empty one alone: see the cache.)\<close>

theorem template_touches_matches_only:
  fixes s t :: "'z caches_scheme"
  assumes "Template compile src model spec s = (t, Inr out)" and "ts_Handle spec = None"
    and "ts_Insert spec = None \<longrightarrow> templates_ok compile s \<and> cleanly_keyed spec"
  shows "\<exists>t1 t2 body re gk. applyEject compile src (ts_Eject spec) s = (t1, Inr body) \<and>
    pattern_of compile spec = Inr (re, gk) \<and> t2 = t1\<lparr>tc_templates := tc_templates t2\<rparr> \<and>
    rendering re (resolveMatch compile re model (ts_Replace spec) gk) body out t2 t"
proof -
  obtain opn cls ref where d: "delimiters spec = (opn, cls, ref)" by (metis prod_cases3)
  let ?ks = "map fst (ts_Replace spec)"
  define pick :: "('z caches_scheme, template_re) comp" where "pick = (case ts_Insert spec of Some re \<Rightarrow> ret (re, [])
    | None \<Rightarrow> getCachedTemplateRE (cache_key opn cls ref ?ks) (buildTemplateRE compile opn cls ref ?ks))"
  from assms(1) obtain t1 body t2 re gk where ej: "applyEject compile src (ts_Eject spec) s = (t1, Inr body)"
    and pk: "pick t1 = (t2, Inr (re, gk))"
    and run: "render_loop re (resolveMatch compile re model (ts_Replace spec) gk) (ts_Handle spec) body [] t2 = (t, Inr out)"
    unfolding Template_def d prod.case Let_def pick_def [symmetric] by (fastforce dest!: bnd_ok split: prod.splits)
  have "pattern_of compile spec = Inr (re, gk)"
  proof (cases "ts_Insert spec")
    case None
    then have ok: "templates_ok compile t1" and clean: "clean_spec opn cls ref ?ks"
      using assms(3) applyEject_templates [OF ej] by (simp_all add: templates_ok_def cleanly_keyed_def d)
    from cached_pattern [OF ok clean] pk None show ?thesis by (simp add: pattern_of_def pick_def d)
  next
    case (Some re')
    then show ?thesis using pk by (simp add: pattern_of_def pick_def ret_def)
  qed
  moreover have "t2 = t1\<lparr>tc_templates := tc_templates t2\<rparr>"
    using pk by (cases "ts_Insert spec") (auto simp: pick_def ret_def getCachedTemplateRE_def Let_def split: option.splits)
  ultimately show ?thesis using ej render_loop_rendering [OF run assms(2)] by auto
qed

section \<open>Eject\<close>

text \<open>Ejecting gives the source itself or one contiguous part of it, whatever the markers.\<close>

lemma eject_cuts:
  assumes "applyEject compile src e s = (t, Inr out)"
  shows "sublist out src"
proof -
  have "sublist u src" if "text_slice src a b = Some u" for a b u
    using slice_cut [OF that] unfolding sublist_def by blast
  then show ?thesis
    using assms unfolding applyEject_def
    by (auto dest!: bnd_ok simp: ret_def Let_def split: option.splits prod.splits if_splits)
qed


section \<open>An engine to instantiate the claims with\<close>

text \<open>The pattern that finds the macro \<open>$$x$$\<close>, with its three groups.\<close>

definition macro_re :: tre where
  "macro_re = \<lparr>tr_source = ''m'', tr_names = [[], ''J_O'', ''J_R'', ''J_C''],
     tr_find = (\<lambda>s. map_option (\<lambda>i. let a = int i in [(a, a + 5), (a, a + 2), (a + 2, a + 3), (a + 3, a + 5)])
       (str_index s ''$$x$$''))\<rparr>"

definition macro_compile :: re_compile where "macro_compile p = Inr macro_re"

definition no_caches :: caches where "no_caches = \<lparr>tc_templates = [], tc_ejects = []\<rparr>"

definition macro_run :: "caches \<times> (error + string)" where
  "macro_run = Template macro_compile ''a$$x$$b'' (Obj 1 [(''x'', Str ''yz'')]) no_spec no_caches"

lemma macro_rendered: "macro_run = (fst macro_run, Inr ''ayzb'')"
proof -
  have "snd macro_run = Inr ''ayzb''" by code_simp
  then show ?thesis by (metis prod.collapse)
qed

theorem template_touches_matches_only_witness:
  "\<exists>t1 t2 body re gk. applyEject macro_compile ''a$$x$$b'' Null no_caches = (t1, Inr body) \<and>
    pattern_of macro_compile (no_spec :: caches TemplateSpec) = Inr (re, gk) \<and> t2 = t1\<lparr>tc_templates := tc_templates t2\<rparr> \<and>
    rendering re (resolveMatch macro_compile re (Obj 1 [(''x'', Str ''yz'')]) [] gk) body ''ayzb'' t2 (fst macro_run)"
proof -
  have "templates_ok macro_compile no_caches" by (simp add: templates_ok_def no_caches_def)
  moreover have "cleanly_keyed (no_spec :: caches TemplateSpec)"
    by (simp add: cleanly_keyed_def delimiters_def no_spec_def clean_spec_def clean_keys_def nul_free_def)
  ultimately show ?thesis
    using template_touches_matches_only [OF macro_rendered [unfolded macro_run_def]]
    by (simp add: no_spec_def macro_run_def)
qed

theorem template_cache_transparent_witness:
  "snd (getCachedTemplateRE (cache_key ''o'' ''c'' ''r'' [''k'']) (buildTemplateRE macro_compile ''o'' ''c'' ''r'' [''k''])
     no_caches) = buildTemplateRE macro_compile ''o'' ''c'' ''r'' [''k'']"
proof -
  have "templates_ok macro_compile no_caches" by (simp add: templates_ok_def no_caches_def)
  moreover have "clean_spec ''o'' ''c'' ''r'' [''k'']"
    by (simp add: clean_spec_def clean_keys_def nul_free_def)
  ultimately show ?thesis using template_cache_transparent by blast
qed

definition literal_re :: "string \<Rightarrow> regex" where
  "literal_re m = \<lparr>re_source = m, re_index = (\<lambda>s. map_option (\<lambda>i. (int i, int (i + length m))) (str_index s m))\<rparr>"

definition eject_run :: "caches \<times> (error + string)" where
  "eject_run = applyEject macro_compile ''ab<cd>e''
     (Arr AnySlice 1 [Regex (Some (literal_re ''<'')), Regex (Some (literal_re ''>''))]) no_caches"

lemma eject_cuts_witness: "sublist ''cd'' ''ab<cd>e''"
proof -
  have "snd eject_run = Inr ''cd''" by code_simp
  then have "eject_run = (fst eject_run, Inr ''cd'')" by (metis prod.collapse)
  then show ?thesis unfolding eject_run_def by (rule eject_cuts)
qed

end
