(* ===== verification/DefineStore.thy ===== *)
theory DefineStore
  imports CmpTree TemplateProps
begin

text \<open>
  The store of the define phase stays a tree: what \<open>store_ok\<close> says of the nodes, that every component
  keeps it when its callback does, and that a callback made from a data tree does.
\<close>

section \<open>Rendering keeps what its callbacks keep\<close>

definition rval_keeps :: "('s \<Rightarrow> 's \<Rightarrow> bool) \<Rightarrow> 's rval \<Rightarrow> bool" where
  "rval_keeps R v = (case v of
     RFunc f \<Rightarrow> (\<forall>groups match. keeps R (f groups match)) | RAny f \<Rightarrow> keeps R f | RText f \<Rightarrow> keeps R f | RVal w \<Rightarrow> True)"

lemma rval_keeps_simps [simp]:
  "rval_keeps R (RVal w)" "rval_keeps R (RFunc f) = (\<forall>groups match. keeps R (f groups match))"
  by (simp_all add: rval_keeps_def)

definition handle_keeps :: "('s \<Rightarrow> 's \<Rightarrow> bool) \<Rightarrow> (string \<Rightarrow> ('s, unit) comp) option \<Rightarrow> bool" where
  "handle_keeps R h = (case h of None \<Rightarrow> True | Some f \<Rightarrow> (\<forall>t. keeps R (f t)))"

lemma keeps_or_panic [keeps_rules]: "order_rel R \<Longrightarrow> keeps R (or_panic x)"
  unfolding or_panic_def by (intro keeps_rules)

lemma keeps_emit: "order_rel R \<Longrightarrow> handle_keeps R h \<Longrightarrow> keeps R (emit h sb seg)"
  unfolding emit_def by (cases h) (auto simp: handle_keeps_def intro!: keeps_rules)

lemma keeps_invoke: "order_rel R \<Longrightarrow> rval_keeps R v \<Longrightarrow> keeps R (invokeReplace v groups match)"
  unfolding invokeReplace_def rval_keeps_def
  by (cases v) (auto intro!: keeps_rules split: jval.splits)

lemma keeps_resolve:
  assumes "order_rel R" and "\<forall>v \<in> snd ` set replace. rval_keeps R v"
  shows "keeps R (resolveMatch compile re model replace gk match groups)"
proof -
  have "rval_keeps R v" if "map_of replace k = Some v" for k v
    using assms(2) map_of_SomeD [OF that] by force
  then show ?thesis
    unfolding resolveMatch_def Let_def using assms(1)
    by (auto intro!: keeps_rules keeps_invoke split: option.splits)
qed

lemma keeps_render_loop:
  "order_rel R \<Longrightarrow> handle_keeps R h \<Longrightarrow> (\<And>match groups. keeps R (resolve match groups)) \<Longrightarrow>
   render_loop re resolve h remain sb s = (t, r) \<Longrightarrow> R s t"
proof (induction re resolve h remain sb s rule: render_loop.induct)
  case (1 re resolve h remain sb s)
  note R = 1(2) and h = 1(3) and res = 1(4)
  have m: "keeps R (render_match re resolve h remain locs sb)" for locs
    unfolding render_match_def using R h res by (intro keeps_rules keeps_emit)
  show ?case
  proof (cases "tr_find re remain")
    case None
    then have "emit h sb remain s = (t, r)" using 1(5) by (simp add: render_loop.simps)
    then show ?thesis using keeps_emit [OF R h] keepsD by metis
  next
    case (Some locs0)
    have reflR: "R s s" and trans: "\<And>u v. R s u \<Longrightarrow> R u v \<Longrightarrow> R s v" using R unfolding order_rel_def by blast+
    consider "t = s" | a b locs t1 r1 where "locs0 = (a, b) # locs" "a \<noteq> b"
      "render_match re resolve h remain ((a, b) # locs) sb s = (t1, r1)"
      "t = t1 \<or> (\<exists>sb1. r1 = Inr sb1 \<and> text_slice remain a b \<noteq> None \<and>
         render_loop re resolve h (drop (nat b) remain) sb1 t1 = (t, r))"
      using 1(5) Some
      by (auto simp: render_loop.simps [of _ _ _ remain] split: list.splits if_splits prod.splits sum.splits)
    then show ?thesis
    proof cases
      case 1
      then show ?thesis using reflR by simp
    next
      case (2 a b locs t1 r1)
      have "R s t1" using keepsD [OF m 2(3)] .
      then show ?thesis using 2 "1.IH" [OF Some 2(1) refl 2(2) 2(3) [symmetric]] R h res trans by metis
    qed
  qed
qed

text \<open>Changing a cache is a change \<open>R\<close> does not see.\<close>

definition blind :: "('z caches_scheme \<Rightarrow> 'z caches_scheme \<Rightarrow> bool) \<Rightarrow> bool" where
  "blind R = (\<forall>s u v. R s (s\<lparr>tc_templates := u\<rparr>) \<and> R s (s\<lparr>tc_ejects := v\<rparr>))"

lemma keeps_cache:
  assumes "order_rel R" and "blind R"
  shows "keeps R (getCachedTemplateRE key built)" "keeps R (compileEjectMarker compile m)"
proof -
  show "keeps R (getCachedTemplateRE key built)"
    using assms by (auto simp: keeps_def getCachedTemplateRE_def Let_def order_rel_def blind_def split: option.splits)
  have "keeps R (\<lambda>s. case map_of (tc_ejects s) v of Some re \<Rightarrow> (s, Inr (Some re))
     | None \<Rightarrow> (case compile p of Inl e \<Rightarrow> (s, Inl (ErrMsg e))
         | Inr tre \<Rightarrow> let re = f tre in (s\<lparr>tc_ejects := g v re s\<rparr>, Inr (Some re))))" for v p f g
    using assms
    by (auto simp: keeps_def Let_def order_rel_def blind_def split: option.splits sum.splits)
  then show "keeps R (compileEjectMarker compile m)"
    unfolding compileEjectMarker_def using assms(1) by (cases m) (auto intro: keeps_rules)
qed

lemma keeps_Template:
  assumes R: "order_rel R" "blind R" and "handle_keeps R (ts_Handle spec)"
    and "\<forall>v \<in> snd ` set (ts_Replace spec). rval_keeps R v"
  shows "keeps R (Template compile src model spec)"
proof -
  have "keeps R (applyEject compile src (ts_Eject spec))"
    unfolding applyEject_def Let_def using R by (intro keeps_rules keeps_cache)
  moreover have "keeps R (render_loop re (resolveMatch compile re model (ts_Replace spec) gk) (ts_Handle spec) out [])"
    for re gk out
    using keeps_render_loop [OF R(1) assms(3)] keeps_resolve [OF R(1) assms(4)] by (blast intro: keepsI)
  ultimately show ?thesis
    unfolding Template_def Let_def using R by (intro keeps_rules keeps_cache)
qed

section \<open>The store\<close>

definition kids_at :: "jstate \<Rightarrow> nat \<Rightarrow> nat list" where "kids_at s i = dn_Children (node_at s i)"
definition data_at :: "jstate \<Rightarrow> nat \<Rightarrow> NodeData" where "data_at s i = dn_data (node_at s i)"
definition size_of :: "jstate \<Rightarrow> nat" where "size_of s = length (js_nodes s)"

text \<open>A child is younger than its parent and has the parent's path with its own name; every node but
  the first is the child of exactly one node, once.\<close>

definition store_ok :: "jstate \<Rightarrow> bool" where
  "store_ok s =
     (0 < size_of s \<and>
      (\<forall>i < size_of s. \<forall>k \<in> set (kids_at s i). i < k \<and> k < size_of s \<and>
         n_Path (data_at s k) = childPath s i (n_Name (data_at s k))) \<and>
      mset (concat (map dn_Children (js_nodes s))) = mset [1..<size_of s])"

definition extends :: "jstate \<Rightarrow> jstate \<Rightarrow> bool" where
  "extends s t =
     (size_of s \<le> size_of t \<and>
      (\<forall>i < size_of s. data_at t i = data_at s i \<and> prefix (kids_at s i) (kids_at t i)))"

text \<open>The folders of the Projects all satisfy \<open>F\<close>.\<close>

definition project_folders :: "(string \<Rightarrow> bool) \<Rightarrow> NodeData list \<Rightarrow> bool" where
  "project_folders F ns = (\<forall>n \<in> set ns. n_Kind n = KindProject \<longrightarrow> F (n_Folder n))"

definition good :: "(string \<Rightarrow> bool) \<Rightarrow> jstate \<Rightarrow> bool" where
  "good F s = (store_ok s \<and> project_folders F (map dn_data (js_nodes s)))"

definition grows :: "(string \<Rightarrow> bool) \<Rightarrow> nat \<Rightarrow> jstate \<Rightarrow> jstate \<Rightarrow> bool" where
  "grows F i s t = (good F s \<longrightarrow> i < size_of s \<longrightarrow> good F t \<and> extends s t)"

lemma extends_trans:
  assumes "extends s t" and "extends t u"
  shows "extends s u"
proof -
  have "data_at u i = data_at s i \<and> prefix (kids_at s i) (kids_at u i)" if "i < size_of s" for i
  proof -
    have "i < size_of t" using that assms(1) by (simp add: extends_def)
    then show ?thesis using that assms unfolding extends_def by (metis prefix_order.trans)
  qed
  then show ?thesis using assms unfolding extends_def by simp
qed

lemma order_grows [simp]: "order_rel (grows F i)"
  unfolding order_rel_def grows_def using extends_trans
  by (auto simp: extends_def intro: less_le_trans)

text \<open>What leaves the nodes' data and children alone.\<close>

definition same_shape :: "jstate \<Rightarrow> jstate \<Rightarrow> bool" where
  "same_shape s t = (map (\<lambda>d. (dn_data d, dn_Children d)) (js_nodes t) = map (\<lambda>d. (dn_data d, dn_Children d)) (js_nodes s))"

lemma same_shape_at:
  assumes "same_shape s t"
  shows "size_of t = size_of s" and "i < size_of s \<Longrightarrow> data_at t i = data_at s i"
    and "i < size_of s \<Longrightarrow> kids_at t i = kids_at s i"
proof -
  have len: "length (js_nodes t) = length (js_nodes s)"
    using assms unfolding same_shape_def by (rule map_eq_imp_length_eq)
  then show "size_of t = size_of s" by (simp add: size_of_def)
  show "data_at t i = data_at s i" "kids_at t i = kids_at s i" if "i < size_of s"
    using assms that len nth_map [of i "js_nodes s" "\<lambda>d. (dn_data d, dn_Children d)"]
      nth_map [of i "js_nodes t" "\<lambda>d. (dn_data d, dn_Children d)"]
    by (auto simp: same_shape_def size_of_def data_at_def kids_at_def node_at_def)
qed

lemma store_okD:
  "store_ok s \<Longrightarrow> i < size_of s \<Longrightarrow> k \<in> set (kids_at s i) \<Longrightarrow>
   i < k \<and> k < size_of s \<and> n_Path (data_at s k) = childPath s i (n_Name (data_at s k))"
  unfolding store_ok_def by blast

lemma same_shape_ok:
  assumes "same_shape s t" and "store_ok s"
  shows "store_ok t"
proof -
  note at = same_shape_at [OF assms(1)]
  have "i < k \<and> k < size_of t \<and> n_Path (data_at t k) = childPath t i (n_Name (data_at t k))"
    if "i < size_of t" "k \<in> set (kids_at t i)" for i k
  proof -
    have i: "i < size_of s" "k \<in> set (kids_at s i)" using that at by simp_all
    note k = store_okD [OF assms(2) i]
    have "childPath t i name = childPath s i name" for name
      using at(2) [OF i(1)] by (simp only: childPath_def data_at_def [symmetric])
    moreover have "data_at t k = data_at s k" using at(2) k by blast
    ultimately show ?thesis using k by (simp only: at(1))
  qed
  moreover have "map dn_Children (js_nodes t) = map dn_Children (js_nodes s)"
    using arg_cong [OF assms(1) [unfolded same_shape_def], of "map snd"] by (simp add: comp_def)
  moreover have "0 < size_of t \<and> mset (concat (map dn_Children (js_nodes s))) = mset [1..<size_of t]"
    using assms(2) at(1) unfolding store_ok_def by simp
  ultimately show ?thesis unfolding store_ok_def by metis
qed

lemma same_shape_grows: "same_shape s t \<Longrightarrow> grows F i s t"
proof -
  assume shape: "same_shape s t"
  have "map dn_data (js_nodes t) = map dn_data (js_nodes s)"
    using arg_cong [OF shape [unfolded same_shape_def], of "map fst"] by (simp add: comp_def)
  then show ?thesis
    using same_shape_at [OF shape] same_shape_ok [OF shape] by (simp add: grows_def extends_def good_def)
qed

section \<open>Attaching\<close>

lemma mset_concat_snoc:
  "i < length xs \<Longrightarrow> mset (concat (xs[i := xs ! i @ [k]])) = add_mset k (mset (concat xs))"
  by (induction xs arbitrary: i) (auto split: nat.split)

lemma attach_run:
  assumes "i < size_of s"
  obtains t where "attach i n s = (t, Inr (size_of s))"
    and "js_nodes t = (js_nodes s)[i := (node_at s i)\<lparr>dn_Children := kids_at s i @ [size_of s]\<rparr>] @ [dnode n]"
proof -
  let ?t = "fst (attach i n s)"
  have "attach i n s = (?t, Inr (size_of s))"
    by (simp add: attach_def on_node_def seq_def bnd_def gets_def modify_def ret_def size_of_def)
  moreover have "js_nodes ?t = (js_nodes s)[i := (node_at s i)\<lparr>dn_Children := kids_at s i @ [size_of s]\<rparr>] @ [dnode n]"
    using assms
    by (simp add: attach_def on_node_def seq_def bnd_def gets_def modify_def ret_def size_of_def node_at_def
        kids_at_def nth_append list_update_append1)
  ultimately show thesis by (rule that)
qed

lemma attach_store:
  assumes ok: "store_ok s" and i: "i < size_of s" and path: "n_Path n = childPath s i (n_Name n)"
    and run: "attach i n s = (t, r)"
  shows "r = Inr (size_of s) \<and> size_of s < size_of t \<and> store_ok t \<and> extends s t \<and>
    map dn_data (js_nodes t) = map dn_data (js_nodes s) @ [n]"
proof -
  obtain t' where t': "attach i n s = (t', Inr (size_of s))"
    "js_nodes t' = (js_nodes s)[i := (node_at s i)\<lparr>dn_Children := kids_at s i @ [size_of s]\<rparr>] @ [dnode n]"
    using attach_run [OF i] .
  then have nodes: "js_nodes t = (js_nodes s)[i := (node_at s i)\<lparr>dn_Children := kids_at s i @ [size_of s]\<rparr>] @ [dnode n]"
    and r: "r = Inr (size_of s)" using run by simp_all
  let ?n = "size_of s"
  have size: "size_of t = Suc ?n" by (simp add: nodes size_of_def)
  have old: "data_at t k = data_at s k" "kids_at t k = (if k = i then kids_at s i @ [?n] else kids_at s k)"
    if "k < ?n" for k
    using that by (cases "k = i"; simp add: data_at_def kids_at_def node_at_def nodes size_of_def nth_append)+
  have fresh: "data_at t ?n = n" "kids_at t ?n = []"
    by (simp_all add: data_at_def kids_at_def node_at_def nodes size_of_def nth_append dnode_def)
  have paths: "childPath t k name = childPath s k name" if "k < ?n" for k name
    using old(1) [OF that] by (simp add: childPath_def data_at_def [symmetric])
  have link: "j < k \<and> k < size_of t \<and> n_Path (data_at t k) = childPath t j (n_Name (data_at t k))"
    if j: "j < size_of t" and k: "k \<in> set (kids_at t j)" for j k
  proof (cases "j < ?n")
    case False
    then show ?thesis using j k size fresh(2) by (simp add: less_Suc_eq)
  next
    case True
    consider "k \<in> set (kids_at s j)" | "j = i" "k = ?n" using k old(2) [OF True] by (auto split: if_splits)
    then show ?thesis
    proof cases
      case 1
      note ok = store_okD [OF ok True 1]
      then show ?thesis using size old(1) [of k] paths [OF True] by simp
    next
      case 2
      then show ?thesis using i size fresh(1) paths [OF True] path by simp
    qed
  qed
  have "map dn_Children (js_nodes t) = (map dn_Children (js_nodes s))[i := map dn_Children (js_nodes s) ! i @ [?n]] @ [[]]"
    using i by (simp add: nodes map_update dnode_def size_of_def kids_at_def node_at_def)
  moreover have "mset (concat (map dn_Children (js_nodes s))) = mset [1..<?n]" "0 < ?n"
    using ok unfolding store_ok_def by blast+
  ultimately have "mset (concat (map dn_Children (js_nodes t))) = mset [1..<size_of t]"
    using i mset_concat_snoc [of i "map dn_Children (js_nodes s)" ?n] size by (simp add: size_of_def)
  moreover have "0 < size_of t" using size by simp
  ultimately have "store_ok t" unfolding store_ok_def using link by blast
  moreover have "extends s t" using old size by (simp add: extends_def)
  moreover have "map dn_data (js_nodes t) = map dn_data (js_nodes s) @ [n]"
    using i by (simp add: nodes map_update dnode_def node_at_def size_of_def list_update_same_conv)
  ultimately show ?thesis using r size by simp
qed

text \<open>A node that a store with such Projects may hold.\<close>

definition fits :: "(string \<Rightarrow> bool) \<Rightarrow> NodeData \<Rightarrow> bool" where
  "fits F n = (n_Kind n = KindProject \<longrightarrow> F (n_Folder n))"

lemma attach_ok:
  assumes "good F s" and "i < size_of s" and "n_Path n = childPath s i (n_Name n)" and "fits F n"
    and "attach i n s = (t, r)"
  shows "r = Inr (size_of s) \<and> size_of s < size_of t \<and> good F t \<and> extends s t"
  using attach_store [OF _ assms(2,3,5)] assms(1,4) by (auto simp: good_def project_folders_def fits_def)

section \<open>Components\<close>

text \<open>A callback is tame if, called on a node of a good store, it leaves a good store with more nodes.\<close>

definition tame :: "(string \<Rightarrow> bool) \<Rightarrow> body \<Rightarrow> bool" where
  "tame F b = (\<forall>i. keeps (grows F i) (b (Some i)))"

definition tame_option :: "(string \<Rightarrow> bool) \<Rightarrow> body option \<Rightarrow> bool" where
  "tame_option F b = (case b of None \<Rightarrow> True | Some f \<Rightarrow> tame F f)"

lemma keeps_same_shape: "(\<And>s s' r. m s = (s', r) \<Longrightarrow> same_shape s s') \<Longrightarrow> keeps (grows F i) m"
  by (blast intro: keepsI same_shape_grows)

lemma same_shape_refl [simp]: "same_shape s s"
  by (simp add: same_shape_def)

lemma same_shape_nodes: "js_nodes t = js_nodes s \<Longrightarrow> same_shape s t"
  by (simp add: same_shape_def)

lemma on_node_shape:
  "(\<And>d. dn_data (f d) = dn_data d \<and> dn_Children (f d) = dn_Children d) \<Longrightarrow> keeps (grows F i) (on_node k f)"
proof (rule keeps_same_shape)
  fix s s' r
  assume f: "\<And>d. dn_data (f d) = dn_data d \<and> dn_Children (f d) = dn_Children d" and "on_node k f s = (s', r)"
  then have "js_nodes s' = (js_nodes s)[k := f (js_nodes s ! k)]" by (auto simp: on_node_def modify_def)
  then show "same_shape s s'"
    by (cases "k < length (js_nodes s)")
      (simp_all add: same_shape_def map_update f list_update_beyond list_update_same_conv)
qed

lemma blind_grows [simp]: "blind (grows F i)"
  unfolding blind_def by (intro allI conjI same_shape_grows same_shape_nodes) simp_all

lemma keeps_modify: "(\<And>s. js_nodes (f s) = js_nodes s) \<Longrightarrow> keeps (grows F i) (modify f)"
  by (rule keeps_same_shape) (auto simp: modify_def intro: same_shape_nodes)

lemma keeps_set_err: "keeps (grows F i) (set_err e)" "keeps (grows F i) (node_err stp e)"
  unfolding node_err_def set_err_def by (rule keeps_modify, simp)+

lemma keeps_filtered: "keeps (grows F k) (filteredKind i kd name)"
  unfolding filteredKind_def
  by (auto intro!: keeps_rules on_node_shape split: option.splits FilterFunc.splits)

lemma keeps_in_generate:
  "keeps (grows F i) (m i) \<Longrightarrow> keeps (grows F i) (in_generate (Some i) m)"
  unfolding in_generate_def option.case by (intro keeps_rules order_grows)

text \<open>The node attached and the callback run on it.\<close>

lemma attach_then:
  assumes "n_Path n = childPath s i (n_Name n)" and "fits F n" and "\<And>k. keeps (grows F k) (f k)"
    and "bnd (attach i n) f s = (t, r)"
  shows "grows F i s t"
  unfolding grows_def
proof (intro impI)
  assume ok: "good F s" "i < size_of s"
  from assms(4) show "good F t \<and> extends s t"
  proof (cases rule: bnd_cases)
    case (error e)
    then show ?thesis using attach_ok [OF ok assms(1,2)] by blast
  next
    case (step k u)
    note u = attach_ok [OF ok assms(1,2) step(1)]
    have "grows F k u t" using assms(3) step(2) by (blast dest: keepsD)
    then show ?thesis using u extends_trans by (simp add: grows_def) blast
  qed
qed

lemma keeps_with_path_attach:
  assumes "\<And>p. n_Name (n p) = name \<and> n_Path (n p) = p \<and> fits F (n p)" and "\<And>k. keeps (grows F k) (f k)"
  shows "keeps (grows F i) (with_path i name (\<lambda>p. bnd (attach i (n p)) f))"
proof (rule keepsI)
  fix s s' r
  assume "with_path i name (\<lambda>p. bnd (attach i (n p)) f) s = (s', r)"
  then have "bnd (attach i (n (childPath s i name))) f s = (s', r)" by (simp add: with_path_def)
  then show "grows F i s s'" using assms by (intro attach_then) simp_all
qed

lemma keeps_descend:
  assumes "\<And>p. n_Name (n p) = name \<and> n_Path (n p) = p \<and> fits F (n p)" and "tame_option F b"
  shows "keeps (grows F i) (with_path i name (\<lambda>p. attachAndDescend i (n p) b))"
proof (rule keepsI)
  fix s s' r
  assume "with_path i name (\<lambda>p. attachAndDescend i (n p) b) s = (s', r)"
  then have run: "attachAndDescend i (n (childPath s i name)) b s = (s', r)" by (simp add: with_path_def)
  let ?n = "n (childPath s i name)"
  have f: "keeps (grows F k) (case b of None \<Rightarrow> ret () | Some f \<Rightarrow> f (Some k))" for k
    using assms(2) by (cases b) (auto simp: tame_option_def tame_def intro: keeps_rules)
  from run show "grows F i s s'"
    unfolding attachAndDescend_def
  proof (cases rule: bnd_cases)
    case (error e)
    then show ?thesis using keeps_filtered keepsD by metis
  next
    case (step rejected u)
    have su: "grows F i s u" using step(1) keeps_filtered keepsD by metis
    show ?thesis
    proof (cases rejected)
      case True
      then show ?thesis using step(2) su by (simp add: ret_def)
    next
      case False
      have "grows F i u s'" if ok: "good F s" "i < size_of s"
      proof -
        have "data_at u i = data_at s i" using su ok by (simp add: grows_def extends_def)
        then have "n_Path ?n = childPath u i (n_Name ?n)"
          using assms(1) by (simp add: childPath_def data_at_def [symmetric])
        then show ?thesis by (rule attach_then [OF _ _ f]) (use step(2) False assms(1) in simp_all)
      qed
      then show ?thesis using su order_grows [of F i] unfolding order_rel_def grows_def by blast
    qed
  qed
qed

lemma newNode_simps [simp]:
  "n_Name (newNode k name p) = name" "n_Path (newNode k name p) = p" "n_Kind (newNode k name p) = k"
  "n_Folder (newNode k name p) = []"
  by (simp_all add: newNode_def)

lemma keeps_Project: "tame_option F b \<Longrightarrow> F folder \<Longrightarrow> keeps (grows F i) (Project (Some i) name folder b)"
  unfolding Project_def by (intro keeps_in_generate keeps_descend) (simp_all add: fits_def)

lemma keeps_simple_components:
  assumes "tame_option F b"
  shows "keeps (grows F i) (Folder (Some i) name b)"
    and "keeps (grows F i) (FileP (Some i) p b)"
    and "keeps (grows F i) (Slot (Some i) name b)"
    and "keeps (grows F i) (InjectP (Some i) name markers exclude b)"
  unfolding Folder_def FileP_def Slot_def InjectP_def
  by (intro keeps_in_generate keeps_if keeps_set_err keeps_descend; use assms in \<open>simp add: fits_def\<close>)+

lemma keeps_Cmp: "tame_option F b \<Longrightarrow> keeps (grows F i) (Cmp c (Some i) name b)"
  unfolding Cmp_def
  by (intro keeps_in_generate; cases b) (auto simp: fits_def intro!: keeps_rules keeps_descend)

lemma keeps_catching:
  "order_rel R \<Longrightarrow> keeps R m \<Longrightarrow> (\<And>e. keeps R (set_err (f e))) \<Longrightarrow> keeps R (catching f m)"
  unfolding catching_def by (intro keeps_rules)

definition rval_tame :: "(string \<Rightarrow> bool) \<Rightarrow> jstate rval \<Rightarrow> bool" where "rval_tame F v = (\<forall>i. rval_keeps (grows F i) v)"

definition all_tame :: "(string \<Rightarrow> bool) \<Rightarrow> (string \<times> jstate rval) list \<Rightarrow> bool" where
  "all_tame F rs = (\<forall>v \<in> snd ` set rs. rval_tame F v)"

lemma keeps_ContentP: "all_tame F (cp_Replace p) \<Longrightarrow> keeps (grows F i) (ContentP c (Some i) p)"
  unfolding ContentP_def Let_def all_tame_def rval_tame_def
  by (intro keeps_in_generate keeps_rules order_grows keeps_filtered keeps_catching keeps_Template blind_grows
      keeps_set_err keeps_with_path_attach) (auto simp: no_spec_def handle_keeps_def fits_def)

lemma keeps_LineP: "all_tame F (cp_Replace p) \<Longrightarrow> keeps (grows F i) (LineP c (Some i) p)"
  unfolding LineP_def by (intro keeps_rules order_grows keeps_ContentP) simp

lemma keeps_CopyFiles: "keeps (grows F i) (CopyFiles c (Some i) p)"
  unfolding CopyFiles_def
  by (intro keeps_in_generate keeps_rules order_grows keeps_filtered keeps_set_err keeps_with_path_attach) (simp add: fits_def)

definition item_tame :: "(string \<Rightarrow> bool) \<Rightarrow> item_body \<Rightarrow> bool" where "item_tame F b = (\<forall>i it. keeps (grows F i) (b (Some i) it))"

lemma tame_list_body: "item_tame F b \<Longrightarrow> tame F (list_body c p b)"
  unfolding tame_def list_body_def item_tame_def Line_def
  by (intro allI keeps_rules order_grows keeps_LineP) (auto simp: content_props_def all_tame_def)

lemma keeps_ListItemsP:
  "(case b of None \<Rightarrow> True | Some f \<Rightarrow> item_tame F f) \<Longrightarrow> keeps (grows F i) (ListItemsP c (Some i) p b)"
  unfolding ListItemsP_def
  by (intro keeps_in_generate; cases b)
    (auto simp: tame_option_def fits_def intro!: keeps_rules keeps_descend tame_list_body)

section \<open>Fragments\<close>

definition frag_tame :: "(string \<Rightarrow> bool) \<Rightarrow> frag_val \<Rightarrow> bool" where
  "frag_tame F v = (case v of FragJ f \<Rightarrow> tame F f | FragVal w \<Rightarrow> rval_tame F w)"

lemma update_values:
  "\<forall>w \<in> snd ` set al. P w \<Longrightarrow> P v \<Longrightarrow> \<forall>w \<in> snd ` set (AList.update k v al). P w"
  by (induction al) auto

lemma update_fold_values:
  "\<forall>v \<in> snd ` set al. P v \<Longrightarrow> (\<And>x. P (g x)) \<Longrightarrow>
   \<forall>v \<in> snd ` set (foldl (\<lambda>out x. AList.update (f x) (g x) out) al xs). P v"
proof (induction xs arbitrary: al)
  case (Cons x xs)
  show ?case unfolding foldl.simps by (rule Cons.IH [OF update_values [OF Cons.prems(1,2)] Cons.prems(2)])
qed simp

lemma keeps_replay: "tame_option F b \<Longrightarrow> keeps (grows F n) (replay n b f)"
  unfolding replay_def
  by (cases b) (auto simp: tame_option_def tame_def intro!: keeps_rules on_node_shape)

lemma keeps_emitting: "keeps (grows F n) m \<Longrightarrow> rval_keeps (grows F n) (emitting m)"
  unfolding emitting_def by (auto intro!: keeps_rules)

lemma fragment_replace_keeps:
  assumes "tame_option F b" and "\<forall>v \<in> snd ` set user. frag_tame F v"
  shows "\<forall>v \<in> snd ` set (fragment_replace n b user names). rval_keeps (grows F n) v"
proof -
  let ?own = "map (\<lambda>(k, v). (k, case v of FragJ f \<Rightarrow> emitting (f (Some n)) | FragVal w \<Rightarrow> w)) user"
  have "rval_keeps (grows F n) (case v of FragJ f \<Rightarrow> emitting (f (Some n)) | FragVal w \<Rightarrow> w)" if "frag_tame F v" for v
    using that by (cases v) (auto simp: frag_tame_def rval_tame_def tame_def intro: keeps_emitting)
  then have "\<forall>v \<in> snd ` set ?own. rval_keeps (grows F n) v"
    using assms(2) by (auto simp: case_prod_beta)
  then have "\<forall>v \<in> snd ` set (foldl (\<lambda>out name. AList.update (slot_key name) (emitting (replay n b (OnlySlot name))) out)
      ?own (sortJS names)). rval_keeps (grows F n) v"
    by (rule update_fold_values) (intro keeps_emitting keeps_replay assms(1))
  moreover have "rval_keeps (grows F n)
      (emitting (seq (on_node n (\<lambda>d. d\<lparr>dn_defaultSlot := True\<rparr>)) (replay n b NotSlots)))"
    by (intro keeps_emitting keeps_rules order_grows on_node_shape keeps_replay assms(1)) simp
  ultimately show ?thesis
    unfolding fragment_replace_def Let_def by (rule update_values)
qed

lemma keeps_renderFragment:
  assumes "tame_option F b" and "\<forall>v \<in> snd ` set (fr_Replace p). frag_tame F v"
  shows "keeps (grows F n) (renderFragment c n p b)"
proof -
  have "handle_keeps (grows F n) (Some (\<lambda>t. ContentP c (Some n) ((content_props t)\<lparr>cp_Raw := True\<rparr>)))"
    by (auto simp: handle_keeps_def content_props_def all_tame_def intro!: keeps_ContentP)
  then show ?thesis
    unfolding renderFragment_def using fragment_replace_keeps [OF assms]
    by (intro keeps_rules order_grows on_node_shape keeps_replay keeps_set_err keeps_Template blind_grows)
      (use assms in simp_all)
qed

lemma keeps_FragmentP:
  assumes "tame_option F b" and "\<forall>v \<in> snd ` set (fr_Replace p). frag_tame F v"
  shows "keeps (grows F i) (FragmentP c (Some i) p b)"
  unfolding FragmentP_def Let_def
  by (intro keeps_in_generate keeps_rules order_grows keeps_filtered keeps_set_err keeps_with_path_attach
      keeps_renderFragment) (use assms in \<open>simp_all add: fits_def\<close>)

section \<open>Data trees\<close>

text \<open>What a parent binds for a child never names a folder.\<close>

definition no_folder :: "props \<Rightarrow> bool" where "no_folder p = (map_of p ''folder'' = None)"

definition thunk_tame :: "(string \<Rightarrow> bool) \<Rightarrow> treeThunk \<Rightarrow> bool" where
  "thunk_tame F t = (\<forall>i inherit. no_folder inherit \<longrightarrow> keeps (grows F i) (t (Some i) inherit))"

definition cmp_tame :: "(string \<Rightarrow> bool) \<Rightarrow> CmpTreeCmp \<Rightarrow> bool" where
  "cmp_tame F f = (\<forall>i p ch. (\<forall>b \<in> set ch. tame F b) \<longrightarrow> keeps (grows F i) (f (Some i) p ch))"

lemma keeps_each_in: "order_rel R \<Longrightarrow> (\<And>x. x \<in> set xs \<Longrightarrow> keeps R (f x)) \<Longrightarrow> keeps R (each f xs)"
  by (induction xs) (auto intro: keeps_rules)

lemma tame_runChildren: "\<forall>t \<in> set ch. thunk_tame F t \<Longrightarrow> no_folder inherit \<Longrightarrow> tame F (runChildren ch inherit)"
  unfolding tame_def runChildren_def thunk_tame_def by (auto intro!: keeps_each_in)

lemma keeps_refuseProps: "keeps (grows F i) (refuseProps c name stp p)"
  unfolding refuseProps_def by (intro keeps_rules order_grows keeps_set_err)

lemma keeps_treeBuild:
  assumes "\<forall>t \<in> set ch. thunk_tame F t" and "name = ''Project'' \<Longrightarrow> F (propString p ''folder'')"
  shows "keeps (grows F i) (treeBuild c name (Some i) p ch)"
proof -
  have b: "tame_option F (Some (runChildren ch []))"
    using tame_runChildren [OF assms(1)] by (simp add: tame_option_def no_folder_def)
  have it: "item_tame F (list_item_body ch set_indent)" for set_indent
    using assms(1) unfolding item_tame_def list_item_body_def Let_def thunk_tame_def
    by (auto simp: no_folder_def intro!: keeps_each_in)
  have reps: "all_tame F (map (\<lambda>(k, v). (k, RVal v)) m)" "\<forall>v \<in> snd ` set (map (\<lambda>(k, v). (k, FragVal (RVal v))) m). frag_tame F v"
    for m
    by (auto simp: all_tame_def rval_tame_def frag_tame_def)
  show ?thesis
    unfolding treeBuild_def Let_def
    by (intro keeps_if keeps_rules order_grows keeps_Project keeps_simple_components keeps_ContentP keeps_LineP
        keeps_refuseProps keeps_FragmentP keeps_CopyFiles keeps_ListItemsP)
      (use b it reps assms(2) in \<open>simp_all add: contentProps_def\<close>)
qed

text \<open>A node's own folder prop is what its component reads.\<close>

lemma map_of_layer: "map_of (layer u b) k = (case map_of u k of Some v \<Rightarrow> Some v | None \<Rightarrow> map_of b k)"
  by (induction u) (auto simp: layer_def AList.update_conv' split: option.splits)

lemma own_folder:
  assumes "no_folder inherit"
  shows "propString (propsMerge [] inherit p) ''folder'' = propString p ''folder''"
proof -
  have own: "map_of (map (\<lambda>(k, v). (k, copyProps v)) p) k = map_option copyProps (map_of p k)" for k
    by (induction p) auto
  have "map_of (propsMerge [] inherit p) ''folder'' = map_option copyProps (map_of p ''folder'')"
    using assms by (simp add: propsMerge_def map_of_layer own no_folder_def layer_def [of "[]"] split: option.splits)
  moreover have "(case copyProps v of Str s \<Rightarrow> s | _ \<Rightarrow> []) = (case v of Str s \<Rightarrow> s | _ \<Rightarrow> [])" for v
    by (cases v) simp_all
  ultimately show ?thesis
    by (simp add: propString_def propVal_def split: option.splits)
qed

definition checks_folder :: "Jcfg \<Rightarrow> (string \<Rightarrow> bool) \<Rightarrow> bool" where
  "checks_folder c F = (\<forall>p path. validFolder c p path = None \<longrightarrow> F (propString p ''folder''))"

lemma tame_node_call:
  assumes "\<forall>(k, f) \<in> set cmps. cmp_tame F f" and "\<forall>t \<in> set ch. thunk_tame F t"
    and "F (propString p ''folder'')"
  shows "thunk_tame F (node_call c cmps defaults name p ch)"
proof (cases "map_of cmps name")
  case None
  then show ?thesis using keeps_treeBuild [OF assms(2)] own_folder assms(3)
    by (auto simp: thunk_tame_def node_call_def Let_def treeRawCmp_def)
next
  case (Some f)
  then have "cmp_tame F f" using assms(1) map_of_SomeD by fastforce
  moreover have "tame F (\<lambda>j. t j [])" if "t \<in> set ch" for t
    using assms(2) that by (simp add: tame_def thunk_tame_def no_folder_def)
  ultimately show ?thesis using Some by (auto simp: thunk_tame_def node_call_def cmp_tame_def)
qed

lemma check_node_folder:
  "check_node c cmps node path = Inr (name, p, kids) \<Longrightarrow> validFolder c p path = None"
  by (auto simp: check_node_def map_sum_def split: option.splits jval.splits if_splits sum.splits)

lemma map_sum_Inr: "map_sum f g x = Inr y \<longleftrightarrow> (\<exists>z. x = Inr z \<and> y = g z)"
  by (cases x) auto

lemma tame_thunks:
  "\<forall>(k, f) \<in> set cmps. cmp_tame F f \<Longrightarrow> checks_folder c F \<Longrightarrow> nodeThunk c cmps defaults node path = Inr t \<Longrightarrow>
     thunk_tame F t"
  "\<forall>(k, f) \<in> set cmps. cmp_tame F f \<Longrightarrow> checks_folder c F \<Longrightarrow> kidThunks c cmps defaults ks i at_path = Inr ts \<Longrightarrow>
     \<forall>t \<in> set ts. thunk_tame F t"
proof (induction c cmps defaults node path and c cmps defaults ks i at_path arbitrary: t and ts
    rule: nodeThunk_kidThunks.induct)
  case (1 c cmps defaults node path)
  obtain name p kids where chk: "check_node c cmps node path = Inr (name, p, kids)"
    using 1(4) by (auto simp: nodeThunk.simps split: sum.splits)
  then obtain ts where ts: "kidThunks c cmps defaults kids 0 (kid_path path name) = Inr ts"
    "t = node_call c cmps defaults name p ts"
    using 1(4) by (auto simp: nodeThunk.simps map_sum_Inr)
  have "F (propString p ''folder'')" using 1(3) check_node_folder [OF chk] unfolding checks_folder_def by blast
  then show ?case using 1(1) [OF chk refl refl 1(2,3) ts(1)] tame_node_call [OF 1(2)] ts(2) by simp
next
  case (3 c cmps defaults k ks i at_path)
  obtain u us where "nodeThunk c cmps defaults k (at_path i) = Inr u"
    "kidThunks c cmps defaults ks (Suc i) at_path = Inr us" "ts = u # us"
    using 3(5) by (auto simp: map_sum_Inr split: sum.splits)
  then show ?case using 3(1) [OF 3(3,4)] 3(2) [OF _ 3(3,4)] by simp
qed simp

lemma update_fold_pairs:
  "\<forall>v \<in> snd ` set al. P v \<Longrightarrow> \<forall>v \<in> snd ` set xs. P v \<Longrightarrow>
   \<forall>v \<in> snd ` set (foldl (\<lambda>out (k, v). AList.update k v out) al xs). P v"
proof (induction xs arbitrary: al)
  case (Cons x xs)
  obtain k w where x: "x = (k, w)" by (cases x)
  have w: "P w" and xs: "\<forall>v \<in> snd ` set xs. P v" using Cons.prems(2) unfolding x by simp_all
  show ?case unfolding x foldl.simps prod.case by (rule Cons.IH [OF update_values [OF Cons.prems(1) w] xs])
qed simp

definition opts_tame :: "(string \<Rightarrow> bool) \<Rightarrow> CmpTreeOptions list \<Rightarrow> bool" where
  "opts_tame F opts = (\<forall>opt \<in> set opts. \<forall>f \<in> snd ` set (to_Cmp opt). cmp_tame F f)"

lemma opts_tame_cmps:
  "\<forall>f \<in> snd ` set al. cmp_tame F f \<Longrightarrow> opts_tame F opts \<Longrightarrow>
   \<forall>f \<in> snd ` set (foldl (\<lambda>out o'. foldl (\<lambda>out (k, v). AList.update k v out) out (to_Cmp o')) al opts). cmp_tame F f"
proof (induction opts arbitrary: al)
  case (Cons opt opts)
  have opt: "\<forall>f \<in> snd ` set (to_Cmp opt). cmp_tame F f" and opts: "opts_tame F opts"
    using Cons.prems(2) by (simp_all add: opts_tame_def)
  show ?case unfolding foldl.simps by (rule Cons.IH [OF update_fold_pairs [OF Cons.prems(1) opt] opts])
qed simp

lemma tame_CmpTree:
  assumes "CmpTree c tree opts = Inr b" and "opts_tame F opts" and "checks_folder c F"
  shows "tame F b"
proof -
  let ?cmps = "foldl (\<lambda>out o'. foldl (\<lambda>out (k, v). AList.update k v out) out (to_Cmp o')) [] opts"
  have cmps: "\<forall>(k, f) \<in> set ?cmps. cmp_tame F f" using opts_tame_cmps [of "[]", OF _ assms(2)] by force
  obtain defaults nodes at_path ts where ts: "kidThunks c ?cmps defaults nodes 0 at_path = Inr ts"
    and b: "b = runChildren ts []"
    using assms(1) unfolding CmpTree_def Let_def map_sum_Inr by blast
  show ?thesis unfolding b
    by (rule tame_runChildren [OF tame_thunks(2) [OF cmps assms(3) ts]]) (simp add: no_folder_def)
qed

section \<open>The tree holds every node once\<close>

function ids_at :: "DNode list \<Rightarrow> nat \<Rightarrow> nat list" where
  "ids_at nodes i =
     i # concat (map (ids_at nodes) (filter (\<lambda>k. i < k \<and> k < length nodes) (dn_Children (nodes ! i))))"
  by pat_completeness auto
termination by (relation "measure (\<lambda>(nodes, i). length nodes - i)") auto

declare ids_at.simps [simp del]

fun tree_data :: "Node \<Rightarrow> NodeData list" where
  "tree_data (Node d cs) = d # concat (map tree_data cs)"

lemma tree_ids: "tree_data (tree_at nodes i) = map (\<lambda>k. dn_data (nodes ! k)) (ids_at nodes i)"
proof (induction nodes i rule: ids_at.induct)
  case (1 nodes i)
  let ?kids = "filter (\<lambda>k. i < k \<and> k < length nodes) (dn_Children (nodes ! i))"
  have "map (\<lambda>x. tree_data (tree_at nodes x)) ?kids = map (\<lambda>x. map (\<lambda>k. dn_data (nodes ! k)) (ids_at nodes x)) ?kids"
    by (rule map_cong) (use 1 in auto)
  then show ?case
    by (simp only: tree_at.simps [of nodes i] ids_at.simps [of nodes i] tree_data.simps list.map map_concat map_map comp_def)
qed

lemma ids_good:
  assumes "store_ok s" and "i < size_of s"
  shows "ids_at (js_nodes s) i = i # concat (map (ids_at (js_nodes s)) (kids_at s i))"
proof -
  have "filter (\<lambda>k. i < k \<and> k < length (js_nodes s)) (dn_Children (js_nodes s ! i)) = kids_at s i"
    using store_okD [OF assms] by (simp add: kids_at_def node_at_def size_of_def filter_id_conv)
  then show ?thesis by (subst ids_at.simps) simp
qed

lemma count_concat: "count (mset (concat xss)) k = (\<Sum>xs \<leftarrow> xss. count (mset xs) k)"
  by (induction xss) auto

lemma sum_list_one:
  "(\<Sum>x \<leftarrow> xs. f x) = (1 :: nat) \<Longrightarrow>
   \<exists>p < length xs. f (xs ! p) = 1 \<and> (\<forall>i < length xs. i \<noteq> p \<longrightarrow> f (xs ! i) = 0)"
proof (induction xs)
  case (Cons x xs)
  show ?case
  proof (cases "f x = 0")
    case True
    then obtain p where "p < length xs" "f (xs ! p) = 1" "\<forall>i < length xs. i \<noteq> p \<longrightarrow> f (xs ! i) = 0"
      using Cons by auto
    then show ?thesis using True by (intro exI [of _ "Suc p"]) (auto simp: nth_Cons split: nat.split)
  next
    case False
    moreover have "f x + (\<Sum>x \<leftarrow> xs. f x) = 1" using Cons.prems by simp
    ultimately have "f x = 1" "(\<Sum>x \<leftarrow> xs. f x) = 0" by arith+
    then have "f (xs ! i) = 0" if "i < length xs" for i using that by simp
    then show ?thesis using \<open>f x = 1\<close> by (intro exI [of _ 0]) (auto simp: nth_Cons split: nat.split)
  qed
qed simp

lemma one_parent:
  assumes ok: "store_ok s" and "0 < k" and "k < size_of s"
  obtains p where "p < size_of s" and "count (mset (kids_at s p)) k = 1"
    and "\<And>i. i < size_of s \<Longrightarrow> i \<noteq> p \<Longrightarrow> k \<notin> set (kids_at s i)"
proof -
  have "count (mset (concat (map dn_Children (js_nodes s)))) k = count (mset [1..<size_of s]) k"
    using ok unfolding store_ok_def by presburger
  also have "\<dots> = 1" using assms(2,3) distinct_count_atmost_1 [of "[1..<size_of s]"] by simp
  finally have "(\<Sum>d \<leftarrow> js_nodes s. count (mset (dn_Children d)) k) = 1"
    by (simp add: count_concat comp_def)
  from sum_list_one [OF this] obtain p where "p < size_of s" "count (mset (kids_at s p)) k = 1"
    "\<forall>i < size_of s. i \<noteq> p \<longrightarrow> count (mset (kids_at s i)) k = 0"
    unfolding size_of_def kids_at_def node_at_def by blast
  then show thesis by (intro that [of p]) (simp_all add: count_eq_zero_iff)
qed

lemma sum_list_count:
  "(\<Sum>j \<leftarrow> xs. (if j = k then 1 else 0) + f j) = count (mset xs) k + (\<Sum>j \<leftarrow> xs. f j)"
  by (induction xs) simp_all

text \<open>A node occurs below \<open>i\<close> as often as its parent does, and once more if it is \<open>i\<close> itself.\<close>

lemma ids_count:
  assumes ok: "store_ok s" and p: "count (mset (kids_at s p)) k = 1"
    "\<And>i. i < size_of s \<Longrightarrow> i \<noteq> p \<Longrightarrow> k \<notin> set (kids_at s i)"
    and k: "p < size_of s" "0 < k"
  shows "i < size_of s \<Longrightarrow> count (mset (ids_at (js_nodes s) i)) k =
    (if i = k then 1 else 0) + count (mset (ids_at (js_nodes s) i)) p"
proof (induction "size_of s - i" arbitrary: i rule: less_induct)
  case less
  let ?ids = "ids_at (js_nodes s)"
  note good = ids_good [OF ok less.prems]
  have kid: "i < j \<and> j < size_of s" if "j \<in> set (kids_at s i)" for j
    using store_okD [OF ok less.prems that] by simp
  have IH: "count (mset (?ids j)) k = (if j = k then 1 else 0) + count (mset (?ids j)) p"
    if "j \<in> set (kids_at s i)" for j
  proof -
    have "size_of s - j < size_of s - i" using kid [OF that] by arith
    then show ?thesis using less.hyps kid [OF that] by blast
  qed
  have "(\<Sum>j \<leftarrow> kids_at s i. count (mset (?ids j)) k) =
      (\<Sum>j \<leftarrow> kids_at s i. (if j = k then 1 else 0) + count (mset (?ids j)) p)"
    by (rule arg_cong [where f = sum_list], rule map_cong) (use IH in auto)
  also have "\<dots> = count (mset (kids_at s i)) k + (\<Sum>j \<leftarrow> kids_at s i. count (mset (?ids j)) p)"
    by (rule sum_list_count)
  finally have sums: "(\<Sum>j \<leftarrow> kids_at s i. count (mset (?ids j)) k) =
      count (mset (kids_at s i)) k + (\<Sum>j \<leftarrow> kids_at s i. count (mset (?ids j)) p)" .
  have here: "count (mset (kids_at s i)) k = (if i = p then 1 else 0)"
    using p less.prems by (simp add: count_eq_zero_iff)
  have split: "count (mset (?ids i)) m = (if i = m then 1 else 0) + (\<Sum>j \<leftarrow> kids_at s i. count (mset (?ids j)) m)" for m
    by (subst good) (simp add: count_concat comp_def)
  show ?case using split [of k] split [of p] sums here by simp
qed

lemma ids_above: "store_ok s \<Longrightarrow> i < size_of s \<Longrightarrow> k \<in> set (ids_at (js_nodes s) i) \<Longrightarrow> i \<le> k \<and> k < size_of s"
proof (induction "size_of s - i" arbitrary: i rule: less_induct)
  case less
  consider "k = i" | j where "j \<in> set (kids_at s i)" "k \<in> set (ids_at (js_nodes s) j)"
    using less.prems(3) ids_good [OF less.prems(1,2)] by auto
  then show ?case
  proof cases
    case (2 j)
    then show ?thesis using store_okD [OF less.prems(1,2) 2(1)] less.hyps [of j] less.prems(1) by force
  qed (use less.prems in simp)
qed

lemma ids_once:
  assumes "store_ok s" and "k < size_of s"
  shows "count (mset (ids_at (js_nodes s) 0)) k = 1"
  using assms(2)
proof (induction k rule: less_induct)
  case (less k)
  have pos: "0 < size_of s" using less.prems by simp
  show ?case
  proof (cases "k = 0")
    case True
    have "0 \<notin> set (ids_at (js_nodes s) j)" if "j \<in> set (kids_at s 0)" for j
      using ids_above [OF assms(1), of j 0] store_okD [OF assms(1) pos that] by auto
    then show ?thesis
      using ids_good [OF assms(1) pos] True by (simp add: count_eq_zero_iff)
  next
    case False
    obtain p where p: "p < size_of s" "count (mset (kids_at s p)) k = 1"
      "\<And>i. i < size_of s \<Longrightarrow> i \<noteq> p \<Longrightarrow> k \<notin> set (kids_at s i)"
      using one_parent [OF assms(1) _ less.prems] False by blast
    then have "k \<in> set (kids_at s p)" by (metis count_eq_zero_iff set_mset_mset zero_neq_one)
    then have "p < k" using store_okD [OF assms(1) p(1)] by blast
    then show ?thesis
      using ids_count [OF assms(1) p(2,3,1) _ pos] less.IH [of p] less.prems False by simp
  qed
qed

text \<open>So the tree below the root holds every node of the store exactly once.\<close>

lemma tree_complete:
  assumes "store_ok s"
  shows "mset (tree_data (tree_at (js_nodes s) 0)) = mset (map dn_data (js_nodes s))"
proof -
  have "mset (ids_at (js_nodes s) 0) = mset [0..<size_of s]"
  proof (rule multiset_eqI)
    fix k
    have "0 < size_of s" using assms unfolding store_ok_def by blast
    then show "count (mset (ids_at (js_nodes s) 0)) k = count (mset [0..<size_of s]) k"
      using ids_once [OF assms, of k] ids_above [OF assms, of 0 k] distinct_count_atmost_1 [of "[0..<size_of s]"]
      by (cases "k < size_of s") (auto simp: count_eq_zero_iff)
  qed
  then have "mset (map (\<lambda>k. dn_data (js_nodes s ! k)) (ids_at (js_nodes s) 0)) =
      mset (map (\<lambda>k. dn_data (js_nodes s ! k)) [0..<size_of s])"
    by (metis mset_map)
  also have "map (\<lambda>k. dn_data (js_nodes s ! k)) [0..<size_of s] = map dn_data (js_nodes s)"
    by (rule nth_equalityI) (simp_all add: size_of_def)
  finally show ?thesis by (simp add: tree_ids)
qed

end
