(* ===== verification/DefineProps.thy ===== *)
theory DefineProps
  imports DefineStore BuildProps
begin

text \<open>
  The claims about the define phase: an error stops it, a Fragment's scan runs nothing, every component
  ends up in the tree that is built exactly once and under its own path, and a tree given as data
  cannot place a file outside the output folder.
\<close>

section \<open>Errors and scans\<close>

text \<open>C27: the first error of a define phase is final: while one is set, no component attaches a node, runs
  its callback, renders, reads a file or replaces the error; and outside a generate, every
  component panics instead of building a tree nobody writes.\<close>

theorem components_stop_at_error:
  "(js_err s \<noteq> None \<longrightarrow> \<not> js_finished s \<longrightarrow>
      Project (Some i) name folder b s = (s, Inr ()) \<and> Folder (Some i) name b s = (s, Inr ()) \<and>
      FileP (Some i) fp b s = (s, Inr ()) \<and> Slot (Some i) name b s = (s, Inr ()) \<and>
      Cmp c (Some i) name b s = (s, Inr ()) \<and> InjectP (Some i) name markers exclude b s = (s, Inr ()) \<and>
      ContentP c (Some i) cp s = (s, Inr ()) \<and> LineP c (Some i) cp s = (s, Inr ()) \<and>
      ListItemsP c (Some i) lp ib s = (s, Inr ()) \<and> CopyFiles c (Some i) cf s = (s, Inr ()) \<and>
      FragmentP c (Some i) fr b s = (s, Inr ())) \<and>
   (j = None \<or> js_finished s \<longrightarrow>
      Project j name folder b s = (s, Inl ErrPanic) \<and> Folder j name b s = (s, Inl ErrPanic) \<and>
      FileP j fp b s = (s, Inl ErrPanic) \<and> Slot j name b s = (s, Inl ErrPanic) \<and>
      Cmp c j name b s = (s, Inl ErrPanic) \<and> InjectP j name markers exclude b s = (s, Inl ErrPanic) \<and>
      ContentP c j cp s = (s, Inl ErrPanic) \<and> LineP c j cp s = (s, Inl ErrPanic) \<and>
      ListItemsP c j lp ib s = (s, Inl ErrPanic) \<and> CopyFiles c j cf s = (s, Inl ErrPanic) \<and>
      FragmentP c j fr b s = (s, Inl ErrPanic))"
proof -
  have stop: "in_generate (Some i) m s = (s, Inr ())" if "js_err s \<noteq> None" "\<not> js_finished s" for i m
    using that by (auto simp: in_generate_def ret_def)
  have out: "in_generate j m s = (s, Inl ErrPanic)" if "j = None \<or> js_finished s" for m
    using that by (cases j) (auto simp: in_generate_def fail_def)
  show ?thesis
    unfolding Project_def Folder_def FileP_def Slot_def Cmp_def InjectP_def LineP_def ContentP_def ListItemsP_def
      CopyFiles_def FragmentP_def
    using stop out by (auto simp: fail_def)
qed

text \<open>A state in which a component has stopped the define phase.\<close>

definition stopped :: jstate where
  "stopped = (define_start no_caches)\<lparr>js_err := Some ErrNilRoot\<rparr>"

theorem components_stop_at_error_witness:
  "Folder (Some 0) ''a'' (Some (\<lambda>j. fail ErrPanic)) stopped = (stopped, Inr ()) \<and>
   Folder None ''a'' (Some (\<lambda>j. fail ErrPanic)) stopped = (stopped, Inl ErrPanic)"
  using components_stop_at_error [where s = stopped and i = 0 and name = "''a''" and b = "Some (\<lambda>j. fail ErrPanic)" and j = None]
  by (simp add: stopped_def define_start_def)

text \<open>What a Fragment's scan learns from a component.\<close>

definition noted :: "Kind \<Rightarrow> string \<Rightarrow> DNode \<Rightarrow> DNode" where
  "noted k name d =
     (if k = KindSlot then d\<lparr>dn_slotNames := List.insert name (dn_slotNames d)\<rparr> else d\<lparr>dn_sawNonSlot := True\<rparr>)"

definition noting :: "nat \<Rightarrow> Kind \<Rightarrow> string \<Rightarrow> jstate \<Rightarrow> jstate \<times> (error + unit)" where
  "noting i k name s = (s\<lparr>js_nodes := (js_nodes s)[i := noted k name (node_at s i)]\<rparr>, Inr ())"

lemma filtered_scan:
  assumes "dn_Filter (node_at s i) = Some ScanSlots"
  shows "filteredKind i k name s = (fst (noting i k name s), Inr True)"
  using assms
  by (auto simp: filteredKind_def noting_def noted_def on_node_def modify_def seq_def bnd_def ret_def gets_def node_at_def
      kindName_def split: Kind.splits)

lemma scan_parts:
  assumes "dn_Filter (node_at s i) = Some ScanSlots"
  shows "bnd (filteredKind i k name) (\<lambda>r. if r then ret () else m) s = noting i k name s"
    and "attachAndDescend i n b s = noting i (n_Kind n) (n_Name n) s"
  using filtered_scan [OF assms] by (simp_all add: attachAndDescend_def bnd_def ret_def noting_def)

text \<open>The scan of a Fragment runs nothing: a component called under it notes its slot's name, or that
  it is no slot, and does nothing else; its callback does not run, no template is rendered, no file
  is looked for, and nothing is attached.\<close>

lemma scan_runs_nothing:
  assumes "js_err s = None" and "\<not> js_finished s" and "dn_Filter (node_at s i) = Some ScanSlots"
    and "markers = ([], []) \<or> fst markers \<noteq> [] \<and> snd markers \<noteq> []"
  shows "Project (Some i) name folder b s = noting i KindProject name s \<and>
    Folder (Some i) name b s = noting i KindFolder name s \<and>
    FileP (Some i) fp b s = noting i KindFile (fp_Name fp) s \<and>
    Slot (Some i) name b s = noting i KindSlot name s \<and>
    Cmp c (Some i) name (Some f) s = noting i KindNone [] s \<and>
    InjectP (Some i) name markers exclude b s = noting i KindInject name s \<and>
    ContentP c (Some i) cp s = noting i KindContent (cp_Name cp) s \<and>
    LineP c (Some i) cp s = noting i KindContent (cp_Name cp) s \<and>
    ListItemsP c (Some i) lp (Some ib) s = noting i KindNone [] s \<and>
    CopyFiles c (Some i) cf s = noting i KindCopy (cf_To cf) s \<and>
    FragmentP c (Some i) fr b s = noting i KindFragment [] s"
proof -
  have run: "in_generate (Some i) m s = m i s" for m
    using assms(1,2) by (simp add: in_generate_def)
  note scan = scan_parts [OF assms(3)]
  have "markers \<noteq> ([], []) \<and> (fst markers = [] \<or> snd markers = []) \<longleftrightarrow> False" using assms(4) by auto
  then show ?thesis
    unfolding Project_def Folder_def FileP_def Slot_def Cmp_def InjectP_def LineP_def ListItemsP_def
      CopyFiles_def FragmentP_def
    using assms(2) by (simp only: run ContentP_def with_path_def) (simp add: scan run)
qed

definition scanning :: jstate where
  "scanning = (define_start no_caches)\<lparr>js_nodes := [(dnode (newNode KindFragment [] []))\<lparr>dn_Filter := Some ScanSlots\<rparr>]\<rparr>"

lemma scan_runs_nothing_witness:
  "Slot (Some 0) ''s'' (Some (\<lambda>j. fail ErrPanic)) scanning = noting 0 KindSlot ''s'' scanning \<and>
   dn_slotNames (node_at (fst (Slot (Some 0) ''s'' (Some (\<lambda>j. fail ErrPanic)) scanning)) 0) = [''s'']"
proof -
  have "Slot (Some 0) ''s'' (Some (\<lambda>j. fail ErrPanic)) scanning = noting 0 KindSlot ''s'' scanning"
    using scan_runs_nothing [where s = scanning and i = 0 and name = "''s''" and b = "Some (\<lambda>j. fail ErrPanic)" and markers = "([], [])"]
    by (simp add: scanning_def define_start_def node_at_def)
  then show ?thesis
    by (simp add: noting_def noted_def scanning_def node_at_def dnode_def)
qed

section \<open>The tree of a define phase\<close>

text \<open>Every node's path is its parent's with its own name appended.\<close>

fun paths_from :: "string list \<Rightarrow> Node \<Rightarrow> bool" where
  "paths_from p (Node d cs) =
     (n_Path d = p \<and>
      list_all (\<lambda>k. paths_from (if n_Name (n_data k) = [] then p else p @ [n_Name (n_data k)]) k) cs)"

lemma tree_at_good:
  assumes "store_ok s" and "i < size_of s"
  shows "tree_at (js_nodes s) i = Node (data_at s i) (map (tree_at (js_nodes s)) (kids_at s i))"
proof -
  have "filter (\<lambda>k. i < k \<and> k < length (js_nodes s)) (dn_Children (js_nodes s ! i)) = kids_at s i"
    using store_okD [OF assms] by (simp add: kids_at_def node_at_def size_of_def filter_id_conv)
  then show ?thesis by (subst tree_at.simps) (simp add: data_at_def node_at_def)
qed

lemma tree_paths: "store_ok s \<Longrightarrow> i < size_of s \<Longrightarrow> paths_from (n_Path (data_at s i)) (tree_at (js_nodes s) i)"
proof (induction "size_of s - i" arbitrary: i rule: less_induct)
  case less
  let ?below = "\<lambda>k. if n_Name (data_at s k) = [] then n_Path (data_at s i) else n_Path (data_at s i) @ [n_Name (data_at s k)]"
  have kid: "paths_from (?below k) (tree_at (js_nodes s) k)" "n_data (tree_at (js_nodes s) k) = data_at s k"
    if "k \<in> set (kids_at s i)" for k
  proof -
    note k = store_okD [OF less.prems that]
    have "size_of s - k < size_of s - i" using k by arith
    then have "paths_from (n_Path (data_at s k)) (tree_at (js_nodes s) k)" using less.hyps less.prems(1) k by blast
    moreover have "n_Path (data_at s k) = ?below k"
      using k by (simp add: childPath_def data_at_def)
    ultimately show "paths_from (?below k) (tree_at (js_nodes s) k)" by (simp only:)
    show "n_data (tree_at (js_nodes s) k) = data_at s k" using tree_at_good [OF less.prems(1), of k] k by simp
  qed
  show ?case
    unfolding tree_at_good [OF less.prems] paths_from.simps list_all_iff set_map ball_simps
    using kid by (simp only: simp_thms ball_simps) (simp only: kid(2) cong: ball_cong, simp)
qed

lemma start_good: "good F (define_start cc)"
  by (simp add: good_def store_ok_def project_folders_def define_start_def size_of_def kids_at_def node_at_def dnode_def)

lemma define_ends_good:
  assumes "tame F b" and "runDefine cc b = (s, Inr (Some t))"
  shows "good F s \<and> t = tree_at (js_nodes s) 0 \<and> data_at s 0 = newNode KindNone [] []"
proof -
  obtain u x where u: "b (Some 0) (define_start cc) = (u, Inr x)" "s = u" "define_tree u = Some t"
    using assms(2) unfolding runDefine_def
  proof (cases rule: bnd_cases)
    case (step x u)
    then have "js_err u = None" by (cases "js_err u") (simp_all add: fail_def)
    then show ?thesis using step that by (auto simp: gets_def)
  qed simp
  have "grows F 0 (define_start cc) u" by (rule keepsD [OF assms(1) [unfolded tame_def, rule_format] u(1)])
  moreover have "0 < size_of (define_start cc)" by (simp add: define_start_def size_of_def)
  ultimately have "good F u" "data_at u 0 = data_at (define_start cc) 0"
    using start_good by (auto simp: grows_def extends_def)
  then show ?thesis
    using u(2,3) by (auto simp: define_tree_def data_at_def node_at_def define_start_def dnode_def split: if_splits)
qed

text \<open>C26: a tree given as data becomes exactly the tree of its components: when the define phase of an
  accepted tree ends, the tree handed to the build holds every node any component attached, each
  exactly once, however Fragments replayed their children, and every node's path is its parent's
  path with its own name. A caller's own components take part if they keep to their node.\<close>

theorem data_tree_complete:
  assumes "CmpTree c tree opts = Inr b" and "opts_tame (\<lambda>f. True) opts"
    and "runDefine cc b = (s, Inr (Some t))"
  shows "mset (tree_data t) = mset (map dn_data (js_nodes s)) \<and> paths_from [] t"
proof -
  have "tame (\<lambda>f. True) b" by (rule tame_CmpTree [OF assms(1,2)]) (simp add: checks_folder_def)
  from define_ends_good [OF this assms(3)]
  have ok: "store_ok s" "t = tree_at (js_nodes s) 0" "data_at s 0 = newNode KindNone [] []"
    by (auto simp: good_def)
  have "0 < size_of s" using ok(1) unfolding store_ok_def by blast
  from tree_paths [OF ok(1) this] tree_complete [OF ok(1)] ok(2,3) show ?thesis by simp
qed

section \<open>A data tree stays in the output folder\<close>

text \<open>A project folder that \<^verbatim>\<open>validFolder\<close> accepts off Windows.\<close>

definition inner_folder :: "string \<Rightarrow> bool" where
  "inner_folder f = (\<not> rooted f \<and> validName f)"

lemma validFolder_inner: "checks_folder c inner_folder"
  unfolding checks_folder_def
proof (intro allI impI)
  fix p path
  assume ok: "validFolder c p path = None"
  show "inner_folder (propString p ''folder'')"
  proof (cases "propVal p ''folder''")
    case (Str f)
    then have "\<not> has_prefix f ''/''" "DOTDOT \<notin> set (fields_func (\<lambda>c. c = SLASH \<or> c = BSLASH) f)"
      using ok by (auto simp: validFolder_def split: if_splits)
    then show ?thesis using Str by (cases f) (auto simp: propString_def inner_folder_def validName_def)
  qed (use ok in \<open>simp_all add: validFolder_def propString_def inner_folder_def validName_def\<close>)
qed

lemma canon_below_canon:
  assumes "folder \<noteq> []" and "validName w"
  shows "canonOutPath (canonFolder folder @ ''/'' @ w) = canonOutPath (folder @ ''/'' @ w)"
proof -
  let ?r = "rooted (fwd folder)" and ?A = "clean_segs (rooted (fwd folder)) (segments (fwd folder))"
  have n: "norm_segs ?r ?A" by (rule clean_segs_norm)
  have A: "clean_segs ?r (segments (path_clean (fwd folder))) = ?A"
    unfolding path_clean_def by (rule clean_unsegment [OF n])
  have "path_clean (fwd (canonFolder folder @ ''/'' @ w)) = path_clean (fwd (folder @ ''/'' @ w))"
    using clean_composed [OF assms(2,1)] clean_composed [OF assms(2), of "canonFolder folder"]
    by (simp add: A canonFolder_clean)
  moreover have "has_suffix (fwd (x @ ''/'' @ w)) ''/'' = (w = [] \<or> last (fwd w) = SLASH)" for x
    by (cases w) (simp_all add: has_suffix_last fwd_Cons)
  ultimately show ?thesis by (simp add: canonOutPath_def Let_def)
qed

text \<open>The folder the walk is in, when every Project around it has an inner folder.\<close>

definition based :: "string \<Rightarrow> string \<Rightarrow> string" where
  "based folder u = (if u = [] then folder else folder @ ''/'' @ u)"

definition inside_ref :: "string \<Rightarrow> folderRef \<Rightarrow> bool" where
  "inside_ref folder f =
     (list_all validName (fr_path f) \<and>
      (\<exists>u. validName u \<and> (fr_parent f = based folder u \<or> fr_parent f = canonFolder (based folder u))))"

lemma inside_full_path:
  assumes "folder \<noteq> []" and "inside_ref folder f" and "validName name"
  shows "withinFolder False (canonFolder folder) (full_path f name)"
proof -
  obtain u where u: "validName u" "fr_parent f = based folder u \<or> fr_parent f = canonFolder (based folder u)"
    and ps: "list_all validName (fr_path f)"
    using assms(2) unfolding inside_ref_def by blast
  let ?dir = "join_with ''/'' (fr_path f)"
  define w where "w = (if ?dir \<noteq> [] then join_with ''/'' [?dir, name] else name)"
  define v where "v = (if u = [] then w else join_with ''/'' [u, w])"
  have w: "validName w" using ps assms(3) validName_join [of "fr_path f"] validName_join [of "[?dir, name]"]
    by (simp add: w_def)
  then have v: "validName v" using u(1) validName_join [of "[u, w]"] by (simp add: v_def)
  have "full_path f name = canonOutPath (fr_parent f @ ''/'' @ w)"
    by (simp add: full_path_def current_dir_def Let_def w_def)
  also have "\<dots> = canonOutPath (based folder u @ ''/'' @ w)"
    using u(2) canon_below_canon [OF _ w, of "based folder u"] assms(1) by (auto simp: based_def)
  also have "based folder u @ ''/'' @ w = folder @ ''/'' @ v" by (simp add: based_def v_def)
  finally show ?thesis using valid_name_within [OF assms(1) v] by simp
qed

lemma project_parent_inner:
  assumes "\<not> c_windows (b_cfg c)" and "b_folder c \<noteq> []" and "inner_folder (n_Folder n)"
  shows "project_parent c n = canonFolder (based (b_folder c) (n_Folder n))"
proof -
  have "isAbsFromPathOn (n_Folder n) False = False" using assms(3) by (simp add: inner_folder_def)
  then show ?thesis using assms(1,2) by (simp add: project_parent_def canonFolder_clean based_def Let_def)
qed

lemma project_folders_append: "project_folders F (a @ b) = (project_folders F a \<and> project_folders F b)"
  by (auto simp: project_folders_def)

lemma step_inside:
  shows "step c t s = (s', Inr t') \<Longrightarrow> \<not> c_windows (b_cfg c) \<Longrightarrow> b_folder c \<noteq> [] \<Longrightarrow>
      inside_ref (b_folder c) (bs_folder s) \<Longrightarrow> project_folders inner_folder (tree_data t) \<Longrightarrow>
      list_all (withinFolder False (canonFolder (b_folder c))) (file_paths t')"
    and "step_list c ts s = (s', Inr ts') \<Longrightarrow> \<not> c_windows (b_cfg c) \<Longrightarrow> b_folder c \<noteq> [] \<Longrightarrow>
      inside_ref (b_folder c) (bs_folder s) \<Longrightarrow> project_folders inner_folder (concat (map tree_data ts)) \<Longrightarrow>
      list_all (withinFolder False (canonFolder (b_folder c))) (concat (map file_paths ts'))"
proof (induction c t and c ts arbitrary: s s' t' and s s' ts' rule: step_step_list.induct)
  case (1 c n cs)
  from step_ok [OF 1(2)] obtain n1 s1 cs' s2 n2 where
    b: "op_before c n s = (s1, Inr n1)" and l: "step_list c cs s1 = (s2, Inr cs')" and
    a: "op_after c n1 cs' s2 = (s', Inr n2)" and t: "t' = Node n2 cs'" .
  note e = before_enters [OF b] and af = after_leaves [OF a]
  have n: "n_Kind n = KindProject \<longrightarrow> inner_folder (n_Folder n)"
    and cs: "project_folders inner_folder (concat (map tree_data cs))"
    using 1(6) by (auto simp: project_folders_def)
  have "inside_ref (b_folder c) (bs_folder s1)"
  proof (cases "n_Kind n = KindProject")
    case True
    then have "fr_path (bs_folder s1) = []" "fr_parent (bs_folder s1) = project_parent c n"
      using e unfolding entered_def by blast+
    then show ?thesis using project_parent_inner [OF 1(3,4)] n True
      by (auto simp: inside_ref_def inner_folder_def)
  next
    case False
    then show ?thesis using e 1(5) by (auto simp: entered_def inside_ref_def place_def)
  qed
  from 1(1) [OF l 1(3,4) this cs]
  have "list_all (withinFolder False (canonFolder (b_folder c))) (concat (map file_paths cs'))" .
  moreover have "n_Kind n2 = n_Kind n" using e af(1) unfolding entered_def by argo
  moreover have "n_Kind n = KindFile \<longrightarrow> withinFolder False (canonFolder (b_folder c)) (n_FullPath n2)"
    using e af(2) inside_full_path [OF 1(4,5)] by (auto simp: entered_def)
  ultimately show ?case by (simp add: t)
next
  case (2 c)
  then show ?case by (simp add: ret_def)
next
  case (3 c x xs)
  from step_list_ok [OF 3(3)] obtain t s1 us where
    x: "step c x s = (s1, Inr t)" and xs: "step_list c xs s1 = (s', Inr us)" and ts: "ts' = t # us" .
  have "bs_folder s1 = bs_folder s" using step_walked(1) [OF x] by (simp add: walked_def place_def)
  then show ?case using 3(1) [OF x 3(4-6)] 3(2) [OF xs 3(4,5)] 3(6,7) by (simp add: ts project_folders_append)
qed

text \<open>C25: a component tree that arrives as data cannot place a File outside the output folder, whatever
  names, project folders, lists and fragments it is made of: if the tree is accepted, defined and
  built off Windows, the output path of every File lies within the folder of the options. (Files that
  a Copy brings along have the names of their source.)\<close>

theorem data_tree_stays_inside:
  assumes "CmpTree c tree opts = Inr b" and "opts_tame inner_folder opts"
    and "runDefine cc b = (s, Inr (Some t))"
    and "step bc t (newBuildCtx (b_folder bc) h) = (bs, Inr t')"
    and "\<not> c_windows (b_cfg bc)" and "b_folder bc \<noteq> []"
  shows "list_all (withinFolder False (canonFolder (b_folder bc))) (file_paths t')"
proof -
  have "tame inner_folder b" by (rule tame_CmpTree [OF assms(1,2) validFolder_inner])
  from define_ends_good [OF this assms(3)]
  have ok: "store_ok s" "t = tree_at (js_nodes s) 0" and F: "project_folders inner_folder (map dn_data (js_nodes s))"
    by (auto simp: good_def)
  have "set (tree_data t) = set (map dn_data (js_nodes s))"
    using tree_complete [OF ok(1)] ok(2) by (metis set_mset_mset)
  then have "project_folders inner_folder (tree_data t)" using F unfolding project_folders_def by simp
  moreover have "inside_ref (b_folder bc) (bs_folder (newBuildCtx (b_folder bc) h))"
    using assms(6) by (auto simp: inside_ref_def newBuildCtx_def based_def validName_def intro!: exI [of _ "[]"])
  ultimately show ?thesis using step_inside(1) [OF assms(4-6)] by blast
qed

text \<open>On Windows the check is not the one the build makes: a rooted folder without a drive is not absolute
  for \<^verbatim>\<open>filepath.IsAbs\<close>, so the tree is accepted, and then is for \<^verbatim>\<open>isAbsFromPath\<close>, so the Project
  is placed at that root.\<close>

lemma windows_folder_escapes:
  assumes "\<not> j_IsAbs c (BSLASH # ''evil'')" and "c_windows (b_cfg bc)" and "n_Folder n = BSLASH # ''evil''"
  shows "validFolder c [(''folder'', Str (BSLASH # ''evil''))] path = None \<and> project_parent bc n = ''/evil''"
proof
  have "fields_func (\<lambda>c. c = SLASH \<or> c = BSLASH) (BSLASH # ''evil'') = [''evil'']" by code_simp
  then show "validFolder c [(''folder'', Str (BSLASH # ''evil''))] path = None"
    using assms(1) by (simp add: validFolder_def propVal_def)
  have "path_clean (fwd (BSLASH # ''evil'')) = ''/evil''" by code_simp
  then show "project_parent bc n = ''/evil''"
    using assms(2,3) by (simp add: project_parent_def isAbsFromPathOn_def Let_def)
qed

section \<open>A data tree to instantiate the claims with\<close>

definition dataJcfg :: Jcfg where
  "dataJcfg = \<lparr>j_model = [(''x'', Str ''yz'')], j_debug = False, j_windows = False, j_IsAbs = (\<lambda>p. rooted p),
     j_folder = ''/o'', j_ReadFile = (\<lambda>p. Inr []), j_Stat = (\<lambda>p. None), j_compile = macro_compile,
     j_shape = (\<lambda>name p. None)\<rparr>"

definition data_node :: "string \<Rightarrow> props \<Rightarrow> jval list \<Rightarrow> jval" where
  "data_node name p kids = Obj 1 [(''cmp'', Str name), (''props'', Obj 2 p), (''children'', Arr AnySlice 3 kids)]"

definition dataTree :: jval where
  "dataTree = data_node ''Project'' [(''name'', Str ''p''), (''folder'', Str ''app'')]
     [data_node ''Folder'' [(''name'', Str ''src'')]
       [data_node ''File'' [(''name'', Str ''a'')] [data_node ''Content'' [(''src'', Str ''a$$x$$b'')] []]]]"

definition dataBcfg :: "MemVol Bcfg" where "dataBcfg = sampleBcfg (noControl\<lparr>ct_Dryrun := True\<rparr>)"

definition dataDefine :: "jstate \<times> (error + Node option)" where
  "dataDefine = (case CmpTree dataJcfg dataTree [] of
     Inl e \<Rightarrow> (define_start no_caches, Inl e) | Inr b \<Rightarrow> runDefine no_caches b)"

definition dataBuild :: "Node \<Rightarrow> MemVol Bs \<times> (error + Node)" where
  "dataBuild t = step dataBcfg t (newBuildCtx (b_folder dataBcfg) (sampleFh []))"

lemma data_run:
  obtains b s t bs t' where "CmpTree dataJcfg dataTree [] = Inr b" and "runDefine no_caches b = (s, Inr (Some t))"
    and "dataDefine = (s, Inr (Some t))" and "dataBuild t = (bs, Inr t')" and "file_paths t' = [''/o/app/src/a'']"
proof -
  have all: "case dataDefine of
      (s, Inr (Some t)) \<Rightarrow> (case dataBuild t of (bs, Inr t') \<Rightarrow> file_paths t' = [''/o/app/src/a''] | _ \<Rightarrow> False)
    | _ \<Rightarrow> False"
    by code_simp
  obtain s r where r: "dataDefine = (s, r)" by (cases dataDefine)
  note out = all [unfolded r prod.case]
  then obtain x where x: "r = Inr x" by (cases r) simp_all
  note out = out [unfolded x sum.case]
  then obtain t where t: "x = Some t" by (cases x) simp_all
  have d: "dataDefine = (s, Inr (Some t))" using r x t by simp
  note out = out [unfolded t option.case]
  obtain bs u where u: "dataBuild t = (bs, u)" by (cases "dataBuild t")
  from out [unfolded u prod.case] obtain t' where "dataBuild t = (bs, Inr t')" "file_paths t' = [''/o/app/src/a'']"
    using u by (cases u) simp_all
  note run = d this
  moreover obtain b where "CmpTree dataJcfg dataTree [] = Inr b"
    using run(1) by (cases "CmpTree dataJcfg dataTree []") (simp_all add: dataDefine_def)
  moreover have "runDefine no_caches b = (s, Inr (Some t))" if "CmpTree dataJcfg dataTree [] = Inr b" for b
    using run(1) that by (simp add: dataDefine_def)
  ultimately show thesis using that by blast
qed

theorem data_tree_complete_witness: "\<exists>s t. dataDefine = (s, Inr (Some t)) \<and> paths_from [] t"
proof -
  obtain b s t where run: "CmpTree dataJcfg dataTree [] = Inr b" "runDefine no_caches b = (s, Inr (Some t))"
    "dataDefine = (s, Inr (Some t))"
    by (rule data_run)
  have "opts_tame (\<lambda>f. True) []" by (simp add: opts_tame_def)
  from data_tree_complete [OF run(1) this run(2)] run(3) show ?thesis by blast
qed

theorem data_tree_stays_inside_witness:
  "\<exists>s t bs t'. dataDefine = (s, Inr (Some t)) \<and> dataBuild t = (bs, Inr t') \<and> file_paths t' = [''/o/app/src/a''] \<and>
    list_all (withinFolder False (canonFolder ''/o'')) (file_paths t')"
proof -
  obtain b s t bs t' where run: "CmpTree dataJcfg dataTree [] = Inr b" "runDefine no_caches b = (s, Inr (Some t))"
    "dataDefine = (s, Inr (Some t))" "dataBuild t = (bs, Inr t')" "file_paths t' = [''/o/app/src/a'']"
    using data_run .
  have opts: "opts_tame inner_folder []" by (simp add: opts_tame_def)
  have bc: "\<not> c_windows (b_cfg dataBcfg)" "b_folder dataBcfg = ''/o''" "b_folder dataBcfg \<noteq> []"
    by (simp_all add: dataBcfg_def sampleBcfg_def sampleCfg_def)
  from data_tree_stays_inside [OF run(1) opts run(2) run(4) [unfolded dataBuild_def] bc(1,3)]
  have "list_all (withinFolder False (canonFolder ''/o'')) (file_paths t')" by (simp only: bc(2))
  then show ?thesis using run(3-5) by blast
qed

end
