(* ===== verification/GenerateProps.thy ===== *)
theory GenerateProps
  imports Generate BuildWrite DefineProps
begin

text \<open>
  The claims about a whole call: it touches the provider it picked and nothing else, and an
  in-memory call that succeeds holds, in the volume it returns, the text of every File.
\<close>

section \<open>One provider\<close>

context run_frame
begin

lemma S_run_tree: "b_cfg bc = c \<Longrightarrow> keeps (on_vol S) (run_tree bc doBuild tree)"
  unfolding run_tree_def by (intro still order S_run)

end

lemma run_tree_frame:
  assumes "api_frame api R" and "c_api (b_cfg bc) = api" and "run_tree bc doBuild tree b = (b', r)"
  shows "R (fh_vol (bs_fh b)) (fh_vol (bs_fh b'))"
  using keepsD [OF run_frame.S_run_tree [OF api_frame.frame [OF assms(1,2)] refl] assms(3)]
  by (simp add: on_vol_def api_frame.vol_rel_def [OF assms(1)])

lemma start_vol [simp]: "fh_vol (bs_fh (build_start merged v clock sq)) = v"
  by (simp add: build_start_def newBuildCtx_def startFh_def)

lemma build_cfg_api [simp]: "c_api (b_cfg (build_cfg env merged api clock)) = api"
  by (simp add: build_cfg_def)

definition forced :: "('x Options \<Rightarrow> 'x Options) option \<Rightarrow> 'x Options \<Rightarrow> 'x Options" where
  "forced force merged = (case force of None \<Rightarrow> merged | Some g \<Rightarrow> g merged)"

text \<open>A call that reaches the build phase, step by step.\<close>

lemma generate_cases:
  assumes "generate env global call rt force w = (w', res, e)"
  obtains (early) "w_out w' = w_out w" "w_mem w' = w_mem w" "rs_Vol res = None" "e \<noteq> None"
  | (built) f s tree b r mem api v bc where "rt = Some f" "mem = pick_mem env call (forced force (mergeOptions global call)) w"
      "api = provider env call (forced force (mergeOptions global call)) mem"
      "v = (w_out w, case mem of None \<Rightarrow> no_vol | Some m \<Rightarrow> m)"
      "bc = build_cfg env (forced force (mergeOptions global call)) api (w_clock w)"
      "runDefine (w_caches w) (f (define_cfg env (forced force (mergeOptions global call)) api v)) = (s, Inr tree)"
      "run_tree bc (op_Build (forced force (mergeOptions global call)) \<noteq> Some False) tree
         (build_start (forced force (mergeOptions global call)) v (w_clock w) (w_seq w)) = (b, r)"
      "w_out w' = fst (fh_vol (bs_fh b))"
      "w_mem w' = (if op_Mem (forced force (mergeOptions global call)) = Some True \<and> shares_mem call w
         then Some (snd (fh_vol (bs_fh b))) else w_mem w)"
      "\<And>ws. r = Inr ws \<Longrightarrow> rs_Vol res = map_option (\<lambda>_. memVol (mv_fs (snd (fh_vol (bs_fh b))))) mem \<and>
         (e = None \<or> e = Some (ErrMergeConflict (fh_failures (bs_fh b))))"
      "\<And>err. r = Inl err \<Longrightarrow> e = Some err"
proof (cases "rt = None \<or> \<not> validConflict (forced force (mergeOptions global call))")
  case True
  then show thesis using assms early
    by (auto simp: generate_def noResult_def forced_def Let_def split: option.splits if_splits)
next
  case False
  define merged where "merged = forced force (mergeOptions global call)"
  obtain f where f: "rt = Some f" using False by auto
  define mem where "mem = pick_mem env call merged w"
  define api where "api = provider env call merged mem"
  define v where "v = (w_out w, case mem of None \<Rightarrow> no_vol | Some m \<Rightarrow> m)"
  obtain s r where d: "runDefine (w_caches w) (f (define_cfg env merged api v)) = (s, r)" by (meson surj_pair)
  note run = assms [unfolded generate_def f option.case, folded forced_def, folded merged_def,
      unfolded Let_def, folded mem_def, folded api_def, folded v_def, unfolded d prod.case]
  have ok: "validConflict merged" using False by (simp add: merged_def f)
  show thesis
  proof (cases r)
    case (Inl err)
    then show thesis using run ok by (intro early) (auto simp: noResult_def)
  next
    case (Inr tree)
    define bc where "bc = build_cfg env merged api (w_clock w)"
    obtain b r' where b: "run_tree bc (op_Build merged \<noteq> Some False) tree (build_start merged v (w_clock w) (w_seq w)) = (b, r')"
      by (meson surj_pair)
    have loaded: "case snd (newBuild bc (build_start merged v (w_clock w) (w_seq w))) of Inl e \<Rightarrow> False | Inr u \<Rightarrow> True"
      if "r' = Inr ws" for ws
      using b that unfolding run_tree_def by (auto dest!: bnd_ok)
    show thesis
    proof (rule built [OF f mem_def [unfolded merged_def] api_def [unfolded merged_def] v_def bc_def [unfolded merged_def]
          d [unfolded Inr merged_def] b [unfolded merged_def]])
      define l where "l = (case snd (newBuild bc (build_start merged v (w_clock w) (w_seq w))) of Inl e \<Rightarrow> False | Inr u \<Rightarrow> True)"
      have out: "w' = after_run (op_Mem merged = Some True \<and> shares_mem call w) (bs_fh b) (w\<lparr>w_caches := caches_of s\<rparr>)"
        "(res, e) = report bc (op_Build merged \<noteq> Some False) l (map_option (\<lambda>_. snd (fh_vol (bs_fh b))) mem) (bs_fh b) r'"
        using run ok b Inr by (simp_all add: bc_def l_def shares_mem_def)
      show "w_out w' = fst (fh_vol (bs_fh b))"
        "w_mem w' = (if op_Mem (forced force (mergeOptions global call)) = Some True \<and> shares_mem call w
           then Some (snd (fh_vol (bs_fh b))) else w_mem w)"
        by (simp_all add: out(1) after_run_def merged_def)
      show "e = Some err" if "r' = Inl err" for err
        using out(2) that by (simp add: report_def Let_def)
      show "rs_Vol res = map_option (\<lambda>_. memVol (mv_fs (snd (fh_vol (bs_fh b))))) mem \<and>
         (e = None \<or> e = Some (ErrMergeConflict (fh_failures (bs_fh b))))" if "r' = Inr ws" for ws
      proof -
        have l unfolding l_def using loaded [OF that] .
        then show ?thesis using out(2) that by (auto simp: report_def Let_def option.map_comp comp_def split: if_splits)
      qed
    qed
  qed
qed

text \<open>C30: a call changes the filesystem it picked and nothing else: in memory, with no provider of its
  own, it leaves everything outside the process as it was, whatever the callback defines and
  whether it succeeds; and on any other provider it leaves the instance's volume as it was.\<close>

theorem generate_touches_its_provider:
  assumes "generate env global call rt force w = (w', res, e)"
  shows "if op_Mem (forced force (mergeOptions global call)) = Some True \<and> op_FS call = None
    then w_out w' = w_out w else w_mem w' = w_mem w"
  using assms
proof (cases rule: generate_cases)
  case (built f s tree b r mem api v bc)
  let ?merged = "forced force (mergeOptions global call)"
  have picked: "mem \<noteq> None \<longleftrightarrow> op_Mem ?merged = Some True"
    using built(2) by (simp add: pick_mem_def shares_mem_def)
  show ?thesis
  proof (cases "in_memory call mem")
    case True
    then have "api = snd_api (mem_api (e_wd env) (e_wall env))" using built(3) by (simp add: provider_def)
    then have "fst (fh_vol (bs_fh b)) = fst v"
      using run_tree_frame [OF inside.api_frame_axioms _ built(7)] built(5) by simp
    then show ?thesis using True picked built(4,8) by (simp add: in_memory_def)
  next
    case False
    then have "api = fst_api (e_fs env (op_FS ?merged))" using built(3) by (simp add: provider_def)
    then have "snd (fh_vol (bs_fh b)) = snd v"
      using run_tree_frame [OF outside.api_frame_axioms _ built(7)] built(5) by simp
    then have "w_mem w' = w_mem w"
      using built(2,4,9) by (auto simp: pick_mem_def shares_mem_def)
    then show ?thesis using False picked by (auto simp: in_memory_def)
  qed
qed simp

section \<open>What a call delivers\<close>

text \<open>The files the build itself writes at its end.\<close>

definition log_files :: "'f Cfg \<Rightarrow> string list" where
  "log_files c = [canonOutPath (metaPath c), canonOutPath (gitignorePath c)]"

context fh_run
begin

lemma kept_metaDone: "keeps (kept (key ` set (log_files c))) (metaDone c)"
proof -
  have save: "keeps (kept (key ` set (log_files c))) (saveFile c p x m wh)"
    if "p = metaPath c \<or> p = gitignorePath c" for p x m wh
    using kept_mono [OF kept_saveFile [of p x m wh], of "key ` set (log_files c)"] that by (auto simp: log_files_def)
  have json: "keeps (kept (key ` set (log_files c))) (saveJSON c (metaPath c) x wh)" for x wh
    unfolding saveJSON_def
    by (intro keeps_rules order_kept save disjI1 refl kept_quiet [OF same_vol_prims(1)] kept_quiet [OF same_vol_prims(2)])
  show ?thesis
    unfolding metaDone_def
    by (intro keeps_rules order_kept json save disjI2 refl kept_quiet [OF same_vol_prims(1)])
qed

lemma runBuild_written:
  assumes cfg: "\<not> ct_Dryrun (c_control c)" "\<And>isText. write_only (modesFor c isText)"
    and b: "b_cfg b = c" "\<not> b_exclude b" and t: "plain_tree t" and ok: "inv (fh_vol (bs_fh s))"
    and run: "runBuild b (Some t) s = (s', Inr u)"
  shows "\<exists>s1 t'. step b t s = (s1, Inr t') \<and>
    (apart c key (file_paths t') \<and> key ` set (log_files c) \<inter> key ` set (file_paths t') = {} \<longrightarrow>
       list_all (written api (fh_vol (bs_fh s'))) (file_texts t'))"
proof -
  from run obtain t' s1 where st: "step b t s = (s1, Inr t')" and fin: "on_fh (metaDone (b_cfg b)) s1 = (s', Inr u)"
    unfolding runBuild_def option.case by (metis bnd_ok)
  have bu: "built s s1 (file_paths t') (file_texts t')" by (rule step_built(1) [OF cfg st b t])
  obtain r where md: "metaDone c (bs_fh s1) = (bs_fh s', r)"
    using fin b(1) by (auto simp: on_fh_def split: prod.splits)
  have "list_all (written api (fh_vol (bs_fh s'))) (file_texts t')"
    if ap: "apart c key (file_paths t')" and lg: "key ` set (log_files c) \<inter> key ` set (file_paths t') = {}"
  proof -
    have w: "list_all (written api (fh_vol (bs_fh s1))) (file_texts t')" and i: "inv (fh_vol (bs_fh s1))"
      using bu ok ap unfolding built_def by blast+
    have sp: "spares api key (key ` set (log_files c)) (fh_vol (bs_fh s1)) (fh_vol (bs_fh s'))"
      using keepsD [OF kept_metaDone md] i by (simp add: kept_def)
    show ?thesis
      unfolding list_all_iff
    proof
      fix x
      assume x: "x \<in> set (file_texts t')"
      then have "key (fst x) \<notin> key ` set (log_files c)" using lg by (auto simp: file_texts_paths [symmetric])
      moreover have "written api (fh_vol (bs_fh s1)) x" using w x by (simp add: list_all_iff)
      ultimately show "written api (fh_vol (bs_fh s')) x" using written_spared [OF _ sp] by blast
    qed
  qed
  then show ?thesis using st by blast
qed

end

text \<open>A volume holds the text at the path, or a file there that carries the protect marker.\<close>

definition delivered :: "string option \<Rightarrow> (string \<times> bytes option) list \<Rightarrow> string \<times> string \<Rightarrow> bool" where
  "delivered wd vol f = (case map_of vol (memClean wd (fst f)) of
     Some (Some x) \<Rightarrow> x = snd f \<or> str_contains x protectMarker | _ \<Rightarrow> False)"

lemma memVol_file: "map_of (mem_files m) k = Some x \<Longrightarrow> map_of (memVol m) k = Some (Some x)"
proof -
  assume k: "map_of (mem_files m) k = Some x"
  have "map_of (map (\<lambda>(k, b). (k, Some b)) (mem_files m)) k = map_option Some (map_of (mem_files m) k)"
    by (simp add: map_of_map)
  then show ?thesis using k by (simp add: memVol_def Let_def map_add_def split: option.split)
qed

lemma written_delivered:
  assumes "written (snd_api (mem_api wd wall)) v f"
  shows "delivered wd (memVol (mv_fs (snd v))) f"
  using assms memVol_file [of "mv_fs (snd v)" "memClean wd (fst f)"]
  by (auto simp: written_def delivered_def snd_api_def held_mem)

text \<open>The build of an in-memory call.\<close>

definition memory_cfg :: "('x, 'o) Env \<Rightarrow> 'x Options \<Rightarrow> 'o World \<Rightarrow> ('o \<times> MemVol) Bcfg" where
  "memory_cfg env merged w = build_cfg env merged (snd_api (mem_api (e_wd env) (e_wall env))) (w_clock w)"

definition memory_vol :: "('x, 'o) Env \<Rightarrow> 'x Options \<Rightarrow> 'x Options \<Rightarrow> 'o World \<Rightarrow> 'o \<times> MemVol" where
  "memory_vol env global call w =
     (w_out w, case pick_mem env call (mergeOptions global call) w of None \<Rightarrow> no_vol | Some m \<Rightarrow> m)"

definition memory_tree ::
  "('x, 'o) Env \<Rightarrow> 'x Options \<Rightarrow> 'x Options \<Rightarrow> (Jcfg \<Rightarrow> body) \<Rightarrow> 'o World \<Rightarrow> error + Node option" where
  "memory_tree env global call f w =
     snd (runDefine (w_caches w) (f (define_cfg env (mergeOptions global call)
       (snd_api (mem_api (e_wd env) (e_wall env))) (memory_vol env global call w))))"

text \<open>The walk of the build, after the previous log was read.\<close>

definition memory_built ::
  "('x, 'o) Env \<Rightarrow> 'x Options \<Rightarrow> 'x Options \<Rightarrow> Node \<Rightarrow> 'o World \<Rightarrow> error + Node" where
  "memory_built env global call t w =
     (let bc = memory_cfg env (mergeOptions global call) w
      in snd (bnd (newBuild bc) (\<lambda>_. step bc t)
           (build_start (mergeOptions global call) (memory_vol env global call w) (w_clock w) (w_seq w))))"

lemma run_tree_delivers:
  fixes wd :: "string option"
  defines "key \<equiv> memClean wd"
  assumes api: "c_api (b_cfg bc) = snd_api (mem_api wd wall)"
    and cfg: "\<not> ct_Dryrun (c_control (b_cfg bc))" "\<not> b_exclude bc" "\<And>isText. write_only (modesFor (b_cfg bc) isText)"
    and inv: "mem_inv (snd (fh_vol (bs_fh s)))" and plain: "plain_tree t"
    and run: "run_tree bc True (Some t) s = (b, Inr ws)"
  obtains t' where "snd (bnd (newBuild bc) (\<lambda>_. step bc t) s) = Inr t'"
    and "apart (b_cfg bc) key (file_paths t') \<and> key ` set (log_files (b_cfg bc)) \<inter> key ` set (file_paths t') = {} \<longrightarrow>
      list_all (delivered wd (memVol (mv_fs (snd (fh_vol (bs_fh b)))))) (file_texts t')"
proof -
  from run obtain s1 u u2 where nb: "newBuild bc s = (s1, Inr u)" and rb: "runBuild bc (Some t) s1 = (b, Inr u2)"
    unfolding run_tree_def seq_def by (auto dest!: bnd_ok simp: gets_def)
  have "keeps (on_vol same_vol) (newBuild bc)"
    unfolding newBuild_def loadMeta_def by (intro still quiet)
  from keepsD [OF this nb] have same: "fh_vol (bs_fh s1) = fh_vol (bs_fh s)" by (simp add: on_vol_def same_vol_def)
  have "fs_siblings (c_api (b_cfg bc)) key (\<lambda>s. mem_inv (snd s))"
    unfolding api key_def by (rule mem_pair.fs_siblings_axioms)
  note R = fh_run.runBuild_written [OF fh_run_I [OF this], of bc t s1 b u2]
  obtain s2 t' where st: "step bc t s1 = (s2, Inr t')" and
    out: "apart (b_cfg bc) key (file_paths t') \<and> key ` set (log_files (b_cfg bc)) \<inter> key ` set (file_paths t') = {} \<longrightarrow>
       list_all (written (c_api (b_cfg bc)) (fh_vol (bs_fh b))) (file_texts t')"
    using R [OF cfg(1,3) refl cfg(2) plain _ rb] inv same by auto
  show ?thesis
  proof (rule that)
    show "snd (bnd (newBuild bc) (\<lambda>_. step bc t) s) = Inr t'" using nb st by (simp add: bnd_def)
    show "apart (b_cfg bc) key (file_paths t') \<and> key ` set (log_files (b_cfg bc)) \<inter> key ` set (file_paths t') = {} \<longrightarrow>
      list_all (delivered wd (memVol (mv_fs (snd (fh_vol (bs_fh b)))))) (file_texts t')"
      using out written_delivered [of wd wall "fh_vol (bs_fh b)"] unfolding api list_all_iff by blast
  qed
qed

text \<open>C31: an in-memory call under the default modes delivers what its callback defined, for a tree of
  Projects, Folders, Files and their contents (no Copy, no Inject and no File excluded): when it
  reports no error, the volume it returns holds, at the path of each File of the built tree, the text
  collected from the File's children, or a file there from before that carries the protect marker.
  (The Files are to have paths that do not clash with one another, with the files beside them, or with
  the build's own log.)\<close>

theorem generate_delivers:
  assumes "Generate env global call (Some f) w = (w', res, None)"
    and "op_Mem (mergeOptions global call) = Some True" and "op_FS call = None"
    and "op_Build (mergeOptions global call) \<noteq> Some False"
    and "\<not> ct_Dryrun (op_Control (mergeOptions global call))" and "\<not> op_Exclude (mergeOptions global call)"
    and "\<And>isText. write_only (modesFor (b_cfg (memory_cfg env (mergeOptions global call) w)) isText)"
    and "\<And>m. w_mem w = Some m \<Longrightarrow> mem_inv m"
    and "memory_tree env global call f w = Inr (Some t)" and "plain_tree t"
  shows "\<exists>t' vol. memory_built env global call t w = Inr t' \<and> rs_Vol res = Some vol \<and>
    (apart (b_cfg (memory_cfg env (mergeOptions global call) w)) (memClean (e_wd env)) (file_paths t') \<and>
     memClean (e_wd env) ` set (log_files (b_cfg (memory_cfg env (mergeOptions global call) w))) \<inter>
       memClean (e_wd env) ` set (file_paths t') = {} \<longrightarrow>
     list_all (delivered (e_wd env) vol) (file_texts t'))"
  using assms(1) [unfolded Generate_def]
proof (cases rule: generate_cases)
  case (built f' s tree b r mem api v bc)
  let ?M = "mergeOptions global call"
  have M: "forced None ?M = ?M" by (simp add: forced_def)
  note built = built [unfolded M]
  obtain m where m: "mem = Some m" using built(2) assms(2) by (simp add: pick_mem_def split: if_splits)
    (auto simp: shares_mem_def)
  have api: "api = snd_api (mem_api (e_wd env) (e_wall env))"
    using built(3) assms(3) m by (simp add: provider_def in_memory_def)
  have bc: "bc = memory_cfg env ?M w" using built(5) api by (simp add: memory_cfg_def)
  have v: "v = memory_vol env global call w" using built(2,4) by (simp add: memory_vol_def)
  have tree: "tree = Some t" using built(1,6) assms(9) by (simp add: memory_tree_def api v)
  have "mem_inv (seeded env x)" for x by (simp add: seeded_def mem_inv_def newSeeded_wf)
  then have "mem_inv m" using built(2) m assms(8) by (auto simp: pick_mem_def split: if_splits)
  then have inv: "mem_inv (snd (fh_vol (bs_fh (build_start ?M v (w_clock w) (w_seq w)))))" using built(4) m by simp
  obtain ws where ws: "r = Inr ws" using built(11) by (cases r) auto
  have vol: "rs_Vol res = Some (memVol (mv_fs (snd (fh_vol (bs_fh b)))))" using built(10) [OF ws] m by simp
  have cfg: "c_api (b_cfg bc) = snd_api (mem_api (e_wd env) (e_wall env))" "\<not> ct_Dryrun (c_control (b_cfg bc))" "\<not> b_exclude bc"
    using assms(5,6) built(5) api by (simp_all add: build_cfg_def)
  have run: "run_tree bc True (Some t) (build_start ?M v (w_clock w) (w_seq w)) = (b, Inr ws)"
    using built(7) assms(4) ws tree by simp
  show ?thesis
    by (rule run_tree_delivers [OF cfg assms(7) [folded bc] inv assms(10) run])
      (use vol in \<open>auto simp: memory_built_def Let_def bc v\<close>)
qed simp

section \<open>A call to instantiate the claims with\<close>

definition sampleEnv :: "(unit, MemVol) Env" where
  "sampleEnv = \<lparr>e_fs = (\<lambda>x. mem_api (Some ''/w'') (\<lambda>n. 100 + int n)), e_now = (\<lambda>x n. 5000 + int n),
     e_model = (\<lambda>x. [(''x'', Str ''yz'')]), e_regex = (\<lambda>x. None), e_wd = Some ''/w'', e_wall = (\<lambda>n. 100 + int n),
     e_windows = False, e_pid = 7, e_rand = (\<lambda>n. None), e_sha256 = (\<lambda>b. b), e_unmarshal = (\<lambda>b. Inr JNull),
     e_IsAbs = (\<lambda>p. rooted p), e_Abs = (\<lambda>p. Some (if rooted p then p else ''/w/'' @ p)), e_compile = macro_compile, e_shape = (\<lambda>name p. None),
     e_template = (\<lambda>model src rep. Inr src)\<rparr>"

definition sampleWorld :: "MemVol World" where
  "sampleWorld = \<lparr>w_out = \<lparr>mv_fs = newSeededMemFS (Some ''/w'') 50 [(''/o/app/src/a'', Some ''disk'')], mv_tick = 0\<rparr>,
     w_mem = None, w_caches = no_caches, w_seq = 0, w_clock = 0\<rparr>"

definition memOptions :: "unit Options" where
  "memOptions = noOptions\<lparr>op_Folder := ''/o'', op_Mem := Some True, op_Control := noControl\<lparr>ct_NoDuplicate := True\<rparr>\<rparr>"

definition sampleRoot :: "Jcfg \<Rightarrow> body" where
  "sampleRoot jc j = File j ''a'' (Some (\<lambda>j. ContentP jc j ((content_props ''hi'')\<lparr>cp_Raw := True\<rparr>)))"

definition sampleCall :: "MemVol World \<times> Result \<times> error option" where
  "sampleCall = Generate sampleEnv memOptions noOptions (Some sampleRoot) sampleWorld"

theorem generate_touches_its_provider_witness: "w_out (fst sampleCall) = w_out sampleWorld"
proof -
  obtain w' res e where run: "sampleCall = (w', res, e)" using prod_cases3 by blast
  from generate_touches_its_provider [OF this [unfolded sampleCall_def Generate_def]] show ?thesis
    by (simp add: run forced_def memOptions_def noOptions_def mergeOptions_def over_def)
qed

text \<open>A call ends without an error when its phases do, whatever text \<open>X\<close> the log has.\<close>

definition memory_start :: "('x, 'o) Env \<Rightarrow> 'x Options \<Rightarrow> 'x Options \<Rightarrow> 'o World \<Rightarrow> ('o \<times> MemVol) Bs" where
  "memory_start env global call w =
     build_start (mergeOptions global call) (memory_vol env global call w) (w_clock w) (w_seq w)"

definition end_state :: "bytes \<Rightarrow> 'f Bcfg \<Rightarrow> Node \<Rightarrow> 'f Bs \<Rightarrow> 'f Fh option" where
  "end_state X bc t b0 =
     (case bnd (newBuild bc) (\<lambda>_. step bc t) b0 of
        (b, Inl e) \<Rightarrow> None
      | (b, Inr t') \<Rightarrow>
          (case seq (saveJSON (b_cfg bc) (metaPath (b_cfg bc)) X [])
             (saveFile (b_cfg bc) (gitignorePath (b_cfg bc)) ([NL] @ ''jostraca.meta.log'' @ [NL] @ ''generated'' @ [NL]) 0 [])
             ((bs_fh b)\<lparr>fh_clock := Suc (fh_clock (bs_fh b))\<rparr>) of
             (h, Inl e) \<Rightarrow> None
           | (h, Inr u) \<Rightarrow> Some h))"

definition ends_with :: "('f Fh \<Rightarrow> bool) \<Rightarrow> bytes \<Rightarrow> 'f Bcfg \<Rightarrow> Node \<Rightarrow> 'f Bs \<Rightarrow> bool" where
  "ends_with P X bc t b0 =
     (case end_state X bc t b0 of
        None \<Rightarrow> False
      | Some h \<Rightarrow> (case fh_failures h of [] \<Rightarrow> P h | _ \<Rightarrow> False))"

lemma run_ends_with:
  assumes "\<And>X. ends_with P X bc t b0" and "\<not> ct_Version (c_control (b_cfg bc))"
  obtains b u where "run_tree bc True (Some t) b0 = (b, Inr u)" and "fh_failures (bs_fh b) = []" and "P (bs_fh b)"
proof -
  obtain b1 u1 where n: "newBuild bc b0 = (b1, Inr u1)"
    using assms(1) [of "[]"]
    by (cases "newBuild bc b0"; cases "snd (newBuild bc b0)") (auto simp: ends_with_def end_state_def bnd_def)
  obtain b2 t' where s: "step bc t b1 = (b2, Inr t')"
    using assms(1) [of "[]"] n
    by (cases "step bc t b1"; cases "snd (step bc t b1)") (auto simp: ends_with_def end_state_def bnd_def)
  let ?h = "bs_fh b2" and ?c = "b_cfg bc"
  let ?X = "encode (c_now ?c (fh_clock ?h)) (fh_meta ?h)"
  let ?fin = "seq (saveJSON ?c (metaPath ?c) ?X [])
     (saveFile ?c (gitignorePath ?c) ([NL] @ ''jostraca.meta.log'' @ [NL] @ ''generated'' @ [NL]) 0 [])"
  obtain h u where e: "?fin (?h\<lparr>fh_clock := Suc (fh_clock ?h)\<rparr>) = (h, Inr u)" "fh_failures h = []" "P h"
    using assms(1) [of ?X] n s
    by (cases "?fin (?h\<lparr>fh_clock := Suc (fh_clock ?h)\<rparr>)"; cases "snd (?fin (?h\<lparr>fh_clock := Suc (fh_clock ?h)\<rparr>))")
      (auto simp: ends_with_def end_state_def bnd_def split: list.splits)
  have "metaDone ?c ?h = (h, Inr u)"
    using e(1) assms(2) by (simp add: metaDone_def sample_def bnd_def [of "sample _"])
  then have "run_tree bc True (Some t) b0 = (b2\<lparr>bs_fh := h\<rparr>, Inr (fh_warnings h))"
    by (simp add: run_tree_def runBuild_def bnd_def [of "newBuild _"] n bnd_def [of "step _ _"] s seq_def
        bnd_def on_fh_def gets_def)
  then show thesis using that e(2,3) by simp
qed

lemma generate_succeeds:
  assumes "op_Mem (mergeOptions global call) = Some True" and "op_FS call = None"
    and "op_Build (mergeOptions global call) \<noteq> Some False" and "validConflict (mergeOptions global call)"
    and "\<not> ct_Version (op_Control (mergeOptions global call))"
    and tree: "memory_tree env global call f w = Inr (Some t)"
    and ends: "\<And>X. ends_with (\<lambda>h. True) X (memory_cfg env (mergeOptions global call) w) t (memory_start env global call w)"
  shows "snd (snd (Generate env global call (Some f) w)) = None"
proof -
  let ?M = "mergeOptions global call" and ?bc = "memory_cfg env (mergeOptions global call) w"
  let ?mem = "pick_mem env call ?M w" and ?v = "memory_vol env global call w"
  obtain m where m: "?mem = Some m" using assms(1) by (cases ?mem) (auto simp: pick_mem_def shares_mem_def split: if_splits)
  have api: "provider env call ?M ?mem = snd_api (mem_api (e_wd env) (e_wall env))"
    using assms(2) m by (simp add: provider_def in_memory_def)
  obtain s where s: "runDefine (w_caches w) (f (define_cfg env ?M (snd_api (mem_api (e_wd env) (e_wall env))) ?v)) = (s, Inr (Some t))"
    using tree by (auto simp: memory_tree_def) (metis prod.collapse)
  have nv: "\<not> ct_Version (c_control (b_cfg ?bc))" using assms(5) by (simp add: memory_cfg_def build_cfg_def)
  obtain b u where b: "run_tree ?bc True (Some t) (memory_start env global call w) = (b, Inr u)" "fh_failures (bs_fh b) = []"
    using run_ends_with [OF ends nv] by metis
  show ?thesis
    using s b assms(3,4)
    by (simp add: Generate_def generate_def Let_def api memory_vol_def [symmetric] memory_cfg_def memory_start_def report_def)
qed

lemma sample_tree:
  "case memory_tree sampleEnv memOptions noOptions sampleRoot sampleWorld of
     Inr (Some t) \<Rightarrow> plain_tree t \<and>
       (case memory_built sampleEnv memOptions noOptions t sampleWorld of
          Inr t' \<Rightarrow> file_texts t' = [(''/o/a'', ''hi'')] | _ \<Rightarrow> False)
   | _ \<Rightarrow> False"
  by code_simp

lemma sample_ends:
  "case memory_tree sampleEnv memOptions noOptions sampleRoot sampleWorld of
     Inr (Some t) \<Rightarrow> ends_with (\<lambda>h. True) X (memory_cfg sampleEnv (mergeOptions memOptions noOptions) sampleWorld) t
         (memory_start sampleEnv memOptions noOptions sampleWorld)
   | _ \<Rightarrow> False"
  by code_simp

theorem generate_delivers_witness:
  "\<exists>w' res vol. sampleCall = (w', res, None) \<and> rs_Vol res = Some vol \<and>
     list_all (delivered (Some ''/w'') vol) [(''/o/a'', ''hi'')]"
proof -
  let ?M = "mergeOptions memOptions noOptions" and ?key = "memClean (Some ''/w'')"
  note opts = memOptions_def noOptions_def noControl_def
  obtain x where x: "memory_tree sampleEnv memOptions noOptions sampleRoot sampleWorld = Inr x"
    using sample_tree by (cases "memory_tree sampleEnv memOptions noOptions sampleRoot sampleWorld") simp_all
  obtain t where t: "memory_tree sampleEnv memOptions noOptions sampleRoot sampleWorld = Inr (Some t)"
    using sample_tree x by (cases x) simp_all
  note sample = sample_tree [unfolded t sum.case option.case]
  obtain t' where t': "memory_built sampleEnv memOptions noOptions t sampleWorld = Inr t'" "file_texts t' = [(''/o/a'', ''hi'')]"
    using sample by (cases "memory_built sampleEnv memOptions noOptions t sampleWorld") simp_all
  have plain: "plain_tree t" using sample by simp
  have ends: "ends_with (\<lambda>h. True) X (memory_cfg sampleEnv ?M sampleWorld) t (memory_start sampleEnv memOptions noOptions sampleWorld)" for X
    using sample_ends [of X] unfolding t by simp
  obtain w' res e where run: "sampleCall = (w', res, e)" using prod_cases3 by blast
  have M: "op_Mem ?M = Some True" "op_Build ?M \<noteq> Some False" "validConflict ?M" "\<not> ct_Version (op_Control ?M)"
    "\<not> ct_Dryrun (op_Control ?M)" "\<not> op_Exclude ?M" "op_Existing ?M = noExisting"
    unfolding merge_unset by (simp_all add: validConflict_def opts noExisting_def)
  have fs: "op_FS (noOptions :: unit Options) = None" by (simp add: noOptions_def)
  from generate_succeeds [OF M(1) fs M(2-4) t ends] have "e = None" using run by (simp add: sampleCall_def)
  note run = run [unfolded this]
  have modes: "write_only (modesFor (b_cfg (memory_cfg sampleEnv ?M sampleWorld)) isText)" for isText
    using M(7)
    by (cases isText; simp add: memory_cfg_def build_cfg_def noExisting_def modesFor_def write_only_def boolOr_def)
  have mem: "mem_inv m" if "w_mem sampleWorld = Some m" for m using that by (simp add: sampleWorld_def)
  have wd: "e_wd sampleEnv = Some ''/w''" by (simp add: sampleEnv_def)
  from generate_delivers [OF run [unfolded sampleCall_def] M(1) fs M(2,5,6) modes mem t plain, unfolded wd] t'(1)
  obtain vol where vol: "rs_Vol res = Some vol" and
    out: "apart (b_cfg (memory_cfg sampleEnv ?M sampleWorld)) ?key (file_paths t') \<and>
     ?key ` set (log_files (b_cfg (memory_cfg sampleEnv ?M sampleWorld))) \<inter> ?key ` set (file_paths t') = {} \<longrightarrow>
     list_all (delivered (Some ''/w'') vol) (file_texts t')"
    by auto
  have paths: "file_paths t' = [''/o/a'']" using file_texts_paths [of t'] t'(2) by simp
  have "?key ''/o/a'' \<notin> ?key ` sidecars (b_cfg (memory_cfg sampleEnv ?M sampleWorld)) ''/o/a''"
    "?key ` set (log_files (b_cfg (memory_cfg sampleEnv ?M sampleWorld))) \<inter> ?key ` {''/o/a''} = {}"
    unfolding sidecars_def by code_simp+
  then have "list_all (delivered (Some ''/w'') vol) [(''/o/a'', ''hi'')]" using out paths t'(2) by simp
  then show ?thesis using vol run by blast
qed

end
