(* ===== verification/OsFS.thy ===== *)
theory OsFS
  imports FsApi OutPath
begin

text \<open>
  \<^verbatim>\<open>OsFS\<close> of \<^verbatim>\<open>go/fs.go\<close>, the provider that forwards to the operating system. The calls of Go's
  \<^verbatim>\<open>os\<close> package and \<^verbatim>\<open>filepath.EvalSymlinks\<close> are the record \<open>Host\<close>, on a state of the machine; an open
  file is a number.
\<close>

text \<open>\<^verbatim>\<open>filepath.ToSlash\<close> and \<^verbatim>\<open>filepath.FromSlash\<close>.\<close>

definition toSlash :: "bool \<Rightarrow> string \<Rightarrow> string" where "toSlash windows p = (if windows then fwd p else p)"
definition fromSlash :: "bool \<Rightarrow> string \<Rightarrow> string" where
  "fromSlash windows p = (if windows then map (\<lambda>c. if c = SLASH then BSLASH else c) p else p)"

record 'm Host =
  os_windows :: bool
  os_ReadFile :: "'m \<Rightarrow> string \<Rightarrow> fs_error + bytes"
  os_WriteFile :: "'m \<Rightarrow> string \<Rightarrow> bytes \<Rightarrow> FileMode \<Rightarrow> 'm \<times> fs_error option"
  os_Stat :: "'m \<Rightarrow> string \<Rightarrow> fs_error + FileInfo"
  os_MkdirAll :: "'m \<Rightarrow> string \<Rightarrow> FileMode \<Rightarrow> 'm \<times> fs_error option"
  os_OpenExcl :: "'m \<Rightarrow> string \<Rightarrow> FileMode \<Rightarrow> 'm \<times> (fs_error + nat)"
  os_Write :: "'m \<Rightarrow> nat \<Rightarrow> bytes \<Rightarrow> 'm \<times> fs_error option"
  os_Close :: "'m \<Rightarrow> nat \<Rightarrow> 'm \<times> fs_error option"
  os_Remove :: "'m \<Rightarrow> string \<Rightarrow> 'm \<times> fs_error option"
  os_Chmod :: "'m \<Rightarrow> string \<Rightarrow> FileMode \<Rightarrow> 'm \<times> fs_error option"
  os_EvalSymlinks :: "'m \<Rightarrow> string \<Rightarrow> fs_error + string"
  os_Rename :: "'m \<Rightarrow> string \<Rightarrow> string \<Rightarrow> 'm \<times> fs_error option"
  os_ReadDir :: "'m \<Rightarrow> string \<Rightarrow> fs_error + DirEntry list"

definition sys :: "'m Host \<Rightarrow> string \<Rightarrow> string" where "sys os p = fromSlash (os_windows os) p"

definition osReadFile :: "'m Host \<Rightarrow> 'm \<Rightarrow> string \<Rightarrow> fs_error + bytes" where
  "osReadFile os m p = os_ReadFile os m (sys os p)"

definition osWriteFile :: "'m Host \<Rightarrow> 'm \<Rightarrow> string \<Rightarrow> bytes \<Rightarrow> 'm \<times> fs_error option" where
  "osWriteFile os m p b = os_WriteFile os m (sys os p) b 0x1B6"

definition osExists :: "'m Host \<Rightarrow> 'm \<Rightarrow> string \<Rightarrow> bool" where
  "osExists os m p = (case os_Stat os m (sys os p) of Inl e \<Rightarrow> False | Inr fi \<Rightarrow> True)"

definition osMkdirAll :: "'m Host \<Rightarrow> 'm \<Rightarrow> string \<Rightarrow> 'm \<times> fs_error option" where
  "osMkdirAll os m p = os_MkdirAll os m (sys os p) 0x1FF"

definition osWriteFileExcl :: "'m Host \<Rightarrow> 'm \<Rightarrow> string \<Rightarrow> bytes \<Rightarrow> 'm \<times> fs_error option" where
  "osWriteFileExcl os m p b =
     (let sp = sys os p
      in (case os_OpenExcl os m sp 0x1B6 of
            (m1, Inl e) \<Rightarrow> (m1, Some e)
          | (m1, Inr f) \<Rightarrow>
              (case os_Write os m1 f b of
                 (m2, Some werr) \<Rightarrow> (fst (os_Remove os (fst (os_Close os m2 f)) sp), Some werr)
               | (m2, None) \<Rightarrow>
                   (case os_Close os m2 f of
                      (m3, Some cerr) \<Rightarrow> (fst (os_Remove os m3 sp), Some cerr)
                    | (m3, None) \<Rightarrow> (m3, None)))))"

definition osRemove :: "'m Host \<Rightarrow> 'm \<Rightarrow> string \<Rightarrow> 'm \<times> fs_error option" where
  "osRemove os m p = os_Remove os m (sys os p)"

definition osChmod :: "'m Host \<Rightarrow> 'm \<Rightarrow> string \<Rightarrow> FileMode \<Rightarrow> 'm \<times> fs_error option" where
  "osChmod os m p mode = os_Chmod os m (sys os p) mode"

definition osRealpath :: "'m Host \<Rightarrow> 'm \<Rightarrow> string \<Rightarrow> fs_error + string" where
  "osRealpath os m p =
     (case os_EvalSymlinks os m (sys os p) of Inl e \<Rightarrow> Inl e | Inr r \<Rightarrow> Inr (toSlash (os_windows os) r))"

definition osRename :: "'m Host \<Rightarrow> 'm \<Rightarrow> string \<Rightarrow> string \<Rightarrow> 'm \<times> fs_error option" where
  "osRename os m a b = os_Rename os m (sys os a) (sys os b)"

definition osStat :: "'m Host \<Rightarrow> 'm \<Rightarrow> string \<Rightarrow> fs_error + FileInfo" where
  "osStat os m p = os_Stat os m (sys os p)"

definition osReadDir :: "'m Host \<Rightarrow> 'm \<Rightarrow> string \<Rightarrow> fs_error + DirEntry list" where
  "osReadDir os m p =
     (case os_ReadDir os m (sys os p) of
        Inl e \<Rightarrow> Inl e
      | Inr es \<Rightarrow> Inr (map (\<lambda>e. \<lparr>de_Name = de_Name e, de_IsDir = de_IsDir e\<rparr>) es))"

definition OsFS :: "'m Host \<Rightarrow> 'm FS" where
  "OsFS os =
     \<lparr>api_ReadFile = osReadFile os, api_WriteFile = osWriteFile os, api_Exists = osExists os, api_Stat = osStat os,
      api_MkdirAll = osMkdirAll os, api_ReadDir = osReadDir os, api_Remove = osRemove os, api_Rename = osRename os,
      api_WriteFileExcl = Some (osWriteFileExcl os), api_Chmod = Some (osChmod os), api_Realpath = Some (osRealpath os)\<rparr>"

text \<open>An exclusive write that fails after it has made its file removes it: what a failed write leaves is
  what the machine is after the removal, and no other call follows.\<close>

lemma osWriteFileExcl_cleans:
  assumes "osWriteFileExcl os m p b = (m', Some e)"
  shows "os_OpenExcl os m (sys os p) 0x1B6 = (m', Inl e) \<or> (\<exists>n. m' = fst (os_Remove os n (sys os p)))"
  using assms by (auto simp: osWriteFileExcl_def Let_def split: prod.splits sum.splits option.splits)

lemma osWriteFileExcl_ok:
  assumes "osWriteFileExcl os m p b = (m', None)"
  obtains m1 f m2 where "os_OpenExcl os m (sys os p) 0x1B6 = (m1, Inr f)" and "os_Write os m1 f b = (m2, None)"
    and "os_Close os m2 f = (m', None)"
  using assms by (auto simp: osWriteFileExcl_def Let_def split: prod.splits sum.splits option.splits)

end
