(* ===== verification/Check.thy ===== *)
theory Check
  imports Generate OsFS "HOL-Library.List_Lexorder" "HOL-Library.Char_ord"
begin

text \<open>
  The drift check (\<^verbatim>\<open>go/check.go\<close>): \<^verbatim>\<open>shadowFS\<close>, a provider that is a fresh in-memory volume below
  the checked folder and the committed tree, read only, elsewhere; the walk over what a run
  produced; and \<^verbatim>\<open>Check\<close>, which generates into the shadow and compares.

  A shadow's state is the outside, its volume and the modes the run asked for; the operations of
  the base are those of the provider that holds the committed tree.
\<close>

datatype DriftKind = DriftMissing | DriftContent | DriftMode

record Drift =
  df_Path :: string
  df_Kind :: DriftKind
  df_Generated :: bytes
  df_Existing :: "bytes option"
  df_Mode :: FileMode
  df_ExistingMode :: FileMode

record CheckResult =
  ck_Folder :: string
  ck_Checked :: "string list"
  ck_Drift :: "Drift list"
  ck_Files :: Files

definition checkMetaFolder :: string where "checkMetaFolder = ''.jostraca''"

section \<open>The shadow\<close>

record Shadow =
  sh_mem :: MemVol
  sh_modes :: "(string \<times> FileMode) list"

definition newShadow :: Shadow where "newShadow = \<lparr>sh_mem = no_vol, sh_modes = []\<rparr>"

definition shadowKey :: "('x, 'o) Env \<Rightarrow> string \<Rightarrow> string" where
  "shadowKey env p =
     memClean (e_wd env)
       (if \<not> has_prefix (toSlash (e_windows env) p) ''/'' \<and> \<not> e_IsAbs env p then
          (case e_Abs env (fromSlash (e_windows env) p) of None \<Rightarrow> p | Some a \<Rightarrow> a)
        else p)"

definition under_root :: "string \<Rightarrow> string \<Rightarrow> bool" where
  "under_root rt rp = (rp = rt \<or> has_prefix rp (rt @ ''/''))"

text \<open>A read: memory below the root, with the resolved path; the base elsewhere, with the path as given.\<close>

fun shadow_read ::
  "('x, 'o) Env \<Rightarrow> string \<Rightarrow> (MemFS \<Rightarrow> string \<Rightarrow> 'a) \<Rightarrow> ('o \<Rightarrow> string \<Rightarrow> 'a) \<Rightarrow> 'o \<times> Shadow \<Rightarrow> string \<Rightarrow> 'a" where
  "shadow_read env rt mem base (v, sh) p =
     (let rp = shadowKey env p
      in if under_root rt rp then mem (mv_fs (sh_mem sh)) rp else base v p)"

text \<open>A write: memory, whatever the path.\<close>

fun shadow_write :: "(MemFS \<Rightarrow> MemFS \<times> fs_error option) \<Rightarrow> 'o \<times> Shadow \<Rightarrow> ('o \<times> Shadow) \<times> fs_error option" where
  "shadow_write f (v, sh) = (let (m, r) = mem_call f (sh_mem sh) in ((v, sh\<lparr>sh_mem := m\<rparr>), r))"

definition move_mode :: "string \<Rightarrow> string \<Rightarrow> (string \<times> FileMode) list \<Rightarrow> (string \<times> FileMode) list" where
  "move_mode src to modes =
     (case map_of modes src of None \<Rightarrow> modes | Some m \<Rightarrow> AList.delete src (AList.update to m modes))"

text \<open>\<^verbatim>\<open>WriteFile\<close>, \<^verbatim>\<open>MkdirAll\<close>, \<^verbatim>\<open>Remove\<close>, \<^verbatim>\<open>Rename\<close> and \<^verbatim>\<open>Chmod\<close>; a mode is recorded, not applied.\<close>

fun shadowWriteFile :: "('x, 'o) Env \<Rightarrow> 'o \<times> Shadow \<Rightarrow> string \<Rightarrow> bytes \<Rightarrow> ('o \<times> Shadow) \<times> fs_error option" where
  "shadowWriteFile env (v, sh) p b =
     shadow_write (\<lambda>m. memWriteFile (e_wd env) (e_wall env (mv_tick (sh_mem sh))) m (shadowKey env p) b) (v, sh)"

fun shadowMkdirAll :: "('x, 'o) Env \<Rightarrow> 'o \<times> Shadow \<Rightarrow> string \<Rightarrow> ('o \<times> Shadow) \<times> fs_error option" where
  "shadowMkdirAll env (v, sh) p = shadow_write (\<lambda>m. memMkdirAll (e_wd env) m (shadowKey env p)) (v, sh)"

fun shadowRemove :: "('x, 'o) Env \<Rightarrow> 'o \<times> Shadow \<Rightarrow> string \<Rightarrow> ('o \<times> Shadow) \<times> fs_error option" where
  "shadowRemove env (v, sh) p = shadow_write (\<lambda>m. memRemove (e_wd env) m (shadowKey env p)) (v, sh)"

fun shadowRename :: "('x, 'o) Env \<Rightarrow> 'o \<times> Shadow \<Rightarrow> string \<Rightarrow> string \<Rightarrow> ('o \<times> Shadow) \<times> fs_error option" where
  "shadowRename env (v, sh) p q =
     (let src = shadowKey env p; dst = shadowKey env q
      in shadow_write (\<lambda>m. memRename (e_wd env) m src dst)
           (v, sh\<lparr>sh_modes := move_mode src dst (sh_modes sh)\<rparr>))"

fun shadowChmod :: "('x, 'o) Env \<Rightarrow> 'o \<times> Shadow \<Rightarrow> string \<Rightarrow> FileMode \<Rightarrow> ('o \<times> Shadow) \<times> fs_error option" where
  "shadowChmod env (v, sh) p m =
     ((v, sh\<lparr>sh_modes := AList.update (shadowKey env p) (m AND ModePerm) (sh_modes sh)\<rparr>), None)"

definition shadow_api :: "('x, 'o) Env \<Rightarrow> 'o FS \<Rightarrow> string \<Rightarrow> ('o \<times> Shadow) FS" where
  "shadow_api env base rt =
     \<lparr>api_ReadFile = shadow_read env rt (memReadFile (e_wd env)) (api_ReadFile base),
      api_WriteFile = shadowWriteFile env,
      api_Exists = shadow_read env rt (memExists (e_wd env)) (api_Exists base),
      api_Stat = shadow_read env rt (memStat (e_wd env)) (api_Stat base),
      api_MkdirAll = shadowMkdirAll env,
      api_ReadDir = shadow_read env rt (memReadDir (e_wd env)) (api_ReadDir base),
      api_Remove = shadowRemove env,
      api_Rename = shadowRename env,
      api_WriteFileExcl = None,
      api_Chmod = Some (shadowChmod env),
      api_Realpath = None\<rparr>"

section \<open>What a run produced\<close>

text \<open>\<^verbatim>\<open>generated\<close>: the walk below the root, with the paths relative to it. \<open>fuel\<close> bounds the depth;
  None is a walk that ran out of it.\<close>

fun gen_walk :: "string option \<Rightarrow> MemFS \<Rightarrow> nat \<Rightarrow> string \<Rightarrow> string \<Rightarrow> (string \<times> bytes) list \<Rightarrow> (string \<times> bytes) list option" where
  "gen_walk wd m 0 dir rel out = None"
| "gen_walk wd m (Suc fuel) dir rel out =
     (case memReadDir wd m dir of
        Inl e \<Rightarrow> Some out
      | Inr es \<Rightarrow>
          foldl (\<lambda>acc e. case acc of
              None \<Rightarrow> None
            | Some out \<Rightarrow>
                let key = (if rel \<noteq> [] then rel @ ''/'' @ de_Name e else de_Name e);
                    full = dir @ ''/'' @ de_Name e
                in if key = checkMetaFolder \<or> has_prefix key (checkMetaFolder @ ''/'') then Some out
                   else if de_IsDir e then gen_walk wd m fuel full key out
                   else (case memReadFile wd m full of
                           Inl err \<Rightarrow> Some out
                         | Inr b \<Rightarrow> Some (AList.update key b out)))
            (Some out) es)"

definition walk_fuel :: "MemFS \<Rightarrow> nat" where
  "walk_fuel m = Suc (Suc (foldr (\<lambda>k n. max (length k) n) (mem_dirs m) 0))"

definition generated :: "string option \<Rightarrow> string \<Rightarrow> MemFS \<Rightarrow> (string \<times> bytes) list option" where
  "generated wd rt m = gen_walk wd m (walk_fuel m) rt [] []"

section \<open>The check\<close>

text \<open>The environment of the run: its only provider is the shadow.\<close>

definition shadow_env :: "('x, 'o) Env \<Rightarrow> 'o FS \<Rightarrow> string \<Rightarrow> ('x, 'o \<times> Shadow) Env" where
  "shadow_env env base rt =
     \<lparr>e_fs = (\<lambda>_. shadow_api env base rt), e_now = e_now env, e_model = e_model env, e_regex = e_regex env,
      e_wd = e_wd env, e_wall = e_wall env, e_windows = e_windows env, e_pid = e_pid env, e_rand = e_rand env,
      e_sha256 = e_sha256 env, e_unmarshal = e_unmarshal env, e_IsAbs = e_IsAbs env, e_Abs = e_Abs env,
      e_compile = e_compile env, e_shape = e_shape env, e_template = e_template env\<rparr>"

definition shadow_world :: "'o World \<Rightarrow> ('o \<times> Shadow) World" where
  "shadow_world w = \<lparr>w_out = (w_out w, newShadow), w_mem = w_mem w, w_caches = w_caches w, w_seq = w_seq w, w_clock = w_clock w\<rparr>"

definition unshadow :: "('o \<times> Shadow) World \<Rightarrow> 'o World" where
  "unshadow w = \<lparr>w_out = fst (w_out w), w_mem = w_mem w, w_caches = w_caches w, w_seq = w_seq w, w_clock = w_clock w\<rparr>"

definition check_folder :: "'x Options \<Rightarrow> 'x Options \<Rightarrow> string" where
  "check_folder global opts =
     (let f = (if op_Folder opts = [] then op_Folder global else op_Folder opts) in if f = [] then DOT else f)"

definition check_base :: "('x, 'o) Env \<Rightarrow> 'x Options \<Rightarrow> 'x Options \<Rightarrow> 'o FS" where
  "check_base env global opts = e_fs env (over (op_FS global) (op_FS opts))"

definition check_force :: "'x Options \<Rightarrow> 'x Options" where
  "check_force opts = opts\<lparr>op_Control := (op_Control opts)\<lparr>ct_NoDuplicate := True, ct_Dryrun := False\<rparr>,
     op_Build := Some True\<rparr>"

text \<open>The run into the shadow; \<open>ref\<close> is the reference under which the shadow stands in the options.\<close>

definition check_run ::
  "('x, 'o) Env \<Rightarrow> 'x Options \<Rightarrow> 'x Options \<Rightarrow> 'x \<Rightarrow> (Jcfg \<Rightarrow> body) option \<Rightarrow> 'o World
     \<Rightarrow> ('o \<times> Shadow) World \<times> Result \<times> error option" where
  "check_run env global opts ref rootf w =
     (let folder = check_folder global opts; base = check_base env global opts
      in generate (shadow_env env base (shadowKey env folder)) global
           (opts\<lparr>op_Folder := folder, op_FS := Some ref\<rparr>) rootf (Some check_force) (shadow_world w))"

text \<open>The verdict on one path; \<open>declared\<close> is the mode the run asked for.\<close>

definition drift_of :: "'o FS \<Rightarrow> 'o \<Rightarrow> string \<Rightarrow> FileMode option \<Rightarrow> string \<Rightarrow> bytes \<Rightarrow> Drift option" where
  "drift_of base v at' declared p gen =
     (case api_ReadFile base v at' of
        Inl e \<Rightarrow> Some \<lparr>df_Path = p, df_Kind = DriftMissing, df_Generated = gen, df_Existing = None, df_Mode = 0, df_ExistingMode = 0\<rparr>
      | Inr have' \<Rightarrow>
          if gen \<noteq> have' then
            Some \<lparr>df_Path = p, df_Kind = DriftContent, df_Generated = gen, df_Existing = Some have', df_Mode = 0, df_ExistingMode = 0\<rparr>
          else
            (case declared of
               None \<Rightarrow> None
             | Some mode \<Rightarrow>
                 (case api_Stat base v at' of
                    Inl e \<Rightarrow> None
                  | Inr fi \<Rightarrow>
                      if fi_Mode fi AND ModePerm \<noteq> mode AND ModePerm then
                        Some \<lparr>df_Path = p, df_Kind = DriftMode, df_Generated = gen, df_Existing = Some have',
                          df_Mode = mode AND ModePerm, df_ExistingMode = fi_Mode fi AND ModePerm\<rparr>
                      else None)))"

definition compare_all ::
  "('x, 'o) Env \<Rightarrow> 'o FS \<Rightarrow> string \<Rightarrow> 'o \<times> Shadow \<Rightarrow> (string \<times> bytes) list \<Rightarrow> Drift list" where
  "compare_all env base folder s files =
     List.map_filter (\<lambda>p.
       case map_of files p of
         None \<Rightarrow> None
       | Some gen \<Rightarrow>
           drift_of base (fst s) (path_join [folder, p])
             (map_of (sh_modes (snd s)) (memClean (e_wd env) (path_join [shadowKey env folder, p]))) p gen)
       (sort (map fst files))"

definition Check ::
  "('x, 'o) Env \<Rightarrow> 'x Options \<Rightarrow> 'x Options \<Rightarrow> 'x \<Rightarrow> (Jcfg \<Rightarrow> body) option \<Rightarrow> 'o World
     \<Rightarrow> 'o World \<times> (error + CheckResult)" where
  "Check env global opts ref rootf w =
     (let folder = check_folder global opts;
          (w1, res, err) = check_run env global opts ref rootf w
      in (unshadow w1,
          case err of
            Some e \<Rightarrow> Inl e
          | None \<Rightarrow>
              (case generated (e_wd env) (shadowKey env folder) (mv_fs (sh_mem (snd (w_out w1)))) of
                 None \<Rightarrow> Inl ErrPanic
               | Some files \<Rightarrow>
                   Inr \<lparr>ck_Folder = folder, ck_Checked = sort (map fst files),
                     ck_Drift = compare_all env (check_base env global opts) folder (w_out w1) files,
                     ck_Files = rs_Files res\<rparr>)))"

end
