(* ===== verification/GenWalk.thy ===== *)
theory GenWalk
  imports Check MemProps
begin

text \<open>
  The walk over what a run produced: on a volume that a run can leave, it always ends, and gives
  exactly the files below the root that are not jostraca's own. It rests on what the keys of a
  volume look like: a key below the file system's root is a slash and plain segments.
\<close>

section \<open>Keys below the root\<close>

definition good_key :: "string \<Rightarrow> bool" where
  "good_key k = (BSLASH \<notin> set k \<and> (\<exists>t. k = ''/'' @ t \<and> (t = [] \<or> (\<forall>w \<in> set (segments t). plain_seg w))))"

definition good_keys :: "MemFS \<Rightarrow> bool" where
  "good_keys m = (\<forall>k \<in> fst ` set (mem_files m) \<union> set (mem_dirs m). has_prefix k ''/'' \<longrightarrow> good_key k)"

lemma mem_step_all_plain: "\<forall>w \<in> set ws. plain_seg w \<Longrightarrow> foldl mem_step acc ws = acc @ ws"
  by (induction ws arbitrary: acc) (auto simp: mem_step_def plain_seg_def)

lemma good_key_clean:
  assumes "good_key k"
  shows "memClean wd k = k"
proof -
  obtain t where k: "BSLASH \<notin> set k" "k = ''/'' @ t" "t = [] \<or> (\<forall>w \<in> set (segments t). plain_seg w)"
    using assms by (auto simp: good_key_def)
  have "\<not> isDriveKey k" using k(2) by (cases k rule: isDriveKey.cases) (auto simp: isDriveLetter_def)
  then have c: "memClean wd k = ''/'' @ join_with ''/'' (foldl mem_step [] (segments k))"
    using fwd_id [OF k(1)] k(2) by (simp add: memClean_def memAbs_def memKey_def Let_def)
  show ?thesis
  proof (cases "t = []")
    case True
    moreover have "foldl mem_step [] (segments ''/'') = []" by (simp add: segments_def mem_step_def)
    ultimately show ?thesis using c k(2) by simp
  next
    case False
    then have "foldl mem_step [] (segments k) = segments t"
      using k(3) mem_step_all_plain [of "segments t" "[]"] by (simp add: k(2) mem_step_def)
    then show ?thesis unfolding c by (simp add: k(2))
  qed
qed

lemma set_join_with: "set (join_with sep ws) \<subseteq> set sep \<union> set (concat ws)"
  by (induction sep ws rule: join_with.induct) auto

lemma set_part: "w \<in> set ws \<Longrightarrow> set w \<subseteq> set (join_with sep ws)"
  by (induction sep ws rule: join_with.induct) auto

lemma mem_step_set: "set (concat (foldl mem_step acc ws)) \<subseteq> set (concat acc) \<union> set (concat ws)"
proof (induction ws arbitrary: acc)
  case (Cons w ws)
  have "set (concat (mem_step acc w)) \<subseteq> set (concat acc) \<union> set w"
    by (auto simp: mem_step_def dest: in_set_butlastD)
  then show ?case using Cons.IH [of "mem_step acc w"] unfolding foldl.simps concat.simps set_append by blast
qed simp

lemma memKey_set:
  assumes "c \<notin> set s" and "c \<noteq> SLASH"
  shows "c \<notin> set (memKey s)"
proof -
  let ?s = "if isDriveKey s then drop 2 s else s"
  have "set (concat (segments ?s)) \<subseteq> set ?s"
    using set_part [of _ "segments ?s" "''/''"] unfolding join_segments set_concat by blast
  then have "c \<notin> set (concat (foldl mem_step [] (segments ?s)))"
    using mem_step_set [of "[]" "segments ?s"] assms(1) by (auto dest: in_set_dropD split: if_splits)
  then have "c \<notin> set (join_with ''/'' (foldl mem_step [] (segments ?s)))"
    using set_join_with [of "''/''" "foldl mem_step [] (segments ?s)"] assms(2) by auto
  then show ?thesis using assms by (auto simp: memKey_def dest: in_set_takeD)
qed

lemma memClean_good: "has_prefix (memClean wd p) ''/'' \<Longrightarrow> good_key (memClean wd p)"
proof -
  assume pre: "has_prefix (memClean wd p) ''/''"
  obtain d segs where k: "memClean wd p = d @ ''/'' @ join_with ''/'' segs" "\<forall>s \<in> set segs. plain_seg s"
    "d = [] \<or> (\<exists>c. isDriveLetter c \<and> d = [c, CHR '':''])"
    by (rule memClean_form)
  have d: "d = []" using k(1,3) pre by (auto simp: isDriveLetter_def)
  have "segs = [] \<or> segments (join_with ''/'' segs) = segs"
    using segments_join [of segs] k(2) by (auto simp: plain_seg_def)
  moreover have "BSLASH \<notin> set (memAbs wd p)"
    using fwd_no_bslash [of p] fwd_no_bslash by (auto simp: memAbs_def Let_def memCwd_def split: option.split)
  then have "BSLASH \<notin> set (memClean wd p)" unfolding memClean_def by (intro memKey_set) simp_all
  ultimately show ?thesis using k(1,2) d by (auto simp: good_key_def)
qed

lemma good_key_prefix: "good_key k \<Longrightarrow> has_prefix k (q @ ''/'') \<Longrightarrow> has_prefix q ''/'' \<Longrightarrow> good_key q"
proof -
  assume g: "good_key k" and "has_prefix k (q @ ''/'')" "has_prefix q ''/''"
  then obtain t r where q: "q = SLASH # t" and k: "k = q @ SLASH # r" by (auto simp: has_prefix_iff)
  have "segments (t @ SLASH # r) = segments t @ segments r" by (rule segments_append)
  then show ?thesis using g q k by (auto simp: good_key_def)
qed

section \<open>Every operation keeps the form of the keys\<close>

text \<open>What marking adds are the prefixes of the marked path, each ending before a slash.\<close>

lemma mark_loop_prefix:
  "x \<in> set (mark_loop a (Some c) parts ds) \<Longrightarrow> c @ concat (map (\<lambda>w. ''/'' @ w) parts) = p \<Longrightarrow>
   x \<in> set ds \<or> x = p \<or> has_prefix p (x @ ''/'')"
proof (induction parts arbitrary: c ds)
  case Nil
  then show ?case by simp
next
  case (Cons w parts)
  let ?c = "c @ ''/'' @ w"
  have "?c @ concat (map (\<lambda>w. ''/'' @ w) parts) = p" using Cons.prems(2) by simp
  moreover from this have "?c = p \<or> has_prefix p (?c @ ''/'')"
    by (cases parts) (auto simp: has_prefix_iff)
  ultimately show ?case
    using Cons.IH [of ?c "List.insert ?c ds"] Cons.prems(1) by (auto simp: Let_def)
qed

lemma markDirs_prefix:
  assumes "x \<in> set (mem_dirs (markDirsLocked p m))" and "key_ok p"
  shows "x \<in> set (mem_dirs m) \<or> x = p \<or> has_prefix p (x @ ''/'')"
proof (cases "p = [] \<or> p = ''/'' \<or> trim_left SLASH p = []")
  case True
  then have "markDirsLocked p m = m" by (auto simp: markDirsLocked_def Let_def)
  then show ?thesis using assms(1) by simp
next
  case False
  define inner where "inner = trim_left SLASH p"
  have p: "p = (if has_prefix p ''/'' then ''/'' else []) @ inner"
  proof -
    obtain c s where c: "p = c # s" using False by (cases p) auto
    show ?thesis
      using c False assms(2) by (auto simp: inner_def trim_left_def key_ok_def split: if_splits; cases s; auto)
  qed
  obtain w ws where s: "segments inner = w # ws" by (meson segments_not_Nil list.exhaust)
  define c where "c = (if has_prefix p ''/'' then ''/'' @ w else w)"
  have "inner = w @ concat (map (\<lambda>w. ''/'' @ w) ws)" using join_segments [of inner] s join_concat by simp
  then have pc: "c @ concat (map (\<lambda>w. ''/'' @ w) ws) = p" using p by (auto simp: c_def)
  have "x \<in> set (mark_loop (has_prefix p ''/'') (Some c) ws (List.insert c (mem_dirs m)))"
    using assms(1) False s by (simp add: markDirsLocked_def inner_def [symmetric] c_def Let_def)
  from mark_loop_prefix [OF this pc] have "x \<in> set (List.insert c (mem_dirs m)) \<or> x = p \<or> has_prefix p (x @ ''/'')" .
  moreover have "c = p \<or> has_prefix p (c @ ''/'')" using pc by (cases ws) (auto simp: has_prefix_iff)
  ultimately show ?thesis by auto
qed

lemma markParents_prefix:
  assumes "x \<in> set (mem_dirs (markParents k m))" and "key_ok k"
  shows "x \<in> set (mem_dirs m) \<or> has_prefix k (x @ ''/'')"
proof (cases "cut_last SLASH k")
  case None
  then show ?thesis using assms(1) by (simp add: markParents_def)
next
  case (Some lr)
  then obtain l r where lr: "cut_last SLASH k = Some (l, r)" by (cases lr) auto
  then have k: "k = l @ SLASH # r" using cut_last_Some [OF lr] by simp
  show ?thesis
  proof (cases "l = []")
    case False
    have okl: "key_ok l" by (rule key_ok_append [of l "SLASH # r"]) (use assms(2) k in simp)
    have "x \<in> set (mem_dirs (markDirsLocked l m))" using assms(1) lr False by (simp add: markParents_def)
    from markDirs_prefix [OF this okl] have "x \<in> set (mem_dirs m) \<or> x = l \<or> has_prefix l (x @ ''/'')" .
    moreover have "has_prefix k (l @ ''/'')" using has_prefix_append [of "l @ ''/''" r] by (simp add: k)
    moreover have "has_prefix k (x @ ''/'')" if "has_prefix l (x @ ''/'')" using has_prefix_appendI [OF that] by (simp add: k)
    ultimately show ?thesis by (elim disjE) simp_all
  qed (use assms(1) lr in \<open>simp add: markParents_def\<close>)
qed

text \<open>A path given to an operation, or a prefix of it.\<close>

definition on_path :: "string option \<Rightarrow> string \<Rightarrow> string \<Rightarrow> bool" where
  "on_path wd p k = (k = memClean wd p \<or> has_prefix (memClean wd p) (k @ ''/''))"

lemma on_path_good: "on_path wd p k \<Longrightarrow> has_prefix k ''/'' \<Longrightarrow> good_key k"
proof -
  assume k: "on_path wd p k" "has_prefix k ''/''"
  show ?thesis
  proof (cases "k = memClean wd p")
    case True
    then show ?thesis using k(2) memClean_good by simp
  next
    case False
    then have p: "has_prefix (memClean wd p) (k @ ''/'')" using k(1) by (simp add: on_path_def)
    have "has_prefix (memClean wd p) ''/''" by (rule has_prefix_trans [OF p has_prefix_appendI [OF k(2)]])
    from good_key_prefix [OF memClean_good [OF this] p k(2)] show ?thesis .
  qed
qed

definition all_keys :: "MemFS \<Rightarrow> string set" where
  "all_keys m = fst ` set (mem_files m) \<union> set (mem_dirs m)"

text \<open>What an operation may add are the paths it is given and the prefixes of them.\<close>

lemma good_keys_step:
  assumes "good_keys m" and "all_keys m' \<subseteq> all_keys m \<union> {k. \<exists>p. on_path wd p k}"
  shows "good_keys m'"
proof -
  have "good_key k" if k: "k \<in> all_keys m'" "has_prefix k ''/''" for k
  proof (cases "k \<in> all_keys m")
    case True
    then show ?thesis using assms(1) k(2) by (auto simp: good_keys_def all_keys_def)
  next
    case False
    then obtain p where "on_path wd p k" using assms(2) k(1) by blast
    from on_path_good [OF this k(2)] show ?thesis .
  qed
  then show ?thesis unfolding good_keys_def all_keys_def by blast
qed

lemma update_keys: "fst ` set (AList.update k v al) = insert k (fst ` set al)"
  by (simp add: dom_map_of_conv_image_fst [symmetric] update_conv')

lemma markParents_keys:
  "all_keys (markParents (memClean wd p) m) \<subseteq> all_keys m \<union> {k. \<exists>p. on_path wd p k}"
proof -
  have "set (mem_dirs (markParents (memClean wd p) m)) \<subseteq> set (mem_dirs m) \<union> {k. on_path wd p k}"
    using markParents_prefix [OF _ memClean_ok] by (auto simp: on_path_def)
  then show ?thesis unfolding all_keys_def markParents_same by blast
qed

lemma writeLocked_keys:
  "all_keys (writeLocked now (memClean wd p) b m) \<subseteq> all_keys m \<union> {k. \<exists>p. on_path wd p k}"
proof -
  let ?m = "m\<lparr>mem_files := AList.update (memClean wd p) b (mem_files m),
    mem_times := AList.update (memClean wd p) now (mem_times m)\<rparr>"
  have "on_path wd p (memClean wd p)" by (simp add: on_path_def)
  then have "all_keys ?m \<subseteq> all_keys m \<union> {k. \<exists>p. on_path wd p k}" unfolding all_keys_def by (auto simp: update_keys)
  then show ?thesis using markParents_keys [of wd p ?m] unfolding writeLocked_def by blast
qed

lemma good_ops:
  assumes "good_keys m"
  shows "good_keys (fst (memWriteFile wd now m p b))" "good_keys (fst (memWriteFileExcl wd now m p b))"
    "good_keys (fst (memMkdirAll wd m p))" "good_keys (fst (memRemove wd m p))" "good_keys (fst (memRename wd m p q))"
proof -
  note step = good_keys_step [OF assms, where wd = wd]
  show "good_keys (fst (memWriteFile wd now m p b))" "good_keys (fst (memWriteFileExcl wd now m p b))"
    using assms step [OF writeLocked_keys] by (simp_all add: memWriteFile_def memWriteFileExcl_def Let_def)
  have "set (mem_dirs (markDirsLocked (memClean wd p) m)) \<subseteq> set (mem_dirs m) \<union> {k. on_path wd p k}"
    using markDirs_prefix [OF _ memClean_ok] by (auto simp: on_path_def)
  moreover have "mem_files (markDirsLocked (memClean wd p) m) = mem_files m" by (simp add: markDirsLocked_def Let_def)
  ultimately have "all_keys (markDirsLocked (memClean wd p) m) \<subseteq> all_keys m \<union> {k. \<exists>p. on_path wd p k}"
    unfolding all_keys_def by auto
  from step [OF this] show "good_keys (fst (memMkdirAll wd m p))" using assms by (simp add: memMkdirAll_def Let_def)
  show "good_keys (fst (memRemove wd m p))"
    using assms by (auto simp: memRemove_def Let_def good_keys_def delete_keys)
  show "good_keys (fst (memRename wd m p q))"
  proof (cases "map_of (mem_files m) (memClean wd p)")
    case (Some b)
    define n where "n = memClean wd q"
    obtain ts where m': "fst (memRename wd m p q) = markParents n
        (m\<lparr>mem_files := AList.update n b (AList.delete (memClean wd p) (mem_files m)), mem_times := ts\<rparr>)"
      using Some by (simp add: memRename_def Let_def n_def)
    let ?m = "m\<lparr>mem_files := AList.update n b (AList.delete (memClean wd p) (mem_files m)), mem_times := ts\<rparr>"
    have "on_path wd q n" by (simp add: on_path_def n_def)
    then have "all_keys ?m \<subseteq> all_keys m \<union> {k. \<exists>p. on_path wd p k}"
      unfolding all_keys_def by (auto simp: update_keys delete_keys)
    then have "all_keys (markParents n ?m) \<subseteq> all_keys m \<union> {k. \<exists>p. on_path wd p k}"
      using markParents_keys [of wd q ?m] unfolding n_def by blast
    from step [OF this] show ?thesis unfolding m' .
  qed (use assms in \<open>simp add: memRename_def Let_def\<close>)
qed

section \<open>The walk\<close>

text \<open>A volume and a root that the walk understands.\<close>

definition walkable :: "MemFS \<Rightarrow> string \<Rightarrow> bool" where
  "walkable m rt = (mem_wf m \<and> files_apart m \<and> good_keys m \<and> good_key rt \<and> rt \<noteq> ''/'')"

definition own_key :: "string \<Rightarrow> bool" where
  "own_key k = (k = checkMetaFolder \<or> has_prefix k (checkMetaFolder @ ''/''))"

definition tail_of :: "string \<Rightarrow> string" where
  "tail_of rel = (if rel = [] then [] else ''/'' @ rel)"

definition rel_key :: "string \<Rightarrow> string \<Rightarrow> string" where
  "rel_key rel n = (if rel \<noteq> [] then rel @ ''/'' @ n else n)"

text \<open>The files that an entry, and a whole directory, stand for.\<close>

definition in_below :: "string \<Rightarrow> string \<Rightarrow> bool" where
  "in_below key k = (k = key \<or> has_prefix k (key @ ''/''))"

definition take_files :: "MemFS \<Rightarrow> string \<Rightarrow> (string \<Rightarrow> bool) \<Rightarrow> (string \<times> bytes) list \<Rightarrow> (string \<times> bytes) list \<Rightarrow> bool" where
  "take_files m rt P out out' =
     ((distinct (map fst out) \<longrightarrow> distinct (map fst out')) \<and>
      (\<forall>k. map_of out' k =
        (if P k \<and> \<not> own_key k \<and> map_of (mem_files m) (rt @ ''/'' @ k) \<noteq> None then map_of (mem_files m) (rt @ ''/'' @ k)
         else map_of out k)))"

lemma take_files_refl: "(\<And>k. P k \<Longrightarrow> \<not> own_key k \<Longrightarrow> map_of (mem_files m) (rt @ ''/'' @ k) = None) \<Longrightarrow> take_files m rt P out out"
  by (auto simp: take_files_def)

lemma take_files_cong:
  assumes "take_files m rt P out out'"
    and "\<And>k. \<not> own_key k \<Longrightarrow> map_of (mem_files m) (rt @ ''/'' @ k) \<noteq> None \<Longrightarrow> P k = Q k"
  shows "take_files m rt Q out out'"
  using assms unfolding take_files_def by metis

lemma take_files_trans:
  assumes "take_files m rt P a b" and "take_files m rt Q b c"
  shows "take_files m rt (\<lambda>k. P k \<or> Q k) a c"
  using assms unfolding take_files_def by simp

lemma tail_rel_key: "rt @ tail_of rel @ ''/'' @ n = rt @ ''/'' @ rel_key rel n"
  by (simp add: tail_of_def rel_key_def)

lemma tail_rel_key': "n \<noteq> [] \<Longrightarrow> rt @ tail_of (rel_key rel n) = rt @ tail_of rel @ ''/'' @ n"
  by (simp add: tail_of_def rel_key_def)

lemma own_in_below: "own_key key \<Longrightarrow> in_below key k \<Longrightarrow> own_key k"
  unfolding own_key_def in_below_def by (elim disjE) (simp_all add: has_prefix_trans [OF _ has_prefix_appendI])

definition max_len :: "string list \<Rightarrow> nat" where "max_len ds = foldr (\<lambda>k n. max (length k) n) ds 0"

lemma max_len_le: "d \<in> set ds \<Longrightarrow> length d \<le> max_len ds"
  by (induction ds) (auto simp: max_len_def)

text \<open>What an entry of a directory is.\<close>

lemma entry_facts:
  assumes w: "walkable m rt" and g: "good_key dir" "dir \<noteq> ''/''"
    and es: "memReadDir wd m dir = Inr es" and e: "e \<in> set es"
  shows "good_key (dir @ ''/'' @ de_Name e)" and "de_Name e \<noteq> []"
    and "de_IsDir e \<longleftrightarrow> map_of (mem_files m) (dir @ ''/'' @ de_Name e) = None"
proof -
  have cl: "memClean wd dir = dir" by (rule good_key_clean [OF g(1)])
  have "mem_wf m" "files_apart m" using w by (simp_all add: walkable_def)
  from memReadDir_children(1) [OF this es] have "e \<in> children m (dir @ ''/'')"
    using e g(2) by (simp add: cl dir_prefix_def)
  then obtain n where n: "e = \<lparr>de_Name = n, de_IsDir = ((dir @ ''/'') @ n \<notin> fst ` set (mem_files m))\<rparr>"
    and ex: "\<exists>k \<in> fst ` set (mem_files m) \<union> set (mem_dirs m). child (dir @ ''/'') k n"
    unfolding children_def mem_Collect_eq by metis
  obtain k where k: "k \<in> fst ` set (mem_files m) \<union> set (mem_dirs m)" "child (dir @ ''/'') k (de_Name e)"
    using ex n by auto
  have d: "de_IsDir e = ((dir @ ''/'') @ de_Name e \<notin> fst ` set (mem_files m))" by (simp add: n)
  obtain t where t: "dir = ''/'' @ t" using g(1) unfolding good_key_def by blast
  have form: "k = dir @ ''/'' @ de_Name e \<or> has_prefix k ((dir @ ''/'' @ de_Name e) @ ''/'')"
    using k(2) unfolding child_def by auto
  have sl: "has_prefix k ''/''" using form t by (auto simp: has_prefix_iff)
  have gk: "good_key k" using w k(1) sl unfolding walkable_def good_keys_def by blast
  show good: "good_key (dir @ ''/'' @ de_Name e)"
    using form
  proof
    assume "has_prefix k ((dir @ ''/'' @ de_Name e) @ ''/'')"
    from good_key_prefix [OF gk this] show ?thesis using t by (simp add: has_prefix_iff)
  qed (use gk in simp)
  show "de_Name e \<noteq> []"
  proof
    assume "de_Name e = []"
    then have "good_key (''/'' @ t @ SLASH # [])" using good t by simp
    then show False by (simp add: good_key_def segments_append) (simp add: plain_seg_def segments_def)
  qed
  show "de_IsDir e \<longleftrightarrow> map_of (mem_files m) (dir @ ''/'' @ de_Name e) = None"
    using d by (simp add: map_of_eq_None_iff)
qed

lemma first_name_append:
  "s \<noteq> [] \<Longrightarrow> first_name p (p @ s) = Some (takeWhile (\<lambda>c. c \<noteq> SLASH) s, SLASH \<in> set s)"
  by (simp add: first_name_def)

lemma below_dir:
  assumes w: "walkable m rt" and "map_of (mem_files m) k \<noteq> None" and "has_prefix k (q @ ''/'')" and "q \<noteq> []"
  shows "q \<in> set (mem_dirs m)"
proof -
  have "closed_keys (fst ` set (mem_files m) \<union> set (mem_dirs m)) (mem_dirs m)" using w by (simp add: walkable_def mem_wf_def)
  moreover have "k \<in> fst ` set (mem_files m) \<union> set (mem_dirs m)" using assms(2) by (simp add: map_of_eq_None_iff)
  ultimately show ?thesis using below_marked assms(3,4) by blast
qed

text \<open>A file of a directory lies at one of its entries.\<close>

lemma entry_covers:
  assumes w: "walkable m rt" and g: "good_key (rt @ tail_of rel)"
    and es: "memReadDir wd m (rt @ tail_of rel) = Inr es"
    and f: "map_of (mem_files m) (rt @ ''/'' @ k) \<noteq> None"
  shows "(\<exists>e \<in> set es. in_below (rel_key rel (de_Name e)) k) \<longleftrightarrow> rel = [] \<or> has_prefix k (rel @ ''/'')"
proof
  assume "\<exists>e \<in> set es. in_below (rel_key rel (de_Name e)) k"
  then show "rel = [] \<or> has_prefix k (rel @ ''/'')"
    by (auto simp: in_below_def rel_key_def has_prefix_iff split: if_splits)
next
  assume b: "rel = [] \<or> has_prefix k (rel @ ''/'')"
  let ?dir = "rt @ tail_of rel" and ?k = "rt @ ''/'' @ k"
  obtain s where s: "k = rel_key rel s" "?k = ?dir @ ''/'' @ s"
  proof (cases "rel = []")
    case True
    then show ?thesis using that [of k] by (simp add: rel_key_def tail_of_def)
  next
    case False
    then obtain s where "k = rel @ ''/'' @ s" using b by (auto simp: has_prefix_iff)
    then show ?thesis using that [of s] False by (simp add: rel_key_def tail_of_def)
  qed
  have ne: "?dir \<noteq> ''/''" using w by (auto simp: walkable_def tail_of_def good_key_def)
  have key: "?k \<in> fst ` set (mem_files m) \<union> set (mem_dirs m)" using f by (simp add: map_of_eq_None_iff)
  obtain t where "rt = ''/'' @ t" using w unfolding walkable_def good_key_def by blast
  then have "has_prefix ?k ''/''" by (simp add: has_prefix_iff)
  then have "good_key ?k" using w key unfolding walkable_def good_keys_def by blast
  have "s \<noteq> []"
  proof
    assume "s = []"
    obtain t where "?dir = ''/'' @ t" using g unfolding good_key_def by blast
    then have "?k = ''/'' @ t @ SLASH # []" using s(2) \<open>s = []\<close> by simp
    then have "good_key (''/'' @ t @ SLASH # [])" using \<open>good_key ?k\<close> by simp
    then show False by (simp add: good_key_def segments_append) (simp add: plain_seg_def segments_def)
  qed
  then obtain n d where n: "first_name (?dir @ ''/'') ?k = Some (n, d)"
    using first_name_append [of s "?dir @ ''/''"] s(2) by auto
  then have c: "child (?dir @ ''/'') ?k n" using first_name_child by blast
  have wf: "mem_wf m" "files_apart m" using w by (simp_all add: walkable_def)
  have "\<lparr>de_Name = n, de_IsDir = ((?dir @ ''/'') @ n \<notin> fst ` set (mem_files m))\<rparr> \<in> children m (?dir @ ''/'')"
    using c key unfolding children_def by blast
  then have "\<exists>e \<in> set es. de_Name e = n"
    using memReadDir_children(1) [OF wf es] ne unfolding good_key_clean [OF g] dir_prefix_def by force
  moreover have "in_below (rel_key rel n) k"
    using c s unfolding child_def in_below_def by (auto simp: rel_key_def has_prefix_iff split: if_splits)
  ultimately show "\<exists>e \<in> set es. in_below (rel_key rel (de_Name e)) k" by blast
qed

lemma foldl_option_None: "foldl (\<lambda>acc e. case acc of None \<Rightarrow> None | Some out \<Rightarrow> f out e) None es = None"
  by (induction es) auto

text \<open>The walk ends, and takes the files below its directory.\<close>

theorem gen_walk_takes:
  assumes "walkable m rt" and "good_key (rt @ tail_of rel)"
    and "0 < fuel" and "max_len (mem_dirs m) + 2 \<le> fuel + length (rt @ tail_of rel)"
  shows "\<exists>out'. gen_walk wd m fuel (rt @ tail_of rel) rel out = Some out' \<and>
    take_files m rt (\<lambda>k. rel = [] \<or> has_prefix k (rel @ ''/'')) out out'"
  using assms(2-4)
proof (induction fuel arbitrary: rel out)
  case 0
  then show ?case by simp
next
  case (Suc fuel)
  let ?dir = "rt @ tail_of rel"
  have ne: "?dir \<noteq> ''/''" "?dir \<noteq> []" using assms(1) by (auto simp: walkable_def tail_of_def good_key_def)
  show ?case
  proof (cases "memReadDir wd m ?dir")
    case (Inl er)
    then have nd: "?dir \<notin> set (mem_dirs m)"
      using ne by (auto simp: memReadDir_def Let_def good_key_clean [OF Suc.prems(1)] split: if_splits)
    have "map_of (mem_files m) (rt @ ''/'' @ k) = None" if "rel = [] \<or> has_prefix k (rel @ ''/'')" for k
    proof (rule ccontr)
      assume "map_of (mem_files m) (rt @ ''/'' @ k) \<noteq> None"
      moreover have "has_prefix (rt @ ''/'' @ k) (?dir @ ''/'')"
        using that by (cases "rel = []") (auto simp: tail_of_def has_prefix_iff)
      ultimately show False using below_dir [OF assms(1)] ne(2) nd by blast
    qed
    then show ?thesis using Inl by (auto intro!: take_files_refl)
  next
    case (Inr es)
    then have dd: "?dir \<in> set (mem_dirs m)"
      using ne by (auto simp: memReadDir_def Let_def good_key_clean [OF Suc.prems(1)] split: if_splits)
    have fuel: "0 < fuel" using max_len_le [OF dd] Suc.prems(3) by simp
    let ?key = "\<lambda>e. rel_key rel (de_Name e)"
    let ?step = "\<lambda>out e. if own_key (?key e) then Some out
      else if de_IsDir e then gen_walk wd m fuel (?dir @ ''/'' @ de_Name e) (?key e) out
      else (case memReadFile wd m (?dir @ ''/'' @ de_Name e) of Inl err \<Rightarrow> Some out | Inr b \<Rightarrow> Some (AList.update (?key e) b out))"
    have one: "\<exists>out'. ?step out e = Some out' \<and> take_files m rt (in_below (?key e)) out out'" if e: "e \<in> set es" for e out
    proof -
      note ef = entry_facts [OF assms(1) Suc.prems(1) ne(1) Inr e]
      have full: "?dir @ ''/'' @ de_Name e = rt @ ''/'' @ ?key e"
        using tail_rel_key [of rt rel "de_Name e"] by simp
      show ?thesis
      proof (cases "own_key (?key e)")
        case True
        then show ?thesis using own_in_below by (auto intro!: take_files_refl)
      next
        case own: False
        show ?thesis
        proof (cases "de_IsDir e")
          case True
          have t: "rt @ tail_of (?key e) = ?dir @ ''/'' @ de_Name e" using tail_rel_key' [OF ef(2)] by simp
          have "good_key (rt @ tail_of (?key e))" "max_len (mem_dirs m) + 2 \<le> fuel + length (rt @ tail_of (?key e))"
            unfolding t using ef(1) Suc.prems(3) by simp_all
          from Suc.IH [OF this(1) fuel this(2), of out] obtain out' where o: "gen_walk wd m fuel (?dir @ ''/'' @ de_Name e) (?key e) out = Some out'"
              "take_files m rt (\<lambda>k. ?key e = [] \<or> has_prefix k (?key e @ ''/'')) out out'" unfolding t by blast
          have "?key e \<noteq> []" using ef(2) by (simp add: rel_key_def)
          then have "take_files m rt (in_below (?key e)) out out'"
            by (intro take_files_cong [OF o(2)]) (use ef(3) True full in \<open>auto simp: in_below_def\<close>)
          then show ?thesis using own True o(1) by simp
        next
          case False
          then obtain b where b: "map_of (mem_files m) (rt @ ''/'' @ ?key e) = Some b" using ef(3) full by auto
          have r: "memReadFile wd m (?dir @ ''/'' @ de_Name e) = Inr b"
            unfolding full memReadFile_def good_key_clean [OF ef(1) [unfolded full]] b by simp
          have "map_of (mem_files m) (rt @ ''/'' @ k) = None" if "has_prefix k (?key e @ ''/'')" for k
          proof (rule ccontr)
            assume "map_of (mem_files m) (rt @ ''/'' @ k) \<noteq> None"
            moreover have "has_prefix (rt @ ''/'' @ k) ((rt @ ''/'' @ ?key e) @ ''/'')" using that by (auto simp: has_prefix_iff)
            ultimately have "rt @ ''/'' @ ?key e \<in> set (mem_dirs m)" using below_dir [OF assms(1)] by blast
            moreover have "rt @ ''/'' @ ?key e \<in> fst ` set (mem_files m)" using b by (metis map_of_eq_None_iff option.distinct(1))
            ultimately show False using assms(1) by (auto simp: walkable_def files_apart_def)
          qed
          then have "take_files m rt (in_below (?key e)) out (AList.update (?key e) b out)"
            using b own by (auto simp: take_files_def in_below_def update_conv' distinct_update)
          then show ?thesis using own False r by simp
        qed
      qed
    qed
    have all: "\<exists>out'. foldl (\<lambda>acc e. case acc of None \<Rightarrow> None | Some out \<Rightarrow> ?step out e) (Some out) fs = Some out' \<and>
        take_files m rt (\<lambda>k. \<exists>e \<in> set fs. in_below (?key e) k) out out'" if "set fs \<subseteq> set es" for fs out
      using that
    proof (induction fs arbitrary: out)
      case Nil
      then show ?case by (auto intro!: take_files_refl)
    next
      case (Cons e fs)
      obtain o1 where o1: "?step out e = Some o1" "take_files m rt (in_below (?key e)) out o1"
        using one [of e out] Cons.prems by auto
      obtain o2 where o2: "foldl (\<lambda>acc e. case acc of None \<Rightarrow> None | Some out \<Rightarrow> ?step out e) (Some o1) fs = Some o2"
          "take_files m rt (\<lambda>k. \<exists>e \<in> set fs. in_below (?key e) k) o1 o2"
        using Cons.IH [of o1] Cons.prems by auto
      have "foldl (\<lambda>acc e. case acc of None \<Rightarrow> None | Some out \<Rightarrow> ?step out e) (Some out) (e # fs) = Some o2"
        unfolding foldl.simps option.case(2) o1(1) by (rule o2(1))
      moreover have "take_files m rt (\<lambda>k. \<exists>e \<in> set (e # fs). in_below (?key e) k) out o2"
        using take_files_trans [OF o1(2) o2(2)] by simp
      ultimately show ?case by blast
    qed
    obtain oo where oo: "foldl (\<lambda>acc e. case acc of None \<Rightarrow> None | Some out \<Rightarrow> ?step out e) (Some out) es = Some oo"
        "take_files m rt (\<lambda>k. \<exists>e \<in> set es. in_below (?key e) k) out oo"
      using all [of es out] by auto
    have "gen_walk wd m (Suc fuel) ?dir rel out = Some oo"
      using oo(1) unfolding gen_walk.simps Inr sum.case Let_def own_key_def rel_key_def .
    moreover have "take_files m rt (\<lambda>k. rel = [] \<or> has_prefix k (rel @ ''/'')) out oo"
      by (rule take_files_cong [OF oo(2) entry_covers [OF assms(1) Suc.prems(1) Inr]])
    ultimately show ?thesis by blast
  qed
qed

end
