(* ===== verification/CheckProps.thy ===== *)
theory CheckProps
  imports GenWalk GenerateProps
begin

text \<open>
  The claims about the drift check: it changes nothing, it ends with the files that the run
  produced, and it finds no drift exactly when the committed tree has them.
\<close>

section \<open>The shadow as a provider\<close>

text \<open>A volume whose keys are well formed: the walk over it understands it.\<close>

definition shadow_ok :: "Shadow \<Rightarrow> bool" where
  "shadow_ok sh = (mem_wf (mv_fs (sh_mem sh)) \<and> good_keys (mv_fs (sh_mem sh)))"

lemma newShadow_ok: "shadow_ok newShadow"
  by (simp add: shadow_ok_def newShadow_def no_vol_def NewMemFS_wf good_keys_def) (simp add: NewMemFS_def)

definition shadow_step :: "'o \<times> Shadow \<Rightarrow> 'o \<times> Shadow \<Rightarrow> bool" where
  "shadow_step s s' = (fst s' = fst s \<and> (shadow_ok (snd s) \<longrightarrow> shadow_ok (snd s')))"

lemma shadow_write_step:
  assumes "\<And>m. mem_wf m \<Longrightarrow> mem_wf (fst (f m))" and "\<And>m. good_keys m \<Longrightarrow> good_keys (fst (f m))"
  shows "shadow_step (v, sh) (fst (shadow_write f (v, sh\<lparr>sh_modes := ms\<rparr>)))" "shadow_step (v, sh) (fst (shadow_write f (v, sh)))"
  using assms by (simp_all add: shadow_step_def mem_call_def shadow_ok_def case_prod_beta Let_def)

lemma shadow_steps:
  "shadow_step s (fst (shadowWriteFile env s p b))" "shadow_step s (fst (shadowMkdirAll env s p))"
  "shadow_step s (fst (shadowRemove env s p))" "shadow_step s (fst (shadowRename env s p q))"
  "shadow_step s (fst (shadowChmod env s p m))"
proof -
  obtain v sh where s: "s = (v, sh)" by (cases s)
  note ops = memWrite_wf memMkdirAll_wf memRemove_wf memRename_wf good_ops
  show "shadow_step s (fst (shadowWriteFile env s p b))" "shadow_step s (fst (shadowMkdirAll env s p))"
    "shadow_step s (fst (shadowRemove env s p))" "shadow_step s (fst (shadowRename env s p q))"
    unfolding s shadowWriteFile.simps shadowMkdirAll.simps shadowRemove.simps shadowRename.simps Let_def
    by (intro shadow_write_step ops; assumption)+
  show "shadow_step s (fst (shadowChmod env s p m))" by (simp add: s shadow_step_def shadow_ok_def)
qed

interpretation shadow: api_frame "shadow_api env base rt" shadow_step
proof
  show "order_rel shadow_step" by (auto simp: order_rel_def shadow_step_def)
qed (auto simp: shadow_api_def shadow_steps simp del: shadowChmod.simps)

lemma outside_lift:
  assumes "api_frame api R"
  shows "api_frame (fst_api api) (\<lambda>s s'. R (fst s) (fst s'))"
proof -
  have do: "R a (fst (fst (lift_do fst (\<lambda>v s. (v, snd s)) f s)))" if "fst s = a" and "\<And>v. R v (fst (f v))"
    for a and f :: "'a \<Rightarrow> 'a \<times> fs_error option" and s :: "'a \<times> 'b"
    using that(2) [of a] by (simp add: lift_do_def case_prod_beta that(1))
  have order: "order_rel (\<lambda>s s' :: 'a \<times> 'b. R (fst s) (fst s'))" using api_frame.order [OF assms] by (force simp: order_rel_def)
  show ?thesis
    by (unfold_locales, rule order)
      (auto simp: fst_api_def lift_api_def lift1_def lift2_def intro!: do intro: api_frame.excl [OF assms] api_frame.chmod [OF assms]
        api_frame.wfile [OF assms] api_frame.mkdir [OF assms] api_frame.remove [OF assms] api_frame.rename [OF assms])
qed

section \<open>A check changes nothing\<close>

lemma shadow_env_simps [simp]:
  "e_fs (shadow_env env base rt) x = shadow_api env base rt" "e_wd (shadow_env env base rt) = e_wd env"
  "e_wall (shadow_env env base rt) = e_wall env"
  by (simp_all add: shadow_env_def)

lemma check_provider: "op_FS call \<noteq> None \<Longrightarrow> provider (shadow_env env base rt) call merged mem = fst_api (shadow_api env base rt)"
  by (auto simp: provider_def in_memory_def)

lemma check_run_frame:
  assumes "check_run env global opts ref rootf w = (w1, res, e)"
  shows "shadow_step (w_out w, newShadow) (w_out w1)" and "w_mem w1 = w_mem w"
proof -
  let ?base = "check_base env global opts" and ?rt = "shadowKey env (check_folder global opts)"
  let ?call = "opts\<lparr>op_Folder := check_folder global opts, op_FS := Some ref\<rparr>"
  have start: "w_out (shadow_world w) = (w_out w, newShadow)" "w_mem (shadow_world w) = w_mem w"
    by (simp_all add: shadow_world_def)
  have call: "op_FS ?call \<noteq> None" by simp
  have "shadow_step (w_out w, newShadow) (w_out w1) \<and> w_mem w1 = w_mem w"
    using assms [unfolded check_run_def Let_def]
  proof (cases rule: generate_cases)
    case early
    then show ?thesis by (simp add: start shadow_step_def)
  next
    case (built f s tree b r mem api v bc)
    have api: "c_api (b_cfg bc) = fst_api (shadow_api env ?base ?rt)"
      using built(3,5) check_provider [OF call] by simp
    have "shadow_step (fst v) (fst (fh_vol (bs_fh b)))"
      using run_tree_frame [OF outside_lift [OF shadow.api_frame_axioms] api built(7)] by simp
    moreover have "snd (fh_vol (bs_fh b)) = snd v"
      using run_tree_frame [OF outside.api_frame_axioms api built(7)] by simp
    then have "w_mem w1 = w_mem (shadow_world w)"
      using built(2,4,9) by (auto simp: pick_mem_def shares_mem_def)
    ultimately show ?thesis using built(4,8) by (simp add: start)
  qed
  then show "shadow_step (w_out w, newShadow) (w_out w1)" and "w_mem w1 = w_mem w" by blast+
qed

text \<open>C32: a drift check changes no file system: whatever the callback defines, whatever the options ask for,
  and however it ends, the committed tree and everything outside the process are as they were, and so is
  the volume of the instance.\<close>

theorem check_changes_nothing:
  "w_out (fst (Check env global opts ref rootf w)) = w_out w \<and> w_mem (fst (Check env global opts ref rootf w)) = w_mem w"
proof -
  obtain w1 res e where run: "check_run env global opts ref rootf w = (w1, res, e)" by (meson prod_cases3)
  from check_run_frame [OF run] show ?thesis by (simp add: Check_def Let_def run unshadow_def shadow_step_def)
qed

section \<open>What a check reports\<close>

text \<open>A file that the run left at \<open>p\<close> below the folder.\<close>

definition produced :: "('x, 'o) Env \<Rightarrow> string \<Rightarrow> ('o \<times> Shadow) World \<Rightarrow> string \<Rightarrow> bytes \<Rightarrow> bool" where
  "produced env folder w1 p b =
     (\<not> own_key p \<and> map_of (mem_files (mv_fs (sh_mem (snd (w_out w1))))) (shadowKey env folder @ ''/'' @ p) = Some b)"

lemma own_key_empty [simp]: "\<not> own_key []"
  by (simp add: own_key_def checkMetaFolder_def)

lemma generated_files:
  assumes "walkable m rt"
  obtains files where "generated wd rt m = Some files" and "distinct (map fst files)"
    and "\<And>p. map_of files p = (if own_key p then None else map_of (mem_files m) (rt @ ''/'' @ p))"
proof -
  have "good_key (rt @ tail_of [])" using assms by (simp add: tail_of_def walkable_def)
  moreover have "max_len (mem_dirs m) + 2 \<le> walk_fuel m + length (rt @ tail_of [])"
    by (simp add: walk_fuel_def max_len_def)
  ultimately obtain files where g: "gen_walk wd m (walk_fuel m) (rt @ tail_of []) [] [] = Some files"
    and t: "take_files m rt (\<lambda>k. [] = [] \<or> has_prefix k ([] @ ''/'')) [] files"
    using gen_walk_takes [OF assms, where rel = "[]" and fuel = "walk_fuel m" and out = "[]" and wd = wd]
    by (auto simp: walk_fuel_def)
  show thesis
  proof (rule that)
    show "generated wd rt m = Some files" using g by (simp add: generated_def tail_of_def)
  qed (use t in \<open>auto simp: take_files_def\<close>)
qed

lemma walkable_after:
  assumes "check_run env global opts ref rootf w = (w1, res, e)"
    and "has_prefix (shadowKey env folder) ''/''" and "shadowKey env folder \<noteq> ''/''"
    and "files_apart (mv_fs (sh_mem (snd (w_out w1))))"
  shows "walkable (mv_fs (sh_mem (snd (w_out w1)))) (shadowKey env folder)"
proof -
  have "shadow_ok (snd (w_out w1))"
    using check_run_frame(1) [OF assms(1)] newShadow_ok by (simp add: shadow_step_def)
  moreover have "good_key (shadowKey env folder)"
    using assms(2) unfolding shadowKey_def by (rule memClean_good)
  ultimately show ?thesis using assms(3,4) by (simp add: walkable_def shadow_ok_def)
qed

text \<open>What a check that ran returns.\<close>

lemma check_result:
  assumes run: "check_run env global opts ref rootf w = (w1, res, None)"
    and folder: "has_prefix (shadowKey env (check_folder global opts)) ''/''" "shadowKey env (check_folder global opts) \<noteq> ''/''"
    and apart: "files_apart (mv_fs (sh_mem (snd (w_out w1))))"
  obtains files where "distinct (map fst files)"
    and "\<And>p b. map_of files p = Some b \<longleftrightarrow> produced env (check_folder global opts) w1 p b"
    and "Check env global opts ref rootf w = (unshadow w1,
      Inr \<lparr>ck_Folder = check_folder global opts, ck_Checked = sort (map fst files),
        ck_Drift = compare_all env (check_base env global opts) (check_folder global opts) (w_out w1) files,
        ck_Files = rs_Files res\<rparr>)"
proof -
  obtain files where "generated (e_wd env) (shadowKey env (check_folder global opts)) (mv_fs (sh_mem (snd (w_out w1)))) = Some files"
    "distinct (map fst files)"
    "\<And>p. map_of files p = (if own_key p then None else
       map_of (mem_files (mv_fs (sh_mem (snd (w_out w1))))) (shadowKey env (check_folder global opts) @ ''/'' @ p))"
    using generated_files [OF walkable_after [OF run folder apart]] by metis
  then show thesis by (intro that [of files]) (simp_all add: Check_def Let_def run produced_def)
qed

text \<open>C33: a check whose run succeeds always ends with a report (the walk over the produced files cannot
  run on), and its \<^verbatim>\<open>Checked\<close> is, in order and without repetition, exactly the files the run left
  below the folder, jostraca's own aside. (The folder is a rooted one, not the root itself, and no
  path of the volume is both a file and a directory.)\<close>

theorem check_lists_output:
  assumes "check_run env global opts ref rootf w = (w1, res, None)"
    and "has_prefix (shadowKey env (check_folder global opts)) ''/''" and "shadowKey env (check_folder global opts) \<noteq> ''/''"
    and "files_apart (mv_fs (sh_mem (snd (w_out w1))))"
  shows "\<exists>r. Check env global opts ref rootf w = (unshadow w1, Inr r) \<and> sorted (ck_Checked r) \<and> distinct (ck_Checked r) \<and>
    (\<forall>p. p \<in> set (ck_Checked r) \<longleftrightarrow> (\<exists>b. produced env (check_folder global opts) w1 p b))"
proof -
  obtain files where f: "distinct (map fst files)"
    "\<And>p b. map_of files p = Some b \<longleftrightarrow> produced env (check_folder global opts) w1 p b"
    and c: "Check env global opts ref rootf w = (unshadow w1,
      Inr \<lparr>ck_Folder = check_folder global opts, ck_Checked = sort (map fst files),
        ck_Drift = compare_all env (check_base env global opts) (check_folder global opts) (w_out w1) files,
        ck_Files = rs_Files res\<rparr>)"
    using check_result [OF assms] by metis
  have "p \<in> fst ` set files \<longleftrightarrow> (\<exists>b. produced env (check_folder global opts) w1 p b)" for p
    using f(2) [of p] by (metis domI domD dom_map_of_conv_image_fst)
  then show ?thesis using f(1) c by simp
qed

section \<open>Drift\<close>

text \<open>The committed file at \<open>at'\<close> is the generated one, and has the mode the run asked for.\<close>

definition agrees :: "'o FS \<Rightarrow> 'o \<Rightarrow> string \<Rightarrow> FileMode option \<Rightarrow> bytes \<Rightarrow> bool" where
  "agrees base v at' declared gen =
     (api_ReadFile base v at' = Inr gen \<and>
      (\<forall>mode fi. declared = Some mode \<longrightarrow> api_Stat base v at' = Inr fi \<longrightarrow> fi_Mode fi AND ModePerm = mode AND ModePerm))"

lemma drift_of_agrees: "drift_of base v at' declared p gen = None \<longleftrightarrow> agrees base v at' declared gen"
  by (auto simp: drift_of_def agrees_def split: sum.splits option.splits if_splits)

lemma drift_of_path: "drift_of base v at' declared p gen = Some d \<Longrightarrow> df_Path d = p"
  by (auto simp: drift_of_def split: sum.splits option.splits if_splits)

definition committed :: "('x, 'o) Env \<Rightarrow> 'x Options \<Rightarrow> 'x Options \<Rightarrow> 'o World \<Rightarrow> ('o \<times> Shadow) World \<Rightarrow> string \<Rightarrow> bytes \<Rightarrow> bool" where
  "committed env global opts w w1 p b =
     (let folder = check_folder global opts
      in agrees (check_base env global opts) (w_out w) (path_join [folder, p])
           (map_of (sh_modes (snd (w_out w1))) (memClean (e_wd env) (path_join [shadowKey env folder, p]))) b)"

lemma map_filter_paths:
  assumes "\<And>p d. f p = Some d \<Longrightarrow> g d = p"
  shows "map g (List.map_filter f ps) = filter (\<lambda>p. f p \<noteq> None) ps"
  using assms by (induction ps) (auto split: option.split)

text \<open>C34: the drift a check reports is exact: its entries are, in order and one for each, the produced files
  that the committed tree does not have with the same bytes and, where the run asked for a mode, the
  same permission bits; so it is empty exactly when the whole output is committed.\<close>

theorem check_drift_exact:
  assumes "check_run env global opts ref rootf w = (w1, res, None)"
    and "has_prefix (shadowKey env (check_folder global opts)) ''/''" and "shadowKey env (check_folder global opts) \<noteq> ''/''"
    and "files_apart (mv_fs (sh_mem (snd (w_out w1))))"
    and "Check env global opts ref rootf w = (w', Inr r)"
  shows "sorted (map df_Path (ck_Drift r)) \<and> distinct (map df_Path (ck_Drift r)) \<and>
    (\<forall>p. p \<in> df_Path ` set (ck_Drift r) \<longleftrightarrow>
       (\<exists>b. produced env (check_folder global opts) w1 p b \<and> \<not> committed env global opts w w1 p b)) \<and>
    (ck_Drift r = [] \<longleftrightarrow> (\<forall>p b. produced env (check_folder global opts) w1 p b \<longrightarrow> committed env global opts w w1 p b))"
proof -
  let ?prod = "produced env (check_folder global opts) w1" and ?com = "committed env global opts w w1"
  obtain files where f: "distinct (map fst files)" "\<And>p b. map_of files p = Some b \<longleftrightarrow> ?prod p b"
    and c: "ck_Drift r = compare_all env (check_base env global opts) (check_folder global opts) (w_out w1) files"
    using check_result [OF assms(1-4)] assms(5) by (metis CheckResult.select_convs(3) prod.inject sum.inject(2))
  have out: "fst (w_out w1) = w_out w" using check_run_frame(1) [OF assms(1)] by (simp add: shadow_step_def)
  define v where "v = (\<lambda>p. case map_of files p of None \<Rightarrow> None | Some gen \<Rightarrow>
       drift_of (check_base env global opts) (w_out w) (path_join [check_folder global opts, p])
         (map_of (sh_modes (snd (w_out w1))) (memClean (e_wd env) (path_join [shadowKey env (check_folder global opts), p]))) p gen)"
  have d: "ck_Drift r = List.map_filter v (sort (map fst files))" unfolding c compare_all_def out v_def by (rule refl)
  have "df_Path x = p" if "v p = Some x" for p x
    using that drift_of_path by (auto simp: v_def split: option.splits)
  then have paths: "map df_Path (ck_Drift r) = filter (\<lambda>p. v p \<noteq> None) (sort (map fst files))"
    unfolding d by (rule map_filter_paths)
  have in_files: "p \<in> fst ` set files \<longleftrightarrow> (\<exists>b. map_of files p = Some b)" for p
    by (metis domI domD dom_map_of_conv_image_fst)
  have v: "v p \<noteq> None \<longleftrightarrow> (\<exists>b. map_of files p = Some b \<and> \<not> ?com p b)" for p
    unfolding v_def committed_def Let_def drift_of_agrees [where p = p, symmetric] by (auto split: option.split)
  have "p \<in> df_Path ` set (ck_Drift r) \<longleftrightarrow> (\<exists>b. ?prod p b \<and> \<not> ?com p b)" for p
  proof -
    have "p \<in> df_Path ` set (ck_Drift r) \<longleftrightarrow> p \<in> set (map df_Path (ck_Drift r))" by simp
    also have "\<dots> \<longleftrightarrow> (\<exists>b. map_of files p = Some b) \<and> v p \<noteq> None" unfolding paths using in_files by simp
    finally show ?thesis using v f(2) by blast
  qed
  moreover from this have "ck_Drift r = [] \<longleftrightarrow> (\<forall>p b. ?prod p b \<longrightarrow> ?com p b)"
    by (metis image_is_empty set_empty2 ex_in_conv)
  moreover have "sorted (map df_Path (ck_Drift r))" "distinct (map df_Path (ck_Drift r))"
    unfolding paths using f(1) sorted_filter [of id "sort (map fst files)"] by simp_all
  ultimately show ?thesis by blast
qed

section \<open>A check to instantiate the claims with\<close>

definition check_merged :: "'x Options \<Rightarrow> 'x Options \<Rightarrow> 'x \<Rightarrow> 'x Options" where
  "check_merged global opts ref =
     check_force (mergeOptions global (opts\<lparr>op_Folder := check_folder global opts, op_FS := Some ref\<rparr>))"

definition check_api :: "('x, 'o) Env \<Rightarrow> 'x Options \<Rightarrow> 'x Options \<Rightarrow> (('o \<times> Shadow) \<times> MemVol) FS" where
  "check_api env global opts =
     fst_api (shadow_api env (check_base env global opts) (shadowKey env (check_folder global opts)))"

definition check_env :: "('x, 'o) Env \<Rightarrow> 'x Options \<Rightarrow> 'x Options \<Rightarrow> ('x, 'o \<times> Shadow) Env" where
  "check_env env global opts = shadow_env env (check_base env global opts) (shadowKey env (check_folder global opts))"

definition check_vol :: "('x, 'o) Env \<Rightarrow> 'x Options \<Rightarrow> 'x Options \<Rightarrow> 'x \<Rightarrow> 'o World \<Rightarrow> ('o \<times> Shadow) \<times> MemVol" where
  "check_vol env global opts ref w =
     ((w_out w, newShadow),
      case pick_mem (check_env env global opts) (opts\<lparr>op_Folder := check_folder global opts, op_FS := Some ref\<rparr>)
        (check_merged global opts ref) (shadow_world w) of None \<Rightarrow> no_vol | Some m \<Rightarrow> m)"

definition check_tree ::
  "('x, 'o) Env \<Rightarrow> 'x Options \<Rightarrow> 'x Options \<Rightarrow> 'x \<Rightarrow> (Jcfg \<Rightarrow> body) \<Rightarrow> 'o World \<Rightarrow> error + Node option" where
  "check_tree env global opts ref f w =
     snd (runDefine (w_caches w) (f (define_cfg (check_env env global opts) (check_merged global opts ref)
       (check_api env global opts) (check_vol env global opts ref w))))"

definition check_ends ::
  "((('o \<times> Shadow) \<times> MemVol) Fh \<Rightarrow> bool) \<Rightarrow> bytes \<Rightarrow> ('x, 'o) Env \<Rightarrow> 'x Options \<Rightarrow> 'x Options \<Rightarrow> 'x \<Rightarrow> Node \<Rightarrow> 'o World \<Rightarrow> bool" where
  "check_ends P X env global opts ref t w =
     ends_with P X (build_cfg (check_env env global opts) (check_merged global opts ref) (check_api env global opts) (w_clock w)) t
       (build_start (check_merged global opts ref) (check_vol env global opts ref w) (w_clock w) (w_seq w))"

lemma check_run_succeeds:
  assumes "validConflict (check_merged global opts ref)" and "\<not> ct_Version (op_Control (check_merged global opts ref))"
    and tree: "check_tree env global opts ref f w = Inr (Some t)"
    and ends: "\<And>X. check_ends P X env global opts ref t w"
  obtains w1 res h where "check_run env global opts ref (Some f) w = (w1, res, None)" and "P h"
    and "w_out w1 = fst (fh_vol h)"
proof -
  let ?M = "check_merged global opts ref" and ?env = "check_env env global opts" and ?api = "check_api env global opts"
  let ?call = "opts\<lparr>op_Folder := check_folder global opts, op_FS := Some ref\<rparr>"
  let ?bc = "build_cfg ?env ?M ?api (w_clock w)" and ?v = "check_vol env global opts ref w"
  have api: "provider ?env ?call ?M mem = ?api" for mem
    unfolding check_env_def check_api_def by (rule check_provider) simp
  obtain s where s: "runDefine (w_caches w) (f (define_cfg ?env ?M ?api ?v)) = (s, Inr (Some t))"
    using tree by (auto simp: check_tree_def) (metis prod.collapse)
  have nv: "\<not> ct_Version (c_control (b_cfg ?bc))" using assms(2) by (simp add: build_cfg_def)
  have build: "op_Build ?M = Some True" by (simp add: check_merged_def check_force_def)
  obtain b u where b: "run_tree ?bc True (Some t) (build_start ?M ?v (w_clock w) (w_seq w)) = (b, Inr u)"
    "fh_failures (bs_fh b) = []" "P (bs_fh b)"
    using run_ends_with [OF ends [unfolded check_ends_def] nv] by metis
  have w: "w_caches (shadow_world w) = w_caches w" "w_clock (shadow_world w) = w_clock w" "w_seq (shadow_world w) = w_seq w"
    "w_out (shadow_world w) = (w_out w, newShadow)"
    by (simp_all add: shadow_world_def)
  obtain w1 res e where run: "check_run env global opts ref (Some f) w = (w1, res, e)" by (meson prod_cases3)
  note run' = run [unfolded check_run_def Let_def, folded check_env_def]
  have "generate ?env global ?call (Some f) (Some check_force) (shadow_world w) = (w1, res, e)" using run' by simp
  then have "e = None" "w_out w1 = fst (fh_vol (bs_fh b))"
    using s b build assms(1)
    by (simp_all add: generate_def Let_def check_merged_def [symmetric] api w check_vol_def [symmetric] report_def after_run_def)
      auto
  then show thesis using that run b(3) by metis
qed

definition checkWorld :: "MemVol World" where
  "checkWorld = sampleWorld\<lparr>w_out := \<lparr>mv_fs = newSeededMemFS (Some ''/w'') 50 [(''/o/a'', Some ''old'')], mv_tick = 0\<rparr>\<rparr>"

definition checkOptions :: "unit Options" where "checkOptions = noOptions\<lparr>op_Folder := ''/o''\<rparr>"

definition left_a :: "((MemVol \<times> Shadow) \<times> MemVol) Fh \<Rightarrow> bool" where
  "left_a h = (let m = mv_fs (sh_mem (snd (fst (fh_vol h))))
     in files_apart m \<and> (case map_of (mem_files m) ''/o/a'' of None \<Rightarrow> False | Some b \<Rightarrow> b = ''hi''))"

lemma sample_check:
  "case check_tree sampleEnv checkOptions noOptions () sampleRoot checkWorld of
     Inr (Some t) \<Rightarrow> check_ends left_a X sampleEnv checkOptions noOptions () t checkWorld | _ \<Rightarrow> False"
  by code_simp

lemma sample_check_run:
  obtains w1 res where "check_run sampleEnv checkOptions noOptions () (Some sampleRoot) checkWorld = (w1, res, None)"
    and "files_apart (mv_fs (sh_mem (snd (w_out w1))))"
    and "produced sampleEnv (check_folder checkOptions (noOptions :: unit Options)) w1 ''a'' ''hi''"
proof -
  let ?M = "check_merged checkOptions noOptions ()"
  obtain x where x: "check_tree sampleEnv checkOptions noOptions () sampleRoot checkWorld = Inr x"
    using sample_check by (cases "check_tree sampleEnv checkOptions noOptions () sampleRoot checkWorld") simp_all
  obtain t where t: "check_tree sampleEnv checkOptions noOptions () sampleRoot checkWorld = Inr (Some t)"
    using sample_check x by (cases x) simp_all
  have ends: "check_ends left_a X sampleEnv checkOptions noOptions () t checkWorld" for X
    using sample_check [of X] by (simp add: t)
  have M: "validConflict ?M" "\<not> ct_Version (op_Control ?M)" by code_simp+
  obtain w1 res h where run: "check_run sampleEnv checkOptions noOptions () (Some sampleRoot) checkWorld = (w1, res, None)"
    and h: "left_a h" "w_out w1 = fst (fh_vol h)"
    using check_run_succeeds [OF M t ends] by metis
  have "shadowKey sampleEnv (check_folder checkOptions (noOptions :: unit Options)) = ''/o''" "\<not> own_key ''a''"
    unfolding own_key_def by code_simp+
  then show thesis
    using that [OF run] h(1) by (auto simp: left_a_def Let_def h(2) produced_def split: option.splits)
qed

lemma sample_check_folder:
  "has_prefix (shadowKey sampleEnv (check_folder checkOptions (noOptions :: unit Options))) ''/''"
  "shadowKey sampleEnv (check_folder checkOptions (noOptions :: unit Options)) \<noteq> ''/''"
  by code_simp+

theorem check_lists_output_witness:
  "\<exists>r. snd (Check sampleEnv checkOptions noOptions () (Some sampleRoot) checkWorld) = Inr r \<and> ''a'' \<in> set (ck_Checked r)"
proof -
  obtain w1 res where run: "check_run sampleEnv checkOptions noOptions () (Some sampleRoot) checkWorld = (w1, res, None)"
    and ap: "files_apart (mv_fs (sh_mem (snd (w_out w1))))"
    and a: "produced sampleEnv (check_folder checkOptions (noOptions :: unit Options)) w1 ''a'' ''hi''"
    by (rule sample_check_run)
  from check_lists_output [OF run sample_check_folder ap] a show ?thesis by (metis snd_conv)
qed

theorem check_drift_exact_witness:
  "\<exists>r. snd (Check sampleEnv checkOptions noOptions () (Some sampleRoot) checkWorld) = Inr r \<and>
     ''a'' \<in> df_Path ` set (ck_Drift r) \<and> sorted (map df_Path (ck_Drift r))"
proof -
  obtain w1 res where run: "check_run sampleEnv checkOptions noOptions () (Some sampleRoot) checkWorld = (w1, res, None)"
    and ap: "files_apart (mv_fs (sh_mem (snd (w_out w1))))"
    and a: "produced sampleEnv (check_folder checkOptions (noOptions :: unit Options)) w1 ''a'' ''hi''"
    by (rule sample_check_run)
  obtain w' r where r: "Check sampleEnv checkOptions noOptions () (Some sampleRoot) checkWorld = (w', Inr r)"
    using check_result [OF run sample_check_folder ap] by metis
  have "case api_ReadFile (check_base sampleEnv checkOptions noOptions) (w_out checkWorld)
      (path_join [check_folder checkOptions (noOptions :: unit Options), ''a'']) of Inl e \<Rightarrow> False | Inr b \<Rightarrow> b = ''old''"
    by code_simp
  then have "\<not> committed sampleEnv checkOptions noOptions checkWorld w1 ''a'' ''hi''"
    by (auto simp: committed_def agrees_def Let_def split: sum.splits)
  then show ?thesis using check_drift_exact [OF run sample_check_folder ap r] r a by (metis snd_conv)
qed

section \<open>The root as the folder\<close>

text \<open>Checked against the root itself the shadow hides nothing: no path below it counts as under it, so
  the run reads the committed files.\<close>

lemma root_folder_reads_through: "under_root ''/'' ''/'' \<and> \<not> under_root ''/'' ''/a''"
  by code_simp

text \<open>The working directory is a usable root.\<close>

lemma memClean_dot: "memClean (Some ''/w'') ''.'' = ''/w''"
  by code_simp

end
