(* ===== verification/BuildErr.thy ===== *)
theory BuildErr
  imports BuildProps
begin

text \<open>
  How the errors of a build surface (\<^verbatim>\<open>wrap\<close> of \<^verbatim>\<open>go/errors.go\<close>): each is attached to one node of
  the tree, and the error of the operation below it is never itself attached to a node.
\<close>

definition throws :: "(error \<Rightarrow> bool) \<Rightarrow> ('s, 'a) comp \<Rightarrow> bool" where
  "throws P m = (\<forall>s s' e. m s = (s', Inl e) \<longrightarrow> P e)"

named_theorems thrown

lemma throwsD: "throws P m \<Longrightarrow> m s = (s', Inl e) \<Longrightarrow> P e"
  by (auto simp: throws_def)

lemma throws_attempt [thrown]:
  assumes "throws P m" "\<And>x. throws P (f (Inr x))" "\<And>e. P e \<Longrightarrow> throws P (f (Inl e))"
  shows "throws P (bnd (attempt m) f)"
  unfolding throws_def
proof (intro allI impI)
  fix s s' e assume "bnd (attempt m) f s = (s', Inl e)"
  then obtain r t where "m s = (t, r)" "f r t = (s', Inl e)"
    by (auto simp: bnd_def attempt_def split: prod.splits)
  then show "P e" using assms unfolding throws_def by (cases r) metis+
qed

lemma throws_bnd [thrown]: "throws P m \<Longrightarrow> (\<And>x. throws P (f x)) \<Longrightarrow> throws P (bnd m f)"
  unfolding throws_def by (auto elim!: bnd_cases)

lemma throws_seq [thrown]: "throws P m \<Longrightarrow> throws P n \<Longrightarrow> throws P (seq m n)"
  unfolding seq_def by (rule throws_bnd)

lemma throws_prims [thrown]:
  "throws P (ret x)" "throws P (gets g)" "throws P (modify h)" "P e \<Longrightarrow> throws P (fail e)"
  by (auto simp: throws_def ret_def gets_def modify_def fail_def)

lemma throws_control [thrown]:
  "(b \<Longrightarrow> throws P m) \<Longrightarrow> (\<not> b \<Longrightarrow> throws P n) \<Longrightarrow> throws P (if b then m else n)"
  "(x = None \<Longrightarrow> throws P m) \<Longrightarrow> (\<And>y. x = Some y \<Longrightarrow> throws P (f y)) \<Longrightarrow>
     throws P (case x of None \<Rightarrow> m | Some y \<Rightarrow> f y)"
  "(\<And>y. z = Inl y \<Longrightarrow> throws P (g y)) \<Longrightarrow> (\<And>y. z = Inr y \<Longrightarrow> throws P (h y)) \<Longrightarrow>
     throws P (case z of Inl y \<Rightarrow> g y | Inr y \<Rightarrow> h y)"
  "(\<And>a b. w = (a, b) \<Longrightarrow> throws P (k a b)) \<Longrightarrow> throws P (case w of (a, b) \<Rightarrow> k a b)"
  "throws P (l u) \<Longrightarrow> throws P (let v = u in l v)"
  by (auto split: option.split sum.split prod.split)

lemma throws_each [thrown]: "(\<And>x. throws P (f x)) \<Longrightarrow> throws P (each f xs)"
  by (induction xs) (auto intro: thrown)

text \<open>The file handler never attaches an error to a node.\<close>

abbreviation bare :: "('s, 'a) comp \<Rightarrow> bool" where
  "bare \<equiv> throws (\<lambda>e. \<not> has_node_error e)"

lemma bare_state [thrown]:
  "bare (sample c)" "bare (fs_ask f)" "bare (fs_do g)" "bare (appendAudit tag data)" "bare (warn args)"
  "bare (filelog kind p)" "bare (note_save p)" "bare (tmppathFor c p)"
  by (auto simp: throws_def sample_def fs_ask_def fs_do_def appendAudit_def warn_def filelog_def note_save_def
      tmppathFor_def modify_def gets_def split: if_splits prod.splits)

lemma bare_temps [thrown]: "bare (try_temps c p content k)"
proof (induction k)
  case (Suc k)
  then show ?case unfolding try_temps.simps removeTemp_def by (intro thrown) (auto intro: thrown)
qed (simp add: thrown)

lemma bare_low [thrown]:
  "bare (writeAtomicMode c p content mode)" "bare (chmodUnchanged c p mode)" "bare (ensureFolder c p)"
  "bare (ensureDirOf c p)" "bare (validPath p errmark)"
  unfolding writeAtomicMode_def check_slash_target_def copy_mode_def removeTemp_def chmodUnchanged_def
    ensureDirOf_def ensureFolder_def validPath_def
  by (intro thrown; simp)+

lemma bare_calls [thrown]:
  "bare (existsFile c p w)" "bare (load c p q w)" "bare (loadFile c p w)" "bare (loadSource c p w)" "bare (saveFile c p b m w)"
  "bare (copyFile c p q w)" "bare (writeDuplicate c r b)"
  unfolding existsFile_def loadFile_def loadSource_def load_def saveFile_def copyFile_def writeDuplicate_def writeAtomic_def
  by (intro thrown; simp)+

lemma bare_steps [thrown]:
  "bare (decision tag m why p)" "bare (record_action c tag p a sv)" "bare (final_action c a sv)" "bare (apply_mode c p mode sv)"
  unfolding decision_def record_action_def final_action_def apply_mode_def
  by (intro thrown)+

lemma bare_saveAs [thrown]: "bare (saveAs c p b w tagged mode isText)"
  unfolding saveAs_def save_exists_def save_preserve_def save_present_def save_diff_def save_merge_def
    load_baseline_def saveMerge_def save_write_def save_duplicate_def save_finish_def
  by (intro thrown; simp)

lemma bare_saves [thrown]:
  "bare (save c p b w)" "bare (saveBinary c p b w)" "bare (saveMode c p b w m)" "bare (fh_copy c p q)"
  unfolding save_def saveBinary_def saveMode_def fh_copy_def by (intro thrown)+

lemma bare_on_fh [thrown]: "throws P m \<Longrightarrow> throws P (on_fh m)"
  by (auto simp: throws_def on_fh_def split: prod.splits)

lemma bare_small [thrown]:
  "bare (require_name k nm)" "bare (or_panic x)" "bare (render c n b)" "bare (read_source c p)"
  "bare (claimFile p w)" "bare (fileTouched c p)" "bare (copy_file c n nm p q)"
  unfolding require_name_def or_panic_def render_def read_source_def claimFile_def fileTouched_def copy_file_def
  by (intro thrown; simp)+

lemma bare_walk [thrown]: "bare (walkCopyDepth left c n src to visited rel)"
proof (induction left arbitrary: src to visited rel)
  case (Suc left)
  show ?case unfolding walkCopyDepth.simps Let_def by (intro thrown Suc; simp)
qed (simp add: walkCopyDepth.simps thrown)

lemma bare_before: "bare (op_before c n)"
proof -
  have "bare (projectBefore c n)" "bare (folderBefore c n)" "bare (fileBefore n)" "bare (copyBefore c n)"
    "bare (injectBefore n)" "bare (fragmentBefore n)"
    unfolding projectBefore_def folderBefore_def fileBefore_def copyBefore_def injectBefore_def fragmentBefore_def
    by (intro thrown; simp)+
  then show ?thesis unfolding op_before_def by (auto split: Kind.splits intro: thrown)
qed

lemma bare_after: "bare (op_after c n cs)"
proof -
  have "bare (projectAfter n)" "bare (folderAfter :: ('f Bs, unit) comp)" "bare (fileAfter c n cs)" "bare (injectAfter c n cs)"
    unfolding projectAfter_def folderAfter_def fileAfter_def injectAfter_def
    by (intro thrown; simp)+
  moreover have "bare (copyWalk c n)" unfolding copyWalk_def walkCopy_def by (intro thrown)
  then have "bare (copyAfter c n)"
    unfolding copyAfter_def by (auto split: AfterRef.splits option.splits intro: thrown)
  ultimately show ?thesis unfolding op_after_def by (auto split: Kind.splits intro: thrown)
qed

fun tree_nodes :: "Node \<Rightarrow> NodeData list" where
  "tree_nodes (Node n cs) = n # concat (map tree_nodes cs)"

definition located :: "NodeData set \<Rightarrow> error \<Rightarrow> bool" where
  "located ns e = (\<exists>n \<in> ns. \<exists>cause. e = NodeError (kindName (n_Kind n)) (n_Path n) (n_callsite n) cause \<and>
     \<not> has_node_error cause)"

lemma located_mono: "located ns e \<Longrightarrow> ns \<subseteq> ms \<Longrightarrow> located ms e"
  by (auto simp: located_def)

lemma located_wrap: "located ns e \<Longrightarrow> wrap n e = e"
  by (auto simp: located_def wrap_def)

lemma wrapping_located: "throws (located ns) m \<Longrightarrow> throws (located ns) (wrapping n m)"
  unfolding throws_def wrapping_def by (auto split: prod.splits sum.splits) (metis located_wrap)

lemma wrapping_bare:
  "bare m \<Longrightarrow> n_Kind n = n_Kind k \<Longrightarrow> n_Path n = n_Path k \<Longrightarrow> n_callsite n = n_callsite k \<Longrightarrow>
   throws (located {k}) (wrapping n m)"
  by (auto simp: throws_def wrapping_def wrap_def located_def split: prod.splits sum.splits)

definition same_site :: "NodeData \<Rightarrow> NodeData \<Rightarrow> bool" where
  "same_site k n = (n_Kind n = n_Kind k \<and> n_Path n = n_Path k \<and> n_callsite n = n_callsite k)"

lemma before_site: "yields (same_site n) (op_before c n)"
proof -
  have "yields (same_site n) (projectBefore c n)" "yields (same_site n) (fileBefore n)"
    using projectBefore_ok(1) fileBefore_ok(2) by (fastforce simp: yields_def same_site_def)+
  moreover have "yields (same_site n) (copyBefore c n)"
    unfolding copyBefore_def Let_def by (intro yields_rules) (auto simp: same_site_def)
  moreover have "yields (same_site n) (injectBefore n)" "yields (same_site n) (fragmentBefore n)"
    by (auto simp: yields_def injectBefore_def fragmentBefore_def gets_def seq_require ret_def same_site_def split: if_splits)
  moreover have "same_site n n" by (simp add: same_site_def)
  ultimately show ?thesis
    unfolding op_before_def by (auto split: Kind.splits intro: yields_ret yields_seq yields_fail)
qed

lemma throws_bnd_yields:
  "throws P m \<Longrightarrow> yields Q m \<Longrightarrow> (\<And>x. Q x \<Longrightarrow> throws P (f x)) \<Longrightarrow> throws P (bnd m f)"
  unfolding throws_def yields_def by (auto elim!: bnd_cases) blast+

lemma throws_mono: "throws P m \<Longrightarrow> (\<And>e. P e \<Longrightarrow> Q e) \<Longrightarrow> throws Q m"
  by (auto simp: throws_def)

lemma step_located:
  shows "throws (located (set (tree_nodes t))) (step c t)"
    and "throws (located (set (concat (map tree_nodes ts)))) (step_list c ts)"
proof (induction c t and c ts rule: step_step_list.induct)
  case (1 c n cs)
  let ?N = "set (tree_nodes (Node n cs))"
  have own: "throws (located ?N) (wrapping k m)" if "bare m" "same_site n k" for k and m :: "('a Bs, NodeData) comp"
    by (rule throws_mono [OF wrapping_bare]) (use that in \<open>auto simp: same_site_def elim: located_mono\<close>)
  have kids: "throws (located ?N) (step_list c cs)"
    by (rule throws_mono [OF 1]) (auto elim: located_mono)
  have site: "yields (same_site n) (wrapping n (op_before c n))"
    using before_site [of n c] by (auto simp: yields_def wrapping_ok)
  show ?case
    unfolding step.simps
  proof (rule throws_bnd_yields [OF own [OF bare_before] site])
    show "same_site n n" by (simp add: same_site_def)
    fix k assume k: "same_site n k"
    show "throws (located ?N) (bnd (step_list c cs) (\<lambda>cs. bnd (wrapping k (op_after c k cs)) (\<lambda>k. ret (Node k cs))))"
      by (intro throws_bnd throws_prims kids own [OF bare_after k])
  qed
next
  case (3 c x xs)
  let ?N = "set (concat (map tree_nodes (x # xs)))"
  have "throws (located ?N) (step c x)" "throws (located ?N) (step_list c xs)"
    by (rule throws_mono [OF 3(1)] throws_mono [OF 3(2)], auto elim: located_mono)+
  then show ?case unfolding step_list.simps by (intro throws_bnd throws_prims wrapping_located)
qed (simp add: throws_prims)

text \<open>C23: every error of the walk names the node it comes from: it is a \<^verbatim>\<open>NodeError\<close> with the kind, the
  path and the call site of one node of the tree, wrapped once, around an error of the operation.\<close>

theorem build_errors_located:
  assumes "step c t s = (s', Inl e)"
  shows "\<exists>n \<in> set (tree_nodes t). \<exists>cause.
    e = NodeError (kindName (n_Kind n)) (n_Path n) (n_callsite n) cause \<and> \<not> has_node_error cause"
  using throwsD [OF step_located(1) assms] by (simp add: located_def)

theorem build_errors_located_witness:
  "\<exists>s' e cause. step (sampleBcfg noControl) (sampleTree ''../x'' ''hi'') (newBuildCtx ''/o'' (sampleFh [])) = (s', Inl e) \<and>
     (\<exists>n \<in> set (tree_nodes (sampleTree ''../x'' ''hi'')).
        e = NodeError (kindName (n_Kind n)) (n_Path n) (n_callsite n) cause \<and> \<not> has_node_error cause)"
proof -
  let ?run = "step (sampleBcfg noControl) (sampleTree ''../x'' ''hi'') (newBuildCtx ''/o'' (sampleFh []))"
  have "case ?run of (s', Inl e) \<Rightarrow> True | _ \<Rightarrow> False" by code_simp
  then obtain s' e where run: "?run = (s', Inl e)" by (auto split: prod.splits sum.splits)
  from build_errors_located [OF this] show ?thesis using run by blast
qed

section \<open>Inject\<close>

text \<open>One marker pair: the text between the markers is replaced and nothing else.\<close>

lemma inject_pair:
  assumes "str_index (a @ S @ m @ E @ z) S = Some (length a)" and "str_index (m @ E @ z) E = Some (length m)"
    and "str_index (E @ z) S = None" and "S \<noteq> []"
  shows "inject_scan S E body (a @ S @ m @ E @ z) out mt = (out @ a @ S @ body @ E @ z, True)"
proof -
  have "inject_scan S E body (E @ z) (out @ (a @ S) @ body) True = ((out @ (a @ S) @ body) @ E @ z, True)"
    using assms(3) by (subst inject_scan.simps) simp
  moreover have "take (length a + length S) (a @ S @ m @ E @ z) = a @ S"
    "drop (length a + length S) (a @ S @ m @ E @ z) = m @ E @ z"
    "drop (length a + length S + length m) (a @ S @ m @ E @ z) = E @ z" by simp_all
  ultimately show ?thesis
    using assms by (subst inject_scan.simps) (simp add: Let_def del: inject_scan.simps)
qed

lemma inject_stays_matched: "mt \<Longrightarrow> snd (inject_scan S E body r out mt)"
proof (induction S E body r out mt rule: inject_scan.induct)
  case (1 S E body r out mt)
  then show ?case by (subst inject_scan.simps) (auto simp: Let_def split: option.split)
qed

lemma inject_unmatched: "\<not> snd (inject_scan S E body r out mt) \<Longrightarrow> fst (inject_scan S E body r out mt) = out @ r"
  using inject_stays_matched [where mt = True, simplified, of S E body]
  by (subst (asm) inject_scan.simps, subst inject_scan.simps) (auto simp: Let_def split: option.splits if_splits)

lemma has_prefix_short: "length p \<le> length t \<Longrightarrow> has_prefix (t @ v) p = has_prefix t p"
  by (induction t p rule: has_prefix.induct) auto

lemma str_index_first: "str_index (u @ S @ v) S = Some (length u) \<Longrightarrow> str_index (u @ S @ w) S = Some (length u)"
proof (induction u)
  case Nil
  then show ?case by (simp add: str_index.simps)
next
  case (Cons c u)
  then have no: "\<not> has_prefix ((c # u) @ S @ v) S" and r: "str_index (u @ S @ v) S = Some (length u)"
    by (auto simp: str_index.simps [of "c # u @ S @ v"] split: if_splits)
  have "has_prefix ((c # u) @ S @ v) S = has_prefix ((c # u) @ S @ w) S"
    using has_prefix_short [of S "c # u @ S"] by simp
  then show ?case using no Cons.IH [OF r] by (simp add: str_index.simps [of "c # u @ S @ w"])
qed

text \<open>C24: an Inject rewrites the text between its markers and nothing else: where the file holds one
  marker pair, all before the end of the start marker and all from the end marker on is kept, and
  injecting again, the same or another region, replaces just that region; without a pair the text
  stays as it is.\<close>

theorem inject_rewrites_region:
  assumes "str_index (a @ S @ m @ E @ z) S = Some (length a)" and "str_index (m @ E @ z) E = Some (length m)"
    and "str_index (E @ z) S = None" and "S \<noteq> []" and "str_index (body @ E @ z) E = Some (length body)"
  shows "inject_scan S E body (a @ S @ m @ E @ z) [] False = (a @ S @ body @ E @ z, True) \<and>
    inject_scan S E body' (fst (inject_scan S E body (a @ S @ m @ E @ z) [] False)) [] False
      = (a @ S @ body' @ E @ z, True) \<and>
    (\<not> snd (inject_scan S E body src [] False) \<longrightarrow> fst (inject_scan S E body src [] False) = src)"
  using inject_pair [OF assms(1-4)] inject_pair [OF str_index_first [OF assms(1)] assms(5,3,4)]
    inject_unmatched [of S E body src "[]" False]
  by simp

theorem inject_rewrites_region_witness:
  "inject_scan ''<<'' ''>>'' ''new'' ''a<<old>>z'' [] False = (''a<<new>>z'', True)"
  using inject_rewrites_region [of "''a''" "''<<''" "''old''" "''>>''" "''z''" "''new''" "[]" "[]"]
  by (simp add: str_index.simps)

text \<open>With equal markers the end of one pair is taken for the start of the next, so text that lies
  between two pairs is overwritten; the pattern that the source cites, which goes on behind the end
  marker, keeps it.\<close>

lemma inject_equal_markers:
  "inject_scan ''--'' ''--'' ''x'' ''--a--mine--b--'' [] False = (''--x--x--x--'', True)"
  by code_simp

end
