(* ===== verification/Errors.thy ===== *)
theory Errors
  imports Build
begin

text \<open>
  The texts of the errors (\<^verbatim>\<open>go/errors.go\<close>, and the \<^verbatim>\<open>fmt.Errorf\<close> calls of the other files), which
  the TypeScript port shares: \<open>Error\<close> for every constructor of \<open>error\<close>, the reasons of a
  \<^verbatim>\<open>MergeConflictError\<close>, and the clipping of a value quoted in a message. A provider's own error
  is the host's text, the argument \<open>fsText\<close>.
\<close>

section \<open>Values in a message\<close>

definition js_units :: "nat \<Rightarrow> nat" where "js_units r = (if 0xFFFF < r then 2 else 1)"

text \<open>The second loop of \<^verbatim>\<open>clipUTF16\<close>: the bytes before the first rune that does not fit any more;
  \<open>limit\<close> may be below 3, as an int is.\<close>

fun clip_loop :: "int \<Rightarrow> string \<Rightarrow> int \<Rightarrow> (nat \<times> string) list \<Rightarrow> string \<Rightarrow> string" where
  "clip_loop limit s kept [] taken = s"
| "clip_loop limit s kept ((r, bytes) # rest) taken =
     (if limit - 3 < kept + int (js_units r) then taken @ ''...''
      else clip_loop limit s (kept + int (js_units r)) rest (taken @ bytes))"

definition clipUTF16 :: "string \<Rightarrow> int \<Rightarrow> string" where
  "clipUTF16 s limit =
     (let total = foldl (\<lambda>n r. n + int (js_units r)) 0 (runes s)
      in if total \<le> limit then s else clip_loop limit s 0 (rune_parts s) [])"

definition shapeValueText :: "string \<Rightarrow> string" where
  "shapeValueText s = clipUTF16 (filter (\<lambda>c. c \<noteq> QUOTE) (go_quote s)) 111"

section \<open>The texts\<close>

definition mergeConflictReason :: "string \<Rightarrow> string" where
  "mergeConflictReason r =
     (if r = ''conflict'' then ''conflict''
      else if r = ''unresolved'' then ''unresolved conflict markers''
      else if r = ''nobase'' then ''no baseline'' else [])"

definition mergeConflictText :: "(string \<times> string) list \<Rightarrow> string" where
  "mergeConflictText cs =
     ''jostraca: 3-way merge produced conflicts'' @ '', left unchanged: '' @
     join_with '', '' (map (\<lambda>(p, r). p @ '' ('' @ mergeConflictReason r @ '')'') cs)"

text \<open>\<^verbatim>\<open>(*NodeError).Error\<close>, given the text of the cause.\<close>

definition nodeErrorText :: "string \<Rightarrow> string list \<Rightarrow> string \<Rightarrow> string \<Rightarrow> string" where
  "nodeErrorText stp path callsite cause =
     (let parts = [''jostraca''] @ (if stp \<noteq> [] then [stp] else []) @
            (if path \<noteq> [] then [''@'' @ join_with ''/'' path] else [])
      in join_with '' '' parts @ '': '' @ cause @
         (if callsite \<noteq> [] then [NL] @ ''  at '' @ callsite else []))"

definition fromMissingText :: "string \<Rightarrow> string" where
  "fromMissingText cmp = cmp @ '': Validation failed for property '' @ [QUOTE] @ ''from'' @ [QUOTE] @
     '' because the property is missing.''"

definition fromCheckText :: "string \<Rightarrow> string \<Rightarrow> string \<Rightarrow> string" where
  "fromCheckText cmp src cause = cmp @ '': Validation failed for property '' @ [QUOTE] @ ''from'' @ [QUOTE] @
     '' with string '' @ [QUOTE] @ shapeValueText src @ [QUOTE] @ '' because check '' @ [QUOTE] @ ''From'' @ [QUOTE] @
     '' failed (threw: '' @ cause @ '')''"

definition rootOr :: "string \<Rightarrow> string" where "rootOr p = (if p = [] then ''<root>'' else p)"

fun Error :: "(fs_error \<Rightarrow> string) \<Rightarrow> error \<Rightarrow> string" where
  "Error fsText ErrInvalidPath = ''jostraca: invalid path''"
| "Error fsText (ErrPathRefused msg) = msg"
| "Error fsText (ErrFs e) = fsText e"
| "Error fsText (ErrFh pre e) = pre @ Error fsText e"
| "Error fsText (ErrNoTempPath p) =
     ''jostraca: no free temp path for '' @ p @ '' after '' @ show_nat tmpPathAttempts @ '' attempts''"
| "Error fsText (ErrNameTraversal kind name) =
     kind @ '' name must not contain a '' @ [QUOTE] @ ''..'' @ [QUOTE] @ '' path segment, name='' @ name"
| "Error fsText (ErrDuplicateFilePath p first second) =
     ''two File components resolve to the same output path, path='' @ p @ '', first='' @ rootOr first @
     '', second='' @ rootOr second"
| "Error fsText (ErrInjectTargetMissing p) =
     ''inject target does not exist, path='' @ p @ '' (Inject rewrites an existing file; use File to create one)''"
| "Error fsText (ErrCopyStat src e) = ''Copy: stat '' @ src @ '': '' @ Error fsText e"
| "Error fsText (ErrCopyTooDeep src) =
     ''Copy: tree too deep (>64), possible symlink cycle, path='' @ src"
| "Error fsText ErrMissingOp = ''missing op: unknown''"
| "Error fsText (ErrUnmarshal msg) = msg"
| "Error fsText (ErrTemplate msg) = msg"
| "Error fsText (ErrEmptyMatchRegex re) = ''Regular expression matches empty string: '' @ re"
| "Error fsText (ErrLookbehind k) = ''jostraca: look-around not supported (RE2): '' @ k"
| "Error fsText ErrNilRoot = ''jostraca: generate root callback is not a function''"
| "Error fsText (ErrFromMissing cmp) = fromMissingText cmp"
| "Error fsText (ErrFromCheck cmp src e) = fromCheckText cmp src (Error fsText e)"
| "Error fsText (ErrMsg msg) = msg"
| "Error fsText ErrPanic = []"
| "Error fsText (ErrMergeConflict cs) = mergeConflictText cs"
| "Error fsText (NodeError stp path callsite e) = nodeErrorText stp path callsite (Error fsText e)"

section \<open>The bound of a clipped value\<close>

lemma utf16Len_sum: "utf16Len s = sum_list (map js_units (runes s))"
proof -
  have "foldl (\<lambda>n r. if 0x10000 \<le> r then n + 2 else n + 1) k rs = k + sum_list (map js_units rs)" for rs k
    by (induction rs arbitrary: k) (auto simp: js_units_def)
  then show ?thesis by (simp add: utf16Len_def)
qed

lemma total_units: "foldl (\<lambda>n r. n + int (js_units r)) k rs = k + int (sum_list (map js_units rs))"
  by (induction rs arbitrary: k) auto

text \<open>The loop stops at a rune: what it took is a prefix of whole runes that fit.\<close>

lemma clip_loop_stops:
  assumes "limit - 3 < kept + int (sum_list (map (js_units \<circ> fst) rest))" and "kept \<le> limit - 3"
  shows "\<exists>k < length rest. clip_loop limit s kept rest taken = taken @ concat (map snd (take k rest)) @ ''...'' \<and>
    kept + int (sum_list (map (js_units \<circ> fst) (take k rest))) \<le> limit - 3"
  using assms
proof (induction rest arbitrary: kept taken)
  case (Cons x rest)
  obtain r b where x: "x = (r, b)" by (cases x)
  show ?case
  proof (cases "limit - 3 < kept + int (js_units r)")
    case True
    then show ?thesis using Cons.prems x by (intro exI [of _ 0]) simp
  next
    case False
    then have "limit - 3 < (kept + int (js_units r)) + int (sum_list (map (js_units \<circ> fst) rest))"
      "kept + int (js_units r) \<le> limit - 3"
      using Cons.prems False x by (simp_all add: comp_def)
    from Cons.IH [OF this, of "taken @ b"]
    obtain k where "k < length rest" "clip_loop limit s (kept + int (js_units r)) rest (taken @ b) =
        (taken @ b) @ concat (map snd (take k rest)) @ ''...''"
      "(kept + int (js_units r)) + int (sum_list (map (js_units \<circ> fst) (take k rest))) \<le> limit - 3"
      by blast
    then show ?thesis using False x by (intro exI [of _ "Suc k"]) (simp add: comp_def)
  qed
qed simp

text \<open>On valid UTF-8 a clipped value is valid, no longer than the limit in JavaScript's length, and either
  the value itself or a prefix of it, as long as fits, and an ellipsis.\<close>

lemma clip_bounded:
  assumes "\<forall>r \<in> set rs. scalar r" and "3 \<le> limit"
  shows "\<exists>k. clipUTF16 (encode_runes rs) (int limit) = encode_runes (take k rs @ (if k < length rs then [46, 46, 46] else [])) \<and>
    utf16Len (clipUTF16 (encode_runes rs) (int limit)) \<le> limit"
proof -
  have parts: "rune_parts (encode_runes rs) = map (\<lambda>r. (r, encode_rune r)) rs" and
    rs: "runes (encode_runes rs) = rs" using assms(1) by (simp_all add: runes_encode runes_def comp_def)
  show ?thesis
  proof (cases "sum_list (map js_units rs) \<le> limit")
    case True
    then have "clipUTF16 (encode_runes rs) (int limit) = encode_runes rs"
      using total_units [of 0 rs] by (simp add: clipUTF16_def rs)
    then show ?thesis using True rs by (intro exI [of _ "length rs"]) (simp add: utf16Len_sum)
  next
    case False
    then have clip: "clipUTF16 (encode_runes rs) (int limit) =
        clip_loop (int limit) (encode_runes rs) 0 (map (\<lambda>r. (r, encode_rune r)) rs) []"
      using total_units [of 0 rs] by (simp add: clipUTF16_def rs parts)
    obtain k where k: "k < length rs"
      "clipUTF16 (encode_runes rs) (int limit) = concat (map encode_rune (take k rs)) @ ''...''"
      "int (sum_list (map js_units (take k rs))) \<le> int limit - 3"
    proof -
      let ?ps = "map (\<lambda>r. (r, encode_rune r)) rs"
      have units: "map (js_units \<circ> fst) (take k ?ps) = map js_units (take k rs)"
        "map (js_units \<circ> fst) ?ps = map js_units rs" "map snd (take k ?ps) = map encode_rune (take k rs)" for k
        by (simp_all add: comp_def take_map)
      have "int limit - 3 < 0 + int (sum_list (map (js_units \<circ> fst) ?ps))" "0 \<le> int limit - 3"
        using False assms(2) unfolding units by linarith+
      from clip_loop_stops [OF this, of "encode_runes rs" "[]", unfolded clip [symmetric]]
      show thesis using that unfolding units by auto
    qed
    let ?out = "take k rs @ [46, 46, 46]"
    have "''...'' = encode_runes [46, 46, 46]" proof -
      have "of_char (CHR ''.'') = (46 :: nat)" by simp
      from arg_cong [OF this, of char_of] have "CHR ''.'' = char_of (46 :: nat)" by (simp only: char_of_char)
      moreover have "scalar 46" by (simp add: scalar_def)
      ultimately show ?thesis by (simp add: encode_runes_def encode_rune_def)
    qed
    then have out: "clipUTF16 (encode_runes rs) (int limit) = encode_runes ?out"
      using k(2) by (simp add: encode_runes_def)
    moreover have "\<forall>r \<in> set ?out. scalar r" using assms(1) in_set_takeD [of _ k rs] by (auto simp: scalar_def)
    then have "runes (encode_runes ?out) = ?out" by (simp add: runes_def runes_encode comp_def)
    then have "utf16Len (encode_runes ?out) = sum_list (map js_units ?out)" by (simp add: utf16Len_sum)
    moreover have "sum_list (map js_units ?out) \<le> limit" using k(3) by (simp add: js_units_def)
    ultimately show ?thesis using k(1) by (intro exI [of _ k]) simp
  qed
qed

end
