(* ===== verification/DLog.thy ===== *)
theory DLog
  imports TimeFmt
begin

text \<open>
  The debug log of the package (\<^verbatim>\<open>go/dlog.go\<close>): a buffer shared by all runs, which keeps the newest
  \<^verbatim>\<open>dLogMax\<close> entries. An argument is the text \<^verbatim>\<open>fmt.Sprint\<close> gives of it; the mutex makes each call
  one step; the clock's sample is an argument.

  The abstract log is the whole history since the last clearing; \<open>dlog_refines\<close> is the relation to
  it that every operation keeps.
\<close>

record dLogEntry =
  le_Tag :: string
  le_File :: string
  le_When :: int
  le_Args :: "string list"

record DLog =
  dl_tag :: string
  dl_file :: string

type_synonym dlog = "dLogEntry list"

definition dLogMax :: nat where "dLogMax = 1000"

definition NewDLog :: "string \<Rightarrow> string \<Rightarrow> DLog" where
  "NewDLog tag file = \<lparr>dl_tag = tag, dl_file = file\<rparr>"

definition empty_entry :: dLogEntry where
  "empty_entry = \<lparr>le_Tag = [], le_File = [], le_When = 0, le_Args = []\<rparr>"

text \<open>\<^verbatim>\<open>record\<close>; a nil logger records nothing.\<close>

definition dlog_record :: "DLog option \<Rightarrow> int \<Rightarrow> string list \<Rightarrow> dlog \<Rightarrow> dlog \<times> dLogEntry" where
  "dlog_record d now args entries =
     (case d of
        None \<Rightarrow> (entries, empty_entry)
      | Some l \<Rightarrow>
          let e = \<lparr>le_Tag = dl_tag l, le_File = dl_file l, le_When = now, le_Args = args\<rparr>;
              kept = (if dLogMax \<le> length entries then drop (length entries - dLogMax + 1) entries else entries)
          in (kept @ [e], e))"

definition Log :: "DLog option \<Rightarrow> int \<Rightarrow> string list \<Rightarrow> dlog \<Rightarrow> dlog" where
  "Log d now args entries = fst (dlog_record d now args entries)"

definition entryString :: "dLogEntry \<Rightarrow> string" where
  "entryString e = join_with '','' ([le_Tag e, le_File e, show_int (le_When e)] @ le_Args e)"

definition Entries :: "string \<Rightarrow> dlog \<Rightarrow> dLogEntry list" where
  "Entries filterFile entries = (if filterFile = [] then entries else filter (\<lambda>e. le_File e = filterFile) entries)"

definition dLogReset :: "dlog \<Rightarrow> dlog" where "dLogReset entries = []"

definition DLogSnapshot :: "bool \<Rightarrow> dlog \<Rightarrow> dlog \<times> dLogEntry list" where
  "DLogSnapshot clear entries = (if clear then [] else entries, entries)"

section \<open>The history behind the buffer\<close>

text \<open>One operation of any logger.\<close>

datatype dlog_op =
    OpLog "DLog option" int "string list"
  | OpReset
  | OpSnapshot bool

definition dlog_step :: "dlog_op \<Rightarrow> dlog \<Rightarrow> dlog" where
  "dlog_step operation b = (case operation of
     OpLog d now args \<Rightarrow> Log d now args b | OpReset \<Rightarrow> dLogReset b | OpSnapshot clear \<Rightarrow> fst (DLogSnapshot clear b))"

text \<open>The abstract log has no bound: an entry is appended, and clearing forgets all.\<close>

definition history_step :: "dlog_op \<Rightarrow> dLogEntry list \<Rightarrow> dLogEntry list" where
  "history_step operation h = (case operation of
     OpLog (Some l) now args \<Rightarrow> h @ [\<lparr>le_Tag = dl_tag l, le_File = dl_file l, le_When = now, le_Args = args\<rparr>]
   | OpLog None now args \<Rightarrow> h
   | OpReset \<Rightarrow> []
   | OpSnapshot clear \<Rightarrow> (if clear then [] else h))"

definition newest :: "nat \<Rightarrow> 'a list \<Rightarrow> 'a list" where "newest n xs = drop (length xs - n) xs"

lemma newest_snoc: "0 < n \<Longrightarrow> newest n (xs @ [x]) = newest (n - 1) xs @ [x]"
  by (auto simp: newest_def Suc_diff_le)

lemma newest_newest: "m \<le> n \<Longrightarrow> newest m (newest n xs) = newest m xs"
proof -
  assume "m \<le> n"
  moreover have "length xs - (length xs - n + m) + (length xs - n) = length xs - m" if "n \<le> length xs"
    using that \<open>m \<le> n\<close> by arith
  ultimately show ?thesis by (cases "n \<le> length xs") (simp_all add: newest_def add.commute)
qed

lemma record_newest:
  assumes "b = newest dLogMax h"
  shows "(if dLogMax \<le> length b then drop (length b - dLogMax + 1) b else b) = newest (dLogMax - 1) h"
proof (cases "dLogMax \<le> length b")
  case True
  then have "length b - (dLogMax - 1) = length b - dLogMax + 1" by (simp add: dLogMax_def)
  then have "drop (length b - dLogMax + 1) b = newest (dLogMax - 1) b" by (simp add: newest_def)
  then show ?thesis using True newest_newest [of "dLogMax - 1" dLogMax h] assms by simp
next
  case False
  then have "length h < dLogMax" "b = h" using assms by (auto simp: newest_def)
  then show ?thesis by (simp add: newest_def)
qed

lemma dlog_refines: "b = newest dLogMax h \<Longrightarrow> dlog_step operation b = newest dLogMax (history_step operation h)"
proof (cases operation)
  case (OpLog d now args)
  assume b: "b = newest dLogMax h"
  show ?thesis
  proof (cases d)
    case (Some l)
    let ?e = "\<lparr>le_Tag = dl_tag l, le_File = dl_file l, le_When = now, le_Args = args\<rparr>"
    have "dlog_step operation b = newest (dLogMax - 1) h @ [?e]"
      unfolding dlog_step_def OpLog Some Log_def dlog_record_def Let_def dlog_op.case option.case fst_conv
        record_newest [OF b] ..
    then show ?thesis using newest_snoc [of dLogMax h] by (simp add: OpLog Some history_step_def dLogMax_def)
  qed (use OpLog b in \<open>simp add: dlog_step_def history_step_def Log_def dlog_record_def\<close>)
qed (simp_all add: dlog_step_def history_step_def dLogReset_def DLogSnapshot_def newest_def)

text \<open>C39: the debug log refines the unbounded log: whatever the loggers of all runs append and whoever
  reads or clears it, the buffer holds the newest \<^verbatim>\<open>dLogMax\<close> entries of the history, in their order;
  so it never grows beyond the bound, and loses nothing before it.\<close>

theorem dlog_keeps_newest:
  "foldl (\<lambda>b operation. dlog_step operation b) [] ops =
     newest dLogMax (foldl (\<lambda>h operation. history_step operation h) [] ops)"
proof (induction ops rule: rev_induct)
  case Nil
  then show ?case by (simp add: newest_def)
next
  case (snoc operation ops)
  from dlog_refines [OF this, of operation] show ?case by simp
qed

end
