(* ===== verification/Casing.thy ===== *)
theory Casing
  imports JsValue OutPath "HOL-Library.AList"
begin

text \<open>
  JavaScript's case mapping (\<^verbatim>\<open>go/jscase.go\<close>) and the names that are derived by it in
  \<^verbatim>\<open>go/util.go\<close>: splitting a name into words and putting them together in camel, snake and kebab
  case. The tables of Go's \<^verbatim>\<open>unicode\<close> package are the record \<open>Unicode\<close>; what is said about the ASCII
  part of them is the hypothesis \<open>ascii_tables\<close>.
\<close>

section \<open>Case mapping\<close>

record Unicode =
  u_ToUpper :: "nat \<Rightarrow> nat"
  u_ToLower :: "nat \<Rightarrow> nat"
  u_IsUpper :: "nat \<Rightarrow> bool"
  u_IsLower :: "nat \<Rightarrow> bool"
  u_IsTitle :: "nat \<Rightarrow> bool"
  u_Other_Lowercase :: "nat \<Rightarrow> bool"
  u_Other_Uppercase :: "nat \<Rightarrow> bool"
  u_Mn :: "nat \<Rightarrow> bool"
  u_Me :: "nat \<Rightarrow> bool"
  u_Cf :: "nat \<Rightarrow> bool"
  u_Lm :: "nat \<Rightarrow> bool"
  u_Sk :: "nat \<Rightarrow> bool"

definition isASCII :: "string \<Rightarrow> bool" where "isASCII s = (\<forall>c \<in> set s. byte c < 0x80)"

definition isAsciiUpper :: "char \<Rightarrow> bool" where "isAsciiUpper c = (byte (CHR ''A'') \<le> byte c \<and> byte c \<le> byte (CHR ''Z''))"
definition isAsciiLower :: "char \<Rightarrow> bool" where "isAsciiLower c = (byte (CHR ''a'') \<le> byte c \<and> byte c \<le> byte (CHR ''z''))"

text \<open>\<^verbatim>\<open>c + ('a' - 'A')\<close> and \<^verbatim>\<open>c - ('a' - 'A')\<close>.\<close>

definition down_char :: "char \<Rightarrow> char" where "down_char c = char_of (byte c + 32)"
definition up_char :: "char \<Rightarrow> char" where "up_char c = char_of (byte c - 32)"

text \<open>\<^verbatim>\<open>strings.ToLower\<close> and \<^verbatim>\<open>strings.ToUpper\<close> on an ASCII string.\<close>

definition lower_char :: "char \<Rightarrow> char" where "lower_char c = (if isAsciiUpper c then down_char c else c)"
definition upper_char :: "char \<Rightarrow> char" where "upper_char c = (if isAsciiLower c then up_char c else c)"

definition jsUpperSpecial :: "(nat \<times> nat list) list" where
  "jsUpperSpecial = [
    (0x00DF, [0x0053, 0x0053]), (0x0149, [0x02BC, 0x004E]), (0x01F0, [0x004A, 0x030C]),
    (0x0390, [0x0399, 0x0308, 0x0301]), (0x03B0, [0x03A5, 0x0308, 0x0301]), (0x0587, [0x0535, 0x0552]),
    (0x1E96, [0x0048, 0x0331]), (0x1E97, [0x0054, 0x0308]), (0x1E98, [0x0057, 0x030A]), (0x1E99, [0x0059, 0x030A]),
    (0x1E9A, [0x0041, 0x02BE]), (0x1F50, [0x03A5, 0x0313]), (0x1F52, [0x03A5, 0x0313, 0x0300]),
    (0x1F54, [0x03A5, 0x0313, 0x0301]), (0x1F56, [0x03A5, 0x0313, 0x0342]), (0x1F80, [0x1F08, 0x0399]),
    (0x1F81, [0x1F09, 0x0399]), (0x1F82, [0x1F0A, 0x0399]), (0x1F83, [0x1F0B, 0x0399]), (0x1F84, [0x1F0C, 0x0399]),
    (0x1F85, [0x1F0D, 0x0399]), (0x1F86, [0x1F0E, 0x0399]), (0x1F87, [0x1F0F, 0x0399]), (0x1F88, [0x1F08, 0x0399]),
    (0x1F89, [0x1F09, 0x0399]), (0x1F8A, [0x1F0A, 0x0399]), (0x1F8B, [0x1F0B, 0x0399]), (0x1F8C, [0x1F0C, 0x0399]),
    (0x1F8D, [0x1F0D, 0x0399]), (0x1F8E, [0x1F0E, 0x0399]), (0x1F8F, [0x1F0F, 0x0399]), (0x1F90, [0x1F28, 0x0399]),
    (0x1F91, [0x1F29, 0x0399]), (0x1F92, [0x1F2A, 0x0399]), (0x1F93, [0x1F2B, 0x0399]), (0x1F94, [0x1F2C, 0x0399]),
    (0x1F95, [0x1F2D, 0x0399]), (0x1F96, [0x1F2E, 0x0399]), (0x1F97, [0x1F2F, 0x0399]), (0x1F98, [0x1F28, 0x0399]),
    (0x1F99, [0x1F29, 0x0399]), (0x1F9A, [0x1F2A, 0x0399]), (0x1F9B, [0x1F2B, 0x0399]), (0x1F9C, [0x1F2C, 0x0399]),
    (0x1F9D, [0x1F2D, 0x0399]), (0x1F9E, [0x1F2E, 0x0399]), (0x1F9F, [0x1F2F, 0x0399]), (0x1FA0, [0x1F68, 0x0399]),
    (0x1FA1, [0x1F69, 0x0399]), (0x1FA2, [0x1F6A, 0x0399]), (0x1FA3, [0x1F6B, 0x0399]), (0x1FA4, [0x1F6C, 0x0399]),
    (0x1FA5, [0x1F6D, 0x0399]), (0x1FA6, [0x1F6E, 0x0399]), (0x1FA7, [0x1F6F, 0x0399]), (0x1FA8, [0x1F68, 0x0399]),
    (0x1FA9, [0x1F69, 0x0399]), (0x1FAA, [0x1F6A, 0x0399]), (0x1FAB, [0x1F6B, 0x0399]), (0x1FAC, [0x1F6C, 0x0399]),
    (0x1FAD, [0x1F6D, 0x0399]), (0x1FAE, [0x1F6E, 0x0399]), (0x1FAF, [0x1F6F, 0x0399]), (0x1FB2, [0x1FBA, 0x0399]),
    (0x1FB3, [0x0391, 0x0399]), (0x1FB4, [0x0386, 0x0399]), (0x1FB6, [0x0391, 0x0342]),
    (0x1FB7, [0x0391, 0x0342, 0x0399]), (0x1FBC, [0x0391, 0x0399]), (0x1FC2, [0x1FCA, 0x0399]),
    (0x1FC3, [0x0397, 0x0399]), (0x1FC4, [0x0389, 0x0399]), (0x1FC6, [0x0397, 0x0342]),
    (0x1FC7, [0x0397, 0x0342, 0x0399]), (0x1FCC, [0x0397, 0x0399]), (0x1FD2, [0x0399, 0x0308, 0x0300]),
    (0x1FD3, [0x0399, 0x0308, 0x0301]), (0x1FD6, [0x0399, 0x0342]), (0x1FD7, [0x0399, 0x0308, 0x0342]),
    (0x1FE2, [0x03A5, 0x0308, 0x0300]), (0x1FE3, [0x03A5, 0x0308, 0x0301]), (0x1FE4, [0x03A1, 0x0313]),
    (0x1FE6, [0x03A5, 0x0342]), (0x1FE7, [0x03A5, 0x0308, 0x0342]), (0x1FF2, [0x1FFA, 0x0399]),
    (0x1FF3, [0x03A9, 0x0399]), (0x1FF4, [0x038F, 0x0399]), (0x1FF6, [0x03A9, 0x0342]),
    (0x1FF7, [0x03A9, 0x0342, 0x0399]), (0x1FFC, [0x03A9, 0x0399]), (0xFB00, [0x0046, 0x0046]),
    (0xFB01, [0x0046, 0x0049]), (0xFB02, [0x0046, 0x004C]), (0xFB03, [0x0046, 0x0046, 0x0049]),
    (0xFB04, [0x0046, 0x0046, 0x004C]), (0xFB05, [0x0053, 0x0054]), (0xFB06, [0x0053, 0x0054]),
    (0xFB13, [0x0544, 0x0546]), (0xFB14, [0x0544, 0x0535]), (0xFB15, [0x0544, 0x053B]), (0xFB16, [0x054E, 0x0546]),
    (0xFB17, [0x0544, 0x053D])]"

definition jsToUpper :: "Unicode \<Rightarrow> string \<Rightarrow> string" where
  "jsToUpper u s =
     (if isASCII s then map upper_char s
      else encode_runes (concat (map (\<lambda>r. case map_of jsUpperSpecial r of Some m \<Rightarrow> m | None \<Rightarrow> [u_ToUpper u r]) (runes s))))"

definition jsCased :: "Unicode \<Rightarrow> nat \<Rightarrow> bool" where
  "jsCased u r = (u_IsUpper u r \<or> u_IsLower u r \<or> u_IsTitle u r \<or> u_Other_Lowercase u r \<or> u_Other_Uppercase u r)"

definition jsCaseIgnorable :: "Unicode \<Rightarrow> nat \<Rightarrow> bool" where
  "jsCaseIgnorable u r =
     (r \<in> {0x0027, 0x002E, 0x003A, 0x00B7, 0x0387, 0x055F, 0x05F4, 0x2018, 0x2019, 0x2024, 0x2027,
           0xFE13, 0xFE52, 0xFE55, 0xFF07, 0xFF0E, 0xFF1A} \<or>
      u_Mn u r \<or> u_Me u r \<or> u_Cf u r \<or> u_Lm u r \<or> u_Sk u r)"

text \<open>\<^verbatim>\<open>utf8.DecodeLastRuneInString\<close>: back over at most three continuation bytes, then forward.\<close>

definition decode_last_rune :: "string \<Rightarrow> nat \<times> nat" where
  "decode_last_rune s =
     (case rev s of
        [] \<Rightarrow> (rune_error, 0)
      | c # cs \<Rightarrow>
          if byte c < 0x80 then (byte c, 1)
          else
            let near = take 3 (map byte cs);
                j = length (takeWhile cont near);
                back = (if j < length near then j + 2 else min 5 (length s));
                (r, w) = decode_rune (drop (length s - back) s)
            in if w = back then (r, w) else (rune_error, 1))"

lemma decode_last_width: "s \<noteq> [] \<Longrightarrow> 0 < snd (decode_last_rune s)"
  by (cases "rev s") (auto simp: decode_last_rune_def Let_def split: prod.split)

text \<open>\<^verbatim>\<open>jsFinalSigma\<close>: the loop back from the sigma, and the loop forward from behind it.\<close>

function cased_before :: "Unicode \<Rightarrow> string \<Rightarrow> bool" where
  "cased_before u s =
     (if s = [] then False
      else
        let (r, n) = decode_last_rune s
        in if jsCaseIgnorable u r then cased_before u (take (length s - n) s) else jsCased u r)"
  by auto
termination
proof (relation "measure (\<lambda>(u, s). length s)", goal_cases)
  case (2 u s x r n)
  then have "0 < n" using decode_last_width [of s] by (metis snd_conv)
  with \<open>s \<noteq> []\<close> show ?case by simp
qed simp

declare cased_before.simps [simp del]

fun cased_after :: "Unicode \<Rightarrow> nat list \<Rightarrow> bool" where
  "cased_after u [] = False"
| "cased_after u (r # rs) = (if jsCaseIgnorable u r then cased_after u rs else jsCased u r)"

definition jsFinalSigma :: "Unicode \<Rightarrow> string \<Rightarrow> nat \<Rightarrow> bool" where
  "jsFinalSigma u s i = (cased_before u (take i s) \<and> \<not> cased_after u (runes (drop (i + 2) s)))"

text \<open>The runes that replace a rune at byte offset \<open>i\<close>.\<close>

definition lower_rune :: "Unicode \<Rightarrow> string \<Rightarrow> nat \<Rightarrow> nat \<Rightarrow> nat list" where
  "lower_rune u s i r =
     (if r = 0x0130 then [0x69, 0x0307]
      else if r = 0x03A3 then [if jsFinalSigma u s i then 0x03C2 else 0x03C3]
      else [u_ToLower u r])"

fun lower_loop :: "Unicode \<Rightarrow> string \<Rightarrow> nat \<Rightarrow> (nat \<times> string) list \<Rightarrow> nat list" where
  "lower_loop u s i [] = []"
| "lower_loop u s i ((r, w) # ps) = lower_rune u s i r @ lower_loop u s (i + length w) ps"

definition jsToLower :: "Unicode \<Rightarrow> string \<Rightarrow> string" where
  "jsToLower u s = (if isASCII s then map lower_char s else encode_runes (lower_loop u s 0 (rune_parts s)))"

section \<open>Words\<close>

text \<open>\<^verbatim>\<open>collapseAcronyms\<close>: of a run of capitals, all but the first, and but the last when a small letter
  follows, are lowered.\<close>

function collapseAcronyms :: "string \<Rightarrow> string" where
  "collapseAcronyms [] = []"
| "collapseAcronyms (c # s) =
     (if \<not> isAsciiUpper c then c # collapseAcronyms s
      else
        let run = takeWhile isAsciiUpper (c # s);
            rest = dropWhile isAsciiUpper (c # s);
            e = (if rest \<noteq> [] \<and> isAsciiLower (hd rest) then length run - 1 else length run)
        in if e < 2 then c # collapseAcronyms s
           else c # map down_char (drop 1 (take e run)) @ collapseAcronyms (drop e (c # s)))"
  by pat_completeness auto
termination by (relation "measure length") auto

definition flush_part :: "string \<Rightarrow> string list" where "flush_part cur = (if cur = [] then [] else [cur])"

definition is_separator :: "nat \<Rightarrow> bool" where
  "is_separator r = (r = byte (CHR ''-'') \<or> r = byte (CHR ''_'') \<or> r = byte (CHR '' ''))"

fun split_loop :: "string \<Rightarrow> nat list \<Rightarrow> string list" where
  "split_loop cur [] = flush_part cur"
| "split_loop cur (r # rs) =
     (if is_separator r then flush_part cur @ split_loop [] rs
      else if byte (CHR ''A'') \<le> r \<and> r \<le> byte (CHR ''Z'') then flush_part cur @ encode_rune r # split_loop [] rs
      else split_loop (cur @ encode_rune r) rs)"

definition splitOnUpperAndSeps :: "string \<Rightarrow> string list" where
  "splitOnUpperAndSeps s = split_loop [] (runes s)"

definition glue_step :: "string list \<Rightarrow> string \<Rightarrow> string list" where
  "glue_step out p =
     (if out \<noteq> [] \<and> length (last out) = 1 \<and> isAsciiUpper (hd (last out)) \<and> p \<noteq> [] \<and> \<not> isAsciiUpper (hd p)
      then butlast out @ [last out @ p]
      else out @ [p])"

definition glueInitials :: "string list \<Rightarrow> string list" where "glueInitials parts = foldl glue_step [] parts"

definition Partify :: "jval \<Rightarrow> string list" where
  "Partify v = (case v of
     Null \<Rightarrow> [''null'']
   | Str s \<Rightarrow> (if s = [] then [] else glueInitials (splitOnUpperAndSeps (collapseAcronyms s)))
   | Arr StringSlice a xs \<Rightarrow> filter (\<lambda>s. s \<noteq> []) (map jsString xs)
   | Arr AnySlice a xs \<Rightarrow> filter (\<lambda>s. s \<noteq> []) (map jsString xs)
   | v \<Rightarrow> filter (\<lambda>s. s \<noteq> []) [jsString v])"

section \<open>Cases\<close>

definition LCF :: "Unicode \<Rightarrow> jval \<Rightarrow> string" where
  "LCF u v =
     (let str = jsString v
      in if str = [] then [] else let n = snd (decode_rune str) in jsToLower u (take n str) @ drop n str)"

definition UCF :: "Unicode \<Rightarrow> jval \<Rightarrow> string" where
  "UCF u v = (case jsString v of
     [] \<Rightarrow> []
   | c # s \<Rightarrow>
       if byte c < 0x80 then (if isAsciiLower c then up_char c # s else c # s)
       else let n = snd (decode_rune (c # s)) in jsToUpper u (take n (c # s)) @ drop n (c # s))"

definition Camelify :: "Unicode \<Rightarrow> jval \<Rightarrow> string" where
  "Camelify u v = concat (map (\<lambda>p. if p = [] then [] else UCF u (Str p)) (Partify v))"

definition Snakify :: "Unicode \<Rightarrow> jval \<Rightarrow> string" where
  "Snakify u v = join_with ''_'' (map (jsToLower u) (Partify v))"

definition Kebabify :: "Unicode \<Rightarrow> jval \<Rightarrow> string" where
  "Kebabify u v = join_with ''-'' (map (jsToLower u) (Partify v))"

text \<open>\<^verbatim>\<open>Names\<close>: the map with the variants; an absent map or property name is None.\<close>

definition Names :: "Unicode \<Rightarrow> (string \<times> jval) list option \<Rightarrow> string \<Rightarrow> string option \<Rightarrow> (string \<times> jval) list" where
  "Names u base name prop' =
     (let p = (case prop' of None \<Rightarrow> ''name'' | Some p \<Rightarrow> p)
      in foldl (\<lambda>m (k, v). AList.update k (Str v) m) (case base of None \<Rightarrow> [] | Some m \<Rightarrow> m)
           [(p @ ''__orig'', name),
            (Camelify u (Str p), Camelify u (Str name)),
            (Snakify u (Str p) @ ''_'', Snakify u (Str name)),
            (Kebabify u (Str p) @ ''-'', Kebabify u (Str name)),
            (jsToLower u p, jsToLower u name),
            (jsToUpper u p, jsToUpper u name)])"

definition NamesP :: "Unicode \<Rightarrow> (string \<times> jval) list option \<Rightarrow> string \<Rightarrow> string \<Rightarrow> (string \<times> jval) list" where
  "NamesP u base name prop' = Names u base name (Some prop')"

end
