(* ===== verification/CasingProps.thy ===== *)
theory CasingProps
  imports Casing
begin

text \<open>
  The claims about names and cases: \<^verbatim>\<open>jsToLower\<close> is Unicode's mapping of the whole string, splitting
  into words loses nothing, and the case conversions agree with one another.
\<close>

section \<open>Characters\<close>

lemma down_char_byte: "isAsciiUpper c \<Longrightarrow> byte (down_char c) = byte c + 32"
  by (simp add: isAsciiUpper_def down_char_def)

lemma lower_char_ascii: "byte (lower_char c) < 0x80 \<longleftrightarrow> byte c < 0x80"
  by (auto simp: lower_char_def down_char_byte) (simp add: isAsciiUpper_def)

lemma lower_char_not_upper [simp]: "\<not> isAsciiUpper (lower_char c)"
proof (cases "isAsciiUpper c")
  case True
  then have "byte (lower_char c) = byte c + 32" by (simp add: lower_char_def down_char_byte)
  then show ?thesis using True by (simp add: isAsciiUpper_def)
qed (simp add: lower_char_def)

lemma lower_char_id: "\<not> isAsciiUpper c \<Longrightarrow> lower_char c = c"
  by (simp add: lower_char_def)

lemma lower_lower [simp]: "lower_char (lower_char c) = lower_char c"
  by (rule lower_char_id) simp

lemma separator_not_upper: "is_separator (byte c) \<Longrightarrow> \<not> isAsciiUpper c"
  by (auto simp: is_separator_def isAsciiUpper_def)

lemma lower_separator [simp]: "is_separator (byte (lower_char c)) = is_separator (byte c)"
proof (cases "isAsciiUpper c")
  case True
  then have "byte (lower_char c) = byte c + 32" "65 \<le> byte c" "byte c \<le> 90"
    by (simp_all add: lower_char_def down_char_byte isAsciiUpper_def)
  then show ?thesis by (auto simp: is_separator_def)
qed (simp add: lower_char_id)

lemma isASCII_simps [simp]:
  "isASCII []" "isASCII (c # s) = (byte c < 0x80 \<and> isASCII s)" "isASCII (s @ t) = (isASCII s \<and> isASCII t)"
  "isASCII (map lower_char s) = isASCII s"
  by (auto simp: isASCII_def lower_char_ascii)

lemma ascii_runes: "isASCII s \<Longrightarrow> runes s = map byte s"
proof -
  assume s: "isASCII s"
  then have "encode_runes (map byte s) = s" by (induction s) (auto simp: encode_runes_def encode_rune_def scalar_def)
  moreover have "\<forall>r \<in> set (map byte s). scalar r" using s by (auto simp: scalar_def isASCII_def)
  ultimately show ?thesis using runes_encode [of "map byte s"] by (simp add: runes_def comp_def)
qed

lemma ascii_encode: "byte c < 0x80 \<Longrightarrow> encode_rune (byte c) = [c]"
  by (simp add: encode_rune_def scalar_def)

lemma ascii_lower_map: "isASCII s \<Longrightarrow> jsToLower u s = map lower_char s"
  by (simp add: jsToLower_def)

section \<open>The mapping of a whole string\<close>

text \<open>Unicode's lower case of a list of code points: a sigma is final after a cased letter and not
  before one, both past case-ignorable characters.\<close>

definition next_cased :: "Unicode \<Rightarrow> nat list \<Rightarrow> bool" where
  "next_cased u rs = (case dropWhile (jsCaseIgnorable u) rs of [] \<Rightarrow> False | r # _ \<Rightarrow> jsCased u r)"

fun lower_spec :: "Unicode \<Rightarrow> nat list \<Rightarrow> nat list \<Rightarrow> nat list" where
  "lower_spec u before [] = []"
| "lower_spec u before (r # rs) =
     (if r = 0x0130 then [0x69, 0x0307]
      else if r = 0x03A3 then [if next_cased u (rev before) \<and> \<not> next_cased u rs then 0x03C2 else 0x03C3]
      else [u_ToLower u r]) @ lower_spec u (before @ [r]) rs"

definition ascii_tables :: "Unicode \<Rightarrow> bool" where
  "ascii_tables u = (\<forall>r < 128. u_ToLower u r = (if 65 \<le> r \<and> r \<le> 90 then r + 32 else r))"

lemma decode_last_form:
  assumes e: "e = a # cs @ [z]" and "\<not> cont (byte a)" and "\<forall>c \<in> set cs. cont (byte c)" and "length cs \<le> 2"
    and "\<not> byte z < 0x80" and d: "decode_rune e = (r, length e)"
  shows "decode_last_rune (s @ e) = (r, length e)"
proof -
  have "3 = length (map byte (rev cs)) + Suc (2 - length cs)" using assms(4) by simp
  then have near: "take 3 (map byte (rev cs @ a # rev s)) = map byte (rev cs) @ byte a # take (2 - length cs) (map byte (rev s))"
    by (simp add: take_Cons')
  have "takeWhile cont (take 3 (map byte (rev cs @ a # rev s))) = map byte (rev cs)"
    unfolding near using assms(2,3) by (subst takeWhile_append2) auto
  then have j: "length (takeWhile cont (take 3 (map byte (rev cs @ a # rev s)))) = length cs" by simp
  have l: "length cs < length (take 3 (map byte (rev cs @ a # rev s)))" unfolding near by simp
  have rv: "rev (s @ e) = z # rev cs @ a # rev s" by (simp add: e)
  have dr: "drop (length (s @ e) - (length cs + 2)) (s @ e) = e" by (simp add: e)
  have "decode_last_rune (s @ e) = (let (r, w) = decode_rune e in if w = length cs + 2 then (r, w) else (rune_error, 1))"
    unfolding decode_last_rune_def rv list.case Let_def j using l assms(5) dr by (simp only: if_True if_False)
  then show ?thesis by (simp add: d) (simp add: e)
qed

lemma decode_last_encode:
  assumes "scalar r"
  shows "decode_last_rune (s @ encode_rune r) = (r, length (encode_rune r))"
proof -
  note dec = decode_encode [OF assms, of "[]", unfolded append_Nil2] and b = encode_bytes [OF assms]
  have r: "r < 0x110000" using assms by (auto simp: scalar_def)
  have c: "cont (0x80 + x mod 64)" for x using mod_less_divisor [of 64 x] by (simp add: cont_def)
  consider "r < 0x80" | "0x80 \<le> r" "r < 0x800" | "0x800 \<le> r" "r < 0x10000" | "0x10000 \<le> r" by linarith
  then show ?thesis
  proof cases
    case 1
    then obtain z where "encode_rune r = [z]" "byte z = r" using b by (auto simp: map_eq_Cons_conv)
    then show ?thesis using 1 by (simp add: decode_last_rune_def)
  next
    case 2
    then obtain a z where e: "encode_rune r = [a, z]" "byte a = 0xC0 + r div 64" "byte z = 0x80 + r mod 64"
      using b by (auto simp: map_eq_Cons_conv)
    then show ?thesis
      by (intro decode_last_form [OF _ _ _ _ _ dec, of a "[]" z]) (simp_all add: cont_def)
  next
    case 3
    then obtain a x z where e: "encode_rune r = [a, x, z]" "byte a = 0xE0 + r div 4096" "byte x = 0x80 + r div 64 mod 64"
        "byte z = 0x80 + r mod 64"
      using b by (auto simp: map_eq_Cons_conv)
    then show ?thesis
      using c by (intro decode_last_form [OF _ _ _ _ _ dec, of a "[x]" z]) (simp_all, simp add: cont_def)
  next
    case 4
    then obtain a x y z where e: "encode_rune r = [a, x, y, z]" "byte a = 0xF0 + r div 262144" "byte x = 0x80 + r div 4096 mod 64"
        "byte y = 0x80 + r div 64 mod 64" "byte z = 0x80 + r mod 64"
      using b by (auto simp: map_eq_Cons_conv)
    then show ?thesis
      using c by (intro decode_last_form [OF _ _ _ _ _ dec, of a "[x, y]" z]) (simp_all, simp add: cont_def)
  qed
qed

lemma cased_after_spec: "cased_after u rs = next_cased u rs"
  by (induction rs) (simp_all add: next_cased_def)

lemma cased_before_spec:
  assumes "\<forall>r \<in> set rs. scalar r"
  shows "cased_before u (encode_runes rs) = next_cased u (rev rs)"
  using assms
proof (induction rs rule: rev_induct)
  case Nil
  then show ?case by (simp add: cased_before.simps encode_runes_def next_cased_def)
next
  case (snoc r rs)
  have e: "encode_runes (rs @ [r]) = encode_runes rs @ encode_rune r" by (simp add: encode_runes_def)
  show ?case
    using snoc decode_last_encode [of r "encode_runes rs"] unfolding e
    by (subst cased_before.simps) (simp add: next_cased_def)
qed

lemma lower_loop_spec:
  assumes "\<forall>r \<in> set (bs @ rs). scalar r"
  shows "lower_loop u (encode_runes (bs @ rs)) (length (encode_runes bs)) (map (\<lambda>r. (r, encode_rune r)) rs) = lower_spec u bs rs"
  using assms
proof (induction rs arbitrary: bs)
  case (Cons r rs)
  have len: "length (encode_runes bs) + length (encode_rune r) = length (encode_runes (bs @ [r]))" by (simp add: encode_runes_def)
  have "jsFinalSigma u (encode_runes (bs @ r # rs)) (length (encode_runes bs)) = (next_cased u (rev bs) \<and> \<not> next_cased u rs)"
    if "r = 0x03A3"
  proof -
    have "length (encode_rune r) = 2" by (simp add: that encode_rune_def scalar_def)
    then have "drop (length (encode_runes bs) + 2) (encode_runes (bs @ r # rs)) = encode_runes rs"
      "take (length (encode_runes bs)) (encode_runes (bs @ r # rs)) = encode_runes bs"
      by (simp_all add: encode_runes_def)
    then show ?thesis
      using Cons.prems runes_encode [of rs] cased_before_spec [of bs u]
      by (simp add: jsFinalSigma_def cased_after_spec runes_def comp_def)
  qed
  then have "lower_rune u (encode_runes (bs @ r # rs)) (length (encode_runes bs)) r =
      (if r = 0x0130 then [0x69, 0x0307]
       else if r = 0x03A3 then [if next_cased u (rev bs) \<and> \<not> next_cased u rs then 0x03C2 else 0x03C3]
       else [u_ToLower u r])"
    by (simp add: lower_rune_def)
  then show ?case using Cons.IH [of "bs @ [r]"] Cons.prems len by simp
qed simp

lemma ascii_rune: "scalar r \<Longrightarrow> isASCII (encode_rune r) \<Longrightarrow> r < 0x80"
proof (rule ccontr)
  assume r: "scalar r" "isASCII (encode_rune r)" "\<not> r < 0x80"
  have "\<forall>b \<in> set (map byte (encode_rune r)). b < 0x80" using r(2) by (simp add: isASCII_def)
  then show False using r(3) unfolding encode_bytes [OF r(1)] by (auto split: if_splits)
qed

lemma jsToLower_spec:
  assumes "\<forall>r \<in> set rs. scalar r" and "ascii_tables u"
  shows "jsToLower u (encode_runes rs) = encode_runes (lower_spec u [] rs)"
proof (cases "isASCII (encode_runes rs)")
  case False
  then show ?thesis
    using lower_loop_spec [of "[]" rs u] runes_encode [OF assms(1)] assms(1) by (simp add: jsToLower_def encode_runes_def)
next
  case True
  have small: "\<forall>r \<in> set rs. r < 0x80"
    using True assms(1) ascii_rune by (auto simp: isASCII_def encode_runes_def)
  then have "map lower_char (encode_runes rs) = encode_runes (lower_spec u bs rs)" for bs
  proof (induction rs arbitrary: bs)
    case (Cons r rs)
    have "encode_rune r = [char_of r]" using Cons.prems by (simp add: encode_rune_def scalar_def)
    moreover have "lower_spec u bs (r # rs) = u_ToLower u r # lower_spec u (bs @ [r]) rs" using Cons.prems by auto
    moreover have "encode_rune (u_ToLower u r) = [lower_char (char_of r)]"
      using Cons.prems assms(2)
      by (auto simp: ascii_tables_def encode_rune_def scalar_def lower_char_def isAsciiUpper_def down_char_def)
    ultimately show ?case using Cons by (simp add: encode_runes_def)
  qed (simp add: encode_runes_def)
  then show ?thesis using True by (simp add: jsToLower_def)
qed

section \<open>Names\<close>

text \<open>Valid text in which only ASCII letters have a small form other than themselves: every ASCII name,
  and those in scripts without case or in small letters.\<close>

definition plain_rune :: "Unicode \<Rightarrow> nat \<Rightarrow> bool" where
  "plain_rune u r = (scalar r \<and> (0x80 \<le> r \<longrightarrow> u_ToLower u r = r \<and> r \<noteq> 0x0130 \<and> r \<noteq> 0x03A3))"

definition plain_name :: "Unicode \<Rightarrow> string \<Rightarrow> bool" where
  "plain_name u s = (\<exists>rs. s = encode_runes rs \<and> (\<forall>r \<in> set rs. plain_rune u r))"

lemma encode_runes_simps [simp]:
  "encode_runes [] = []" "encode_runes (r # rs) = encode_rune r @ encode_runes rs"
  "encode_runes (rs @ qs) = encode_runes rs @ encode_runes qs"
  by (simp_all add: encode_runes_def)

lemma plain_scalar: "plain_rune u r \<Longrightarrow> scalar r"
  by (simp add: plain_rune_def)

lemma plain_Nil [simp]: "plain_name u []"
  unfolding plain_name_def by (rule exI [of _ "[]"]) simp

lemma plain_append [simp]: "plain_name u s \<Longrightarrow> plain_name u t \<Longrightarrow> plain_name u (s @ t)"
  unfolding plain_name_def by (elim exE conjE, rule_tac x = "rs @ rsa" in exI) auto

lemma plain_rune_name [simp]: "plain_rune u r \<Longrightarrow> plain_name u (encode_rune r)"
  unfolding plain_name_def by (rule exI [of _ "[r]"]) simp

lemma plain_concat: "\<forall>p \<in> set ps. plain_name u p \<Longrightarrow> plain_name u (concat ps)"
  by (induction ps) simp_all

lemma ascii_plain: "isASCII s \<Longrightarrow> plain_name u s"
  unfolding plain_name_def
  by (intro exI [of _ "map byte s"], induction s) (auto simp: ascii_encode plain_rune_def scalar_def)

lemma high_bytes: "scalar r \<Longrightarrow> \<not> r < 0x80 \<Longrightarrow> c \<in> set (encode_rune r) \<Longrightarrow> 0x80 \<le> byte c"
proof -
  assume r: "scalar r" "\<not> r < 0x80" "c \<in> set (encode_rune r)"
  then have "byte c \<in> set (map byte (encode_rune r))" by simp
  then show ?thesis using r(2) unfolding encode_bytes [OF r(1)] by (auto split: if_splits)
qed

text \<open>A word: capital letters at its head only, and no separator.\<close>

definition word :: "string \<Rightarrow> bool" where
  "word p = (p \<noteq> [] \<and> (\<forall>c \<in> set p. \<not> is_separator (byte c)) \<and> (\<forall>c \<in> set (tl p). \<not> isAsciiUpper c))"

definition small :: "string \<Rightarrow> bool" where
  "small p = (\<forall>c \<in> set p. \<not> is_separator (byte c) \<and> \<not> isAsciiUpper c)"

lemma high_small: "scalar r \<Longrightarrow> \<not> r < 0x80 \<Longrightarrow> small (encode_rune r)"
  using high_bytes by (fastforce simp: small_def is_separator_def isAsciiUpper_def)

lemma lower_high: "scalar r \<Longrightarrow> \<not> r < 0x80 \<Longrightarrow> map lower_char (encode_rune r) = encode_rune r"
  using high_small by (auto simp: small_def lower_char_id intro!: map_idI)

text \<open>Lower case is bytewise on such a name.\<close>

lemma plain_lower:
  assumes "ascii_tables u" and "plain_name u s"
  shows "jsToLower u s = map lower_char s"
proof -
  obtain rs where rs: "s = encode_runes rs" "\<forall>r \<in> set rs. plain_rune u r" using assms(2) by (auto simp: plain_name_def)
  have "encode_runes (lower_spec u bs rs) = map lower_char (encode_runes rs)" for bs
    using rs(2)
  proof (induction rs arbitrary: bs)
    case (Cons r rs)
    have r: "plain_rune u r" and ih: "encode_runes (lower_spec u (bs @ [r]) rs) = map lower_char (encode_runes rs)" using Cons by simp_all
    have "encode_runes (lower_spec u bs (r # rs)) = encode_rune (u_ToLower u r) @ map lower_char (encode_runes rs)"
      using ih r by (auto simp: plain_rune_def)
    moreover have "encode_rune (u_ToLower u r) = map lower_char (encode_rune r)"
    proof (cases "r < 0x80")
      case True
      then show ?thesis using assms(1)
        by (auto simp: ascii_tables_def encode_rune_def scalar_def lower_char_def isAsciiUpper_def down_char_def)
    qed (use r lower_high [of r] in \<open>simp add: plain_rune_def\<close>)
    ultimately show ?case by simp
  qed simp
  then show ?thesis using jsToLower_spec [OF _ assms(1)] rs plain_scalar by metis
qed

lemma collapse_lower: "map lower_char (collapseAcronyms s) = map lower_char s"
proof (induction s rule: collapseAcronyms.induct)
  case (2 c s)
  show ?case
  proof (cases "isAsciiUpper c")
    case False
    then show ?thesis using 2(1) by simp
  next
    case True
    define run rest where "run = takeWhile isAsciiUpper (c # s)" and "rest = dropWhile isAsciiUpper (c # s)"
    define e where "e = (if rest \<noteq> [] \<and> isAsciiLower (hd rest) then length run - 1 else length run)"
    note ih = 2(2,3) [OF _ run_def rest_def e_def]
    have eq: "collapseAcronyms (c # s) = (if e < 2 then c # collapseAcronyms s
        else c # map down_char (drop 1 (take e run)) @ collapseAcronyms (drop e (c # s)))"
      using True by (simp only: collapseAcronyms.simps(2) Let_def run_def rest_def e_def if_False not_True_eq_False)
    show ?thesis
    proof (cases "e < 2")
      case less: True
      then have "collapseAcronyms (c # s) = c # collapseAcronyms s"
        unfolding eq by simp
      then show ?thesis using ih(1) True less by simp
    next
      case False
      then have c: "collapseAcronyms (c # s) = c # map down_char (drop 1 (take e run)) @ collapseAcronyms (drop e (c # s))"
        unfolding eq by simp
      have le: "e \<le> length run" by (simp add: e_def)
      have t: "take e run = take e (c # s)"
        using le takeWhile_dropWhile_id [of isAsciiUpper "c # s"] by (metis run_def take_append diff_is_0_eq take0 append_Nil2)
      have up: "\<forall>x \<in> set (take e run). isAsciiUpper x"
        using set_takeWhileD [of _ isAsciiUpper "c # s"] by (auto simp: run_def dest: in_set_takeD)
      have "map lower_char (map down_char (drop 1 (take e run))) = map lower_char (drop 1 (take e run))"
        using up by (auto dest!: in_set_dropD) (metis lower_char_def lower_lower)
      moreover have "e = Suc (e - 1)" using False by simp
      then have "c # drop 1 (take e run) = take e (c # s)" unfolding t by (metis drop0 drop_Suc_Cons One_nat_def take_Suc_Cons)
      ultimately have "map lower_char (collapseAcronyms (c # s)) = map lower_char (take e (c # s)) @ map lower_char (drop e (c # s))"
        using ih(2) True False unfolding c by (metis list.simps(9) map_append append_Cons)
      then show ?thesis by (metis append_take_drop_id map_append)
    qed
  qed
qed simp

lemma collapse_none: "\<forall>c \<in> set s. \<not> isAsciiUpper c \<Longrightarrow> collapseAcronyms s = s"
  by (induction s) auto

text \<open>A text that differs in ASCII case only is such a name too.\<close>

lemma plain_same_lower:
  assumes "plain_name u s" and "map lower_char t = map lower_char s"
  shows "plain_name u t"
proof -
  obtain rs where rs: "s = encode_runes rs" "\<forall>r \<in> set rs. plain_rune u r" using assms(1) by (auto simp: plain_name_def)
  show ?thesis
    using assms(2) rs(2) unfolding rs(1)
  proof (induction rs arbitrary: t)
    case (Cons r rs)
    have r: "plain_rune u r" "scalar r" using Cons.prems(2) plain_scalar by auto
    from Cons.prems(1) obtain t1 t2 where t: "t = t1 @ t2" "map lower_char t1 = map lower_char (encode_rune r)"
      "map lower_char t2 = map lower_char (encode_runes rs)" by (auto simp: map_eq_append_conv)
    have "plain_name u t1"
    proof (cases "r < 0x80")
      case True
      then have "isASCII (encode_rune r)" by (simp add: encode_rune_def scalar_def)
      then have "isASCII t1" using t(2) by (metis isASCII_simps(4))
      then show ?thesis by (rule ascii_plain)
    next
      case False
      have "t1 = encode_rune r"
      proof (rule nth_equalityI)
        show l: "length t1 = length (encode_rune r)" using arg_cong [OF t(2), of length] by simp
        fix i assume i: "i < length t1"
        then have "lower_char (t1 ! i) = encode_rune r ! i"
          using t(2) lower_high [OF r(2) False] l by (metis nth_map)
        moreover have "0x80 \<le> byte (encode_rune r ! i)" using high_bytes [OF r(2) False] i l by simp
        ultimately show "t1 ! i = encode_rune r ! i"
          using lower_char_ascii [of "t1 ! i"] by (auto simp: lower_char_def isAsciiUpper_def split: if_splits)
      qed
      then show ?thesis using r(1) by simp
    qed
    then show ?case using Cons.IH [OF t(3)] Cons.prems(2) t(1) by simp
  qed simp
qed

lemma plain_collapse: "plain_name u s \<Longrightarrow> plain_name u (collapseAcronyms s)"
  using plain_same_lower collapse_lower by metis

section \<open>Splitting into words\<close>

text \<open>The split of a valid text, over its bytes.\<close>

fun split_chars :: "string \<Rightarrow> string \<Rightarrow> string list" where
  "split_chars cur [] = flush_part cur"
| "split_chars cur (c # s) =
     (if is_separator (byte c) then flush_part cur @ split_chars [] s
      else if isAsciiUpper c then flush_part cur @ [c] # split_chars [] s
      else split_chars (cur @ [c]) s)"

lemma split_small: "small q \<Longrightarrow> split_chars cur (q @ t) = split_chars (cur @ q) t"
  by (induction q arbitrary: cur) (simp_all add: small_def)

lemma split_concat: "concat (split_chars cur s) = cur @ filter (\<lambda>c. \<not> is_separator (byte c)) s"
  by (induction s arbitrary: cur) (simp_all add: flush_part_def)

lemma split_runes:
  "\<forall>r \<in> set rs. scalar r \<Longrightarrow> split_loop cur rs = split_chars cur (encode_runes rs)"
proof (induction rs arbitrary: cur)
  case (Cons r rs)
  show ?case
  proof (cases "r < 0x80")
    case True
    then have e: "encode_rune r = [char_of r]" "byte (char_of r) = r" by (simp_all add: encode_rune_def scalar_def)
    then show ?thesis using Cons by (simp add: isAsciiUpper_def)
  next
    case False
    then show ?thesis using Cons high_small [of r] by (simp add: split_small is_separator_def)
  qed
qed simp

lemma split_name: "plain_name u s \<Longrightarrow> splitOnUpperAndSeps s = split_chars [] s"
proof -
  assume "plain_name u s"
  then obtain rs where rs: "s = encode_runes rs" "\<forall>r \<in> set rs. scalar r" using plain_scalar by (auto simp: plain_name_def)
  then have "runes s = rs" using runes_encode [of rs] by (simp add: runes_def comp_def)
  then show ?thesis using split_runes [OF rs(2)] rs(1) by (simp add: splitOnUpperAndSeps_def)
qed

lemma split_plain:
  "\<forall>r \<in> set rs. plain_rune u r \<Longrightarrow> plain_name u cur \<Longrightarrow> \<forall>p \<in> set (split_loop cur rs). plain_name u p"
proof (induction rs arbitrary: cur)
  case (Cons r rs)
  then have "plain_rune u r" "plain_name u (encode_rune r)" by simp_all
  then show ?case
    using Cons.IH [of "[]"] Cons.IH [of "cur @ encode_rune r"] Cons.prems by (auto simp: flush_part_def)
qed (simp add: flush_part_def)

lemma split_pieces:
  "small cur \<Longrightarrow> \<forall>p \<in> set (split_chars cur s). small p \<and> p \<noteq> [] \<or> (\<exists>c. p = [c] \<and> isAsciiUpper c)"
proof (induction s arbitrary: cur)
  case (Cons c s)
  have flush: "\<forall>p \<in> set (flush_part cur). small p \<and> p \<noteq> []" using Cons.prems by (simp add: flush_part_def)
  have nil: "small []" by (simp add: small_def)
  consider "is_separator (byte c)" | "\<not> is_separator (byte c)" "isAsciiUpper c" | "\<not> is_separator (byte c)" "\<not> isAsciiUpper c"
    by blast
  then show ?case
  proof cases
    case 3
    then have "small (cur @ [c])" using Cons.prems by (simp add: small_def)
    then show ?thesis using 3 Cons.IH [of "cur @ [c]"] by simp
  qed (use flush Cons.IH [OF nil] in auto)
qed (auto simp: flush_part_def)

lemma in_tl: "x \<in> set (tl p) \<Longrightarrow> x \<in> set p"
  by (cases p) auto

lemma glue_words:
  assumes "\<forall>p \<in> set ps. small p \<and> p \<noteq> [] \<or> (\<exists>c. p = [c] \<and> isAsciiUpper c)"
  shows "concat (glueInitials ps) = concat ps" and "\<forall>p \<in> set (glueInitials ps). word p"
proof -
  have "concat (foldl glue_step out ps) = concat out @ concat ps \<and> (\<forall>p \<in> set (foldl glue_step out ps). word p)"
    if "\<forall>p \<in> set out. word p" for out
    using that assms
  proof (induction ps arbitrary: out)
    case (Cons p ps)
    have p: "small p \<and> p \<noteq> [] \<or> (\<exists>c. p = [c] \<and> isAsciiUpper c)" using Cons.prems(2) by simp
    then have wp: "word p"
      using separator_not_upper by (auto simp: word_def small_def dest: in_tl)
    have "concat (glue_step out p) = concat out @ p \<and> (\<forall>q \<in> set (glue_step out p). word q)"
    proof (cases "out \<noteq> [] \<and> length (last out) = 1 \<and> isAsciiUpper (hd (last out)) \<and> p \<noteq> [] \<and> \<not> isAsciiUpper (hd p)")
      case True
      then obtain os l where out: "out = os @ [l]" by (metis append_butlast_last_id)
      obtain c where c: "l = [c]" using True by (cases l) (auto simp: out)
      have "small p" using p True by auto
      then have "word (l @ p)" using Cons.prems(1) by (auto simp: c out word_def small_def)
      moreover have "glue_step out p = os @ [l @ p]" using True by (simp add: glue_step_def out)
      ultimately show ?thesis using Cons.prems(1) by (simp add: out)
    qed (use Cons.prems(1) wp in \<open>auto simp: glue_step_def\<close>)
    then show ?case using Cons.IH [of "glue_step out p"] Cons.prems(2) by simp
  qed simp
  from this [of "[]"] show "concat (glueInitials ps) = concat ps" "\<forall>p \<in> set (glueInitials ps). word p"
    by (simp_all add: glueInitials_def)
qed

lemma glue_plain: "\<forall>p \<in> set ps. plain_name u p \<Longrightarrow> \<forall>p \<in> set (glueInitials ps). plain_name u p"
proof -
  have "\<forall>p \<in> set (foldl glue_step out ps). plain_name u p" if "\<forall>p \<in> set out. plain_name u p" "\<forall>p \<in> set ps. plain_name u p" for out
    using that
  proof (induction ps arbitrary: out)
    case (Cons p ps)
    have "\<forall>q \<in> set (glue_step out p). plain_name u q"
      using Cons.prems by (auto simp: glue_step_def dest: in_set_butlastD)
    then show ?case using Cons.IH [of "glue_step out p"] Cons.prems(2) by simp
  qed simp
  from this [of "[]"] show "\<forall>p \<in> set ps. plain_name u p \<Longrightarrow> ?thesis" by (simp add: glueInitials_def)
qed

lemma partify_plain:
  assumes "plain_name u s"
  shows "concat (Partify (Str s)) = filter (\<lambda>c. \<not> is_separator (byte c)) (collapseAcronyms s)"
    and "\<forall>p \<in> set (Partify (Str s)). word p \<and> plain_name u p"
proof -
  let ?t = "collapseAcronyms s"
  note t = plain_collapse [OF assms]
  have "small []" by (simp add: small_def)
  note g = glue_words [OF split_pieces [OF this, of ?t]]
  show "concat (Partify (Str s)) = filter (\<lambda>c. \<not> is_separator (byte c)) ?t"
    using g(1) split_concat [of "[]" ?t] by (simp add: Partify_def split_name [OF t])
  obtain rs where rs: "?t = encode_runes rs" "\<forall>r \<in> set rs. plain_rune u r" using t by (auto simp: plain_name_def)
  then have "split_loop [] rs = split_chars [] ?t" using split_runes plain_scalar by metis
  then have "\<forall>p \<in> set (split_chars [] ?t). plain_name u p" using split_plain [OF rs(2) plain_Nil] by simp
  then show "\<forall>p \<in> set (Partify (Str s)). word p \<and> plain_name u p"
    using g(2) glue_plain by (auto simp: Partify_def split_name [OF t])
qed

text \<open>Splitting a name into words loses nothing: up to ASCII case, the words of a name are its
  characters in order without the separators; and each word is not empty, holds no separator, and
  has a capital of ASCII at its head only.\<close>

lemma words_lose_nothing:
  assumes "plain_name u s"
  shows "map lower_char (concat (Partify (Str s))) = map lower_char (filter (\<lambda>c. \<not> is_separator (byte c)) s) \<and>
    (\<forall>p \<in> set (Partify (Str s)). word p)"
proof -
  have f: "map lower_char (filter (\<lambda>c. \<not> is_separator (byte c)) t) = filter (\<lambda>c. \<not> is_separator (byte c)) (map lower_char t)" for t
    by (induction t) simp_all
  then show ?thesis using partify_plain [OF assms] collapse_lower [of s] by simp
qed

section \<open>The cases agree\<close>

lemma split_joined:
  assumes "\<forall>q \<in> set qs. small q \<and> q \<noteq> []" and "is_separator (byte d)"
  shows "split_chars [] (join_with [d] qs) = qs"
  using assms
proof (induction "[d]" qs rule: join_with.induct)
  case (2 w)
  then show ?case using split_small [of w "[]" "[]"] by (simp add: flush_part_def)
next
  case (3 w v ws)
  then show ?case using split_small [of w "[]" "d # join_with [d] (v # ws)"] by (simp add: flush_part_def)
qed (simp add: flush_part_def)

lemma glue_small:
  assumes "\<forall>q \<in> set qs. small q \<and> q \<noteq> []"
  shows "glueInitials qs = qs"
proof -
  have "foldl glue_step out qs = out @ qs" if "\<forall>q \<in> set out. small q \<and> q \<noteq> []" for out
    using that assms
  proof (induction qs arbitrary: out)
    case (Cons q qs)
    have "\<not> isAsciiUpper (hd (last out))" if "out \<noteq> []"
      using Cons.prems(1) last_in_set [OF that] hd_in_set [of "last out"] by (auto simp: small_def)
    then have "glue_step out q = out @ [q]" by (auto simp: glue_step_def)
    then show ?case using Cons.IH [of "out @ [q]"] Cons.prems by simp
  qed simp
  from this [of "[]"] show ?thesis by (simp add: glueInitials_def)
qed

lemma small_not_upper: "\<forall>q \<in> set qs. small q \<and> q \<noteq> [] \<Longrightarrow> is_separator (byte d) \<Longrightarrow> \<forall>c \<in> set (join_with [d] qs). \<not> isAsciiUpper c"
  using separator_not_upper by (induction "[d]" qs rule: join_with.induct) (auto simp: small_def)

lemma join_plain: "\<forall>q \<in> set qs. plain_name u q \<Longrightarrow> byte d < 0x80 \<Longrightarrow> plain_name u (join_with [d] qs)"
  by (induction "[d]" qs rule: join_with.induct) (auto intro!: plain_append ascii_plain [of "[d]", simplified] simp del: append_Cons simp flip: append_Cons)

lemma join_Nil: "join_with [d] qs = [] \<Longrightarrow> \<forall>q \<in> set qs. q \<noteq> [] \<Longrightarrow> qs = []"
  by (induction "[d]" qs rule: join_with.induct) auto

lemma partify_joined:
  assumes "\<forall>q \<in> set qs. small q \<and> q \<noteq> []" "\<forall>q \<in> set qs. plain_name u q" "is_separator (byte d)" "byte d < 0x80"
  shows "Partify (Str (join_with [d] qs)) = qs"
proof (cases "join_with [d] qs = []")
  case True
  then show ?thesis using join_Nil [of d qs] assms(1) by (auto simp: Partify_def)
next
  case False
  have "splitOnUpperAndSeps (join_with [d] qs) = qs"
    using split_name [OF join_plain [OF assms(2,4)]] split_joined [OF assms(1,3)] by simp
  then show ?thesis
    using False collapse_none [OF small_not_upper [OF assms(1,3)]] glue_small [OF assms(1)] by (simp add: Partify_def)
qed

lemma word_lower: "word p \<Longrightarrow> small (map lower_char p) \<and> map lower_char p \<noteq> []"
  by (auto simp: word_def small_def)

lemma UCF_lower:
  assumes "word p"
  shows "UCF u (Str (map lower_char p)) = UCF u (Str p)"
proof -
  obtain c s where p: "p = c # s" using assms(1) by (cases p) (auto simp: word_def)
  have "map lower_char s = s" using assms(1) p by (auto simp: word_def lower_char_id intro!: map_idI)
  moreover have "up_char (down_char c) = c" "isAsciiLower (down_char c)" "\<not> isAsciiLower c" "byte c < 128" if "isAsciiUpper c"
    using that down_char_byte [OF that] by (auto simp: up_char_def isAsciiLower_def isAsciiUpper_def)
  ultimately show ?thesis
    using lower_char_ascii [of c] by (cases "isAsciiUpper c") (auto simp: p UCF_def lower_char_def)
qed

lemma joined_words:
  assumes "ascii_tables u" and "plain_name u s" and "is_separator (byte d)" and "byte d < 0x80"
  shows "Partify (Str (join_with [d] (map (jsToLower u) (Partify (Str s))))) = map (map lower_char) (Partify (Str s))"
proof -
  let ?P = "Partify (Str s)"
  note P = partify_plain(2) [OF assms(2)]
  have l: "map (jsToLower u) ?P = map (map lower_char) ?P"
    using P plain_lower [OF assms(1)] by simp
  have "\<forall>q \<in> set (map (map lower_char) ?P). plain_name u q"
    using P plain_same_lower [of u _ "map lower_char _"] by (auto simp: comp_def)
  then show ?thesis unfolding l using P word_lower by (intro partify_joined [OF _ _ assms(3,4)]) auto
qed

text \<open>C35: the conversions agree: a name that is converted to snake or kebab case and then to a second case
  gives what the second conversion gives of the name itself. So no order of conversions matters, and
  each of the two can be repeated. The name is to be valid text whose only letters with another small
  form are ASCII letters: any ASCII name, say, or one with small letters of other scripts beside them.\<close>

theorem cases_agree:
  assumes "ascii_tables u" and "plain_name u s" and "t = Snakify u (Str s) \<or> t = Kebabify u (Str s)"
  shows "Snakify u (Str t) = Snakify u (Str s) \<and> Kebabify u (Str t) = Kebabify u (Str s) \<and>
    Camelify u (Str t) = Camelify u (Str s)"
proof -
  let ?P = "Partify (Str s)"
  note P = partify_plain(2) [OF assms(2)]
  have "Partify (Str t) = map (map lower_char) ?P"
    using assms(3) joined_words [OF assms(1,2), of "CHR ''_''"] joined_words [OF assms(1,2), of "CHR ''-''"]
    by (auto simp: Snakify_def Kebabify_def is_separator_def)
  moreover have "jsToLower u (map lower_char p) = jsToLower u p" if "p \<in> set ?P" for p
    using P that plain_lower [OF assms(1)] plain_same_lower [of u p "map lower_char p"] by (simp add: comp_def)
  moreover have "UCF u (Str (map lower_char p)) = UCF u (Str p)" if "p \<in> set ?P" for p
    using UCF_lower P that by blast
  ultimately show ?thesis by (simp add: Snakify_def Kebabify_def Camelify_def comp_def if_distrib cong: map_cong if_cong)
qed

definition asciiUnicode :: Unicode where
  "asciiUnicode = \<lparr>u_ToUpper = (\<lambda>r. if 97 \<le> r \<and> r \<le> 122 then r - 32 else r), u_ToLower = (\<lambda>r. if 65 \<le> r \<and> r \<le> 90 then r + 32 else r),
     u_IsUpper = (\<lambda>r. 65 \<le> r \<and> r \<le> 90 \<or> r = 0x3A3), u_IsLower = (\<lambda>r. 97 \<le> r \<and> r \<le> 122), u_IsTitle = (\<lambda>r. False),
     u_Other_Lowercase = (\<lambda>r. False), u_Other_Uppercase = (\<lambda>r. False), u_Mn = (\<lambda>r. False), u_Me = (\<lambda>r. False),
     u_Cf = (\<lambda>r. False), u_Lm = (\<lambda>r. False), u_Sk = (\<lambda>r. r = 94 \<or> r = 96)\<rparr>"

lemma ascii_tables_ascii: "ascii_tables asciiUnicode"
  by (simp add: ascii_tables_def asciiUnicode_def)

theorem cases_agree_witness:
  "Camelify asciiUnicode (Str ''xml_parser'') = ''XmlParser'' \<and> Camelify asciiUnicode (Str ''XMLParser'') = ''XmlParser''"
proof -
  have d: "down_char (CHR ''M'') = CHR ''m''" "down_char (CHR ''L'') = CHR ''l''" "down_char (CHR ''X'') = CHR ''x''"
    "down_char (CHR ''P'') = CHR ''p''"
    by code_simp+
  have p: "Partify (Str ''XMLParser'') = [''Xml'', ''Parser'']"
    by (simp add: Partify_def split_name [OF ascii_plain] isAsciiUpper_def isAsciiLower_def is_separator_def flush_part_def
        glueInitials_def glue_step_def d)
  have s: "Snakify asciiUnicode (Str ''XMLParser'') = ''xml_parser''"
    by (simp add: Snakify_def p jsToLower_def lower_char_def isAsciiUpper_def d)
  have c: "Camelify asciiUnicode (Str ''XMLParser'') = ''XmlParser''"
    by (simp add: Camelify_def p UCF_def isAsciiLower_def)
  show ?thesis using cases_agree [OF ascii_tables_ascii ascii_plain, of "''XMLParser''" "''xml_parser''"] s c by simp
qed

text \<open>A capital of another script is lowered by snake case and is no start of a word, so camel case does
  not get it back.\<close>

definition latinUnicode :: Unicode where
  "latinUnicode = asciiUnicode\<lparr>u_ToLower := (\<lambda>r. if r = 0xC9 then 0xE9 else u_ToLower asciiUnicode r)\<rparr>"

lemma partify_one:
  assumes "\<forall>r \<in> set rs. scalar r" and "small (encode_runes rs)" and "encode_runes rs \<noteq> []"
  shows "Partify (Str (encode_runes rs)) = [encode_runes rs]"
proof -
  have "runes (encode_runes rs) = rs" using runes_encode [OF assms(1)] by (simp add: runes_def comp_def)
  then have "splitOnUpperAndSeps (encode_runes rs) = [encode_runes rs]"
    using split_runes [OF assms(1), of "[]"] split_small [OF assms(2), of "[]" "[]"] assms(3)
    by (simp add: splitOnUpperAndSeps_def flush_part_def)
  moreover have "collapseAcronyms (encode_runes rs) = encode_runes rs"
    by (rule collapse_none) (use assms(2) in \<open>simp add: small_def\<close>)
  ultimately show ?thesis using assms(3) by (simp add: Partify_def glueInitials_def glue_step_def)
qed

lemma cases_differ_beyond:
  "let s = encode_runes [0x61, 0xC9, 0x62]
   in Camelify latinUnicode (Str (Snakify latinUnicode (Str s))) \<noteq> Camelify latinUnicode (Str s)"
proof -
  have sc: "\<forall>r \<in> set [0x61, r, 0x62]. scalar r" if "r < 0x100" for r using that by (simp add: scalar_def)
  have e: "encode_runes [0x61, 0xC9, 0x62] = [char_of (0x61 :: nat), char_of (0xC3 :: nat), char_of (0x89 :: nat), char_of (0x62 :: nat)]"
    "encode_runes [0x61, 0xE9, 0x62] = [char_of (0x61 :: nat), char_of (0xC3 :: nat), char_of (0xA9 :: nat), char_of (0x62 :: nat)]"
    by (simp_all add: encode_rune_def scalar_def)
  have "small (encode_runes [0x61, 0xC9, 0x62])" "small (encode_runes [0x61, 0xE9, 0x62])"
    unfolding e by (simp_all add: small_def is_separator_def isAsciiUpper_def)
  then have p: "Partify (Str (encode_runes [0x61, 0xC9, 0x62])) = [encode_runes [0x61, 0xC9, 0x62]]"
    "Partify (Str (encode_runes [0x61, 0xE9, 0x62])) = [encode_runes [0x61, 0xE9, 0x62]]"
    by (intro partify_one sc; simp add: e)+
  have "ascii_tables latinUnicode" by (simp add: ascii_tables_def latinUnicode_def asciiUnicode_def)
  moreover have "\<forall>r \<in> set [0x61, 0xC9, 0x62]. scalar r" by (rule sc) simp
  ultimately have "jsToLower latinUnicode (encode_runes [0x61, 0xC9, 0x62]) = encode_runes (lower_spec latinUnicode [] [0x61, 0xC9, 0x62])"
    by (intro jsToLower_spec)
  then have "Snakify latinUnicode (Str (encode_runes [0x61, 0xC9, 0x62])) = encode_runes [0x61, 0xE9, 0x62]"
    by (simp add: Snakify_def p latinUnicode_def asciiUnicode_def del: encode_runes_simps)
  moreover have "Camelify latinUnicode (Str (encode_runes [0x61, 0xE9, 0x62])) \<noteq> Camelify latinUnicode (Str (encode_runes [0x61, 0xC9, 0x62]))"
    unfolding Camelify_def p by (simp add: e UCF_def isAsciiLower_def del: encode_runes_simps)
  ultimately show ?thesis unfolding Let_def by metis
qed

text \<open>C36: \<^verbatim>\<open>jsToLower\<close>, which maps ASCII text byte by byte and finds a sigma's place by decoding
  backwards from it, is Unicode's mapping of the whole text: on every list of code points it gives the
  encoding of their lower case, with each sigma final exactly where it ends a word.\<close>

theorem jsToLower_is_unicode:
  assumes "\<forall>r \<in> set rs. scalar r" and "ascii_tables u"
  shows "jsToLower u (encode_runes rs) = encode_runes (lower_spec u [] rs)"
  by (rule jsToLower_spec [OF assms])

theorem jsToLower_is_unicode_witness:
  "jsToLower asciiUnicode (encode_runes [0x41, 0x03A3]) = encode_runes [0x61, 0x03C2]"
proof -
  have tables: "ascii_tables asciiUnicode" by (simp add: ascii_tables_def asciiUnicode_def)
  have "\<forall>r \<in> set [0x41, 0x03A3]. scalar r" by (simp add: scalar_def)
  from jsToLower_is_unicode [OF this tables] show ?thesis
    by (simp add: next_cased_def jsCaseIgnorable_def jsCased_def asciiUnicode_def)
qed

end
