(* ===== verification/MapUtil.thy ===== *)
theory MapUtil
  imports JsValue "HOL-Library.AList"
begin

text \<open>
  The helpers on maps of \<^verbatim>\<open>go/util.go\<close>: \<^verbatim>\<open>Deep\<close>, \<^verbatim>\<open>CMap\<close>, \<^verbatim>\<open>VMap\<close> and \<^verbatim>\<open>OMap\<close>. A map is the list of
  its fields. \<^verbatim>\<open>Deep\<close> allocates the maps and slices it returns; \<open>n\<close> is the next free address.
\<close>

section \<open>Deep\<close>

fun mergeOne :: "nat \<Rightarrow> jval \<Rightarrow> jval \<Rightarrow> nat \<times> jval"
  and merge_fields :: "nat \<Rightarrow> (string \<times> jval) list \<Rightarrow> (string \<times> jval) list \<Rightarrow> nat \<times> (string \<times> jval) list"
  and merge_items :: "nat \<Rightarrow> jval list \<Rightarrow> jval list \<Rightarrow> nat \<times> jval list" where
  "mergeOne n Null src = (n, src)"
| "mergeOne n (Obj a dm) (Obj b sm) = (let (n', out) = merge_fields (Suc n) dm sm in (n', Obj n out))"
| "mergeOne n (Arr AnySlice a ds) (Arr AnySlice b ss) = (let (n', out) = merge_items (Suc n) ds ss in (n', Arr AnySlice n out))"
| "mergeOne n dst src = (n, src)"
| "merge_fields n out [] = (n, out)"
| "merge_fields n out ((k, v) # sm) =
     (case map_of out k of
        Some cur \<Rightarrow> (let (n', r) = mergeOne n cur v in merge_fields n' (AList.update k r out) sm)
      | None \<Rightarrow> merge_fields n (AList.update k v out) sm)"
| "merge_items n ds [] = (n, ds)"
| "merge_items n [] (v # ss) = (n, v # ss)"
| "merge_items n (d # ds) (v # ss) =
     (let (n', r) = mergeOne n d v; (n'', out) = merge_items n' ds ss in (n'', r # out))"

definition Deep :: "nat \<Rightarrow> jval \<Rightarrow> jval list \<Rightarrow> nat \<times> jval" where
  "Deep n dst srcs = foldl (\<lambda>(n, out) src. mergeOne n out src) (n, dst) srcs"

section \<open>Projections\<close>

datatype CMapSentinel = CMapCopy | CMapFilter | CMapKey

text \<open>What a transform may return: a value, or one of the sentinels.\<close>

datatype cany = Plain jval | Sentinel CMapSentinel

record CMapCtx =
  cx_SKey :: string
  cx_Self :: jval
  cx_Key :: string
  cx_Parent :: "(string \<times> jval) list"

datatype cspec = Transform "jval \<Rightarrow> CMapCtx \<Rightarrow> cany" | Spec cany

definition sortedKeys :: "(string \<times> 'a) list \<Rightarrow> string list" where "sortedKeys m = sortJS (map fst m)"

definition cmapApply :: "cspec \<Rightarrow> jval \<Rightarrow> string \<Rightarrow> string \<Rightarrow> (string \<times> jval) list \<Rightarrow> cany" where
  "cmapApply spec self key sk parent =
     (let v = (case jsProp self sk of None \<Rightarrow> Null | Some v \<Rightarrow> v)
      in (case spec of
            Transform fn \<Rightarrow> fn v \<lparr>cx_SKey = sk, cx_Self = self, cx_Key = key, cx_Parent = parent\<rparr>
          | Spec (Sentinel s) \<Rightarrow>
              (case s of
                 CMapCopy \<Rightarrow> Plain v
               | CMapKey \<Rightarrow> Plain (Str key)
               | CMapFilter \<Rightarrow> (if jsTruthy v then Plain v else Sentinel CMapFilter))
          | Spec (Plain x) \<Rightarrow> Plain x))"

text \<open>The inner loop: the entry of one child, or None when a field drops it.\<close>

fun cmap_entry ::
  "(string \<times> jval) list \<Rightarrow> (string \<times> cspec) list \<Rightarrow> string \<Rightarrow> jval \<Rightarrow> string list \<Rightarrow> (string \<times> cany) list \<Rightarrow> (string \<times> cany) list option" where
  "cmap_entry obj p key child [] entry = Some entry"
| "cmap_entry obj p key child (sk # sks) entry =
     (case map_of p sk of
        None \<Rightarrow> cmap_entry obj p key child sks entry
      | Some sv \<Rightarrow>
          (case cmapApply sv child key sk obj of
             Sentinel CMapFilter \<Rightarrow> None
           | val \<Rightarrow> cmap_entry obj p key child sks (AList.update sk val entry)))"

definition cmap_entries :: "(string \<times> jval) list \<Rightarrow> (string \<times> cspec) list \<Rightarrow> (string \<times> (string \<times> cany) list) list" where
  "cmap_entries obj p =
     List.map_filter (\<lambda>key. case map_of obj key of
        None \<Rightarrow> None
      | Some child \<Rightarrow> map_option (Pair key) (cmap_entry obj p key child (sortedKeys p) [])) (sortedKeys obj)"

definition CMap :: "(string \<times> jval) list \<Rightarrow> (string \<times> cspec) list \<Rightarrow> (string \<times> (string \<times> cany) list) list" where
  "CMap obj p = foldl (\<lambda>out (k, e). AList.update k e out) [] (cmap_entries obj p)"

definition VMap :: "(string \<times> jval) list \<Rightarrow> (string \<times> cspec) list \<Rightarrow> (string \<times> cany) list list" where
  "VMap obj p = map snd (cmap_entries obj p)"

definition CMapFilterFn :: "(jval \<Rightarrow> CMapCtx \<Rightarrow> cany) \<Rightarrow> jval \<Rightarrow> CMapCtx \<Rightarrow> cany" where
  "CMapFilterFn fn val p = (case fn val p of
     Plain (Arr AnySlice a xs) \<Rightarrow>
       (if xs \<noteq> [] \<and> jsTruthy (hd xs) then Sentinel CMapFilter
        else if 1 < length xs then Plain (xs ! 1)
        else Plain Null)
   | r \<Rightarrow> r)"

definition OMap :: "(string \<times> jval) list \<Rightarrow> (string \<times> jval) list" where "OMap m = in_key_order m"

section \<open>What Deep yields\<close>

datatype sel = Key string | At nat

fun jstep :: "jval \<Rightarrow> sel \<Rightarrow> jval option" where
  "jstep (Obj a m) (Key k) = map_of m k"
| "jstep (Arr AnySlice a xs) (At i) = (if i < length xs then Some (xs ! i) else None)"
| "jstep v s = None"

fun jpath :: "jval \<Rightarrow> sel list \<Rightarrow> jval option" where
  "jpath v [] = Some v"
| "jpath v (s # ss) = (case jstep v s of None \<Rightarrow> None | Some x \<Rightarrow> jpath x ss)"

definition container :: "jval \<Rightarrow> bool" where
  "container v = (case v of Obj a m \<Rightarrow> True | Arr AnySlice a xs \<Rightarrow> True | _ \<Rightarrow> False)"

text \<open>The maps of a Go value have each key once.\<close>

fun tidy :: "jval \<Rightarrow> bool" where
  "tidy (Obj a m) = (distinct (map fst m) \<and> (\<forall>(k, v) \<in> set m. tidy v))"
| "tidy (Arr t a xs) = (\<forall>v \<in> set xs. tidy v)"
| "tidy v = True"

text \<open>A path on which a value is silent: the walk leaves it inside a map or slice of the same kind.\<close>

fun silent :: "jval \<Rightarrow> sel list \<Rightarrow> bool" where
  "silent v [] = False"
| "silent v (s # ss) =
     (case s of
        Key k \<Rightarrow> (case v of Obj a m \<Rightarrow> (case map_of m k of None \<Rightarrow> True | Some x \<Rightarrow> silent x ss) | _ \<Rightarrow> False)
      | At i \<Rightarrow> (case v of Arr AnySlice a xs \<Rightarrow> (if i < length xs then silent (xs ! i) ss else True) | _ \<Rightarrow> False))"

lemma merge_fields_lookup:
  "distinct (map fst sm) \<Longrightarrow>
   (case map_of sm k of
      None \<Rightarrow> map_of (snd (merge_fields n out sm)) k = map_of out k
    | Some v \<Rightarrow>
        (case map_of out k of
           None \<Rightarrow> map_of (snd (merge_fields n out sm)) k = Some v
         | Some cur \<Rightarrow> \<exists>n'. map_of (snd (merge_fields n out sm)) k = Some (snd (mergeOne n' cur v))))"
proof (induction sm arbitrary: n out)
  case (Cons f sm)
  obtain k' v where f: "f = (k', v)" by (cases f)
  have k': "map_of sm k' = None" using Cons.prems by (simp add: f map_of_eq_None_iff)
  define nr where "nr = (case map_of out k' of Some cur \<Rightarrow> mergeOne n cur v | None \<Rightarrow> (n, v))"
  have step: "merge_fields n out (f # sm) = merge_fields (fst nr) (AList.update k' (snd nr) out) sm"
    by (simp add: f nr_def case_prod_beta Let_def split: option.split)
  have ih: "case map_of sm k of
      None \<Rightarrow> map_of (snd (merge_fields n out (f # sm))) k = map_of (AList.update k' (snd nr) out) k
    | Some v \<Rightarrow>
        (case map_of (AList.update k' (snd nr) out) k of
           None \<Rightarrow> map_of (snd (merge_fields n out (f # sm))) k = Some v
         | Some cur \<Rightarrow> \<exists>n'. map_of (snd (merge_fields n out (f # sm))) k = Some (snd (mergeOne n' cur v)))"
    unfolding step using Cons.IH Cons.prems by (simp add: f)
  show ?case
  proof (cases "k = k'")
    case True
    then show ?thesis using ih k' by (auto simp: f nr_def update_conv' split: option.split)
  next
    case False
    then show ?thesis using ih by (auto simp: f update_conv' split: option.splits)
  qed
qed simp

lemma merge_items_nth:
  "length (snd (merge_items n ds ss)) = max (length ds) (length ss)"
  "i < max (length ds) (length ss) \<Longrightarrow>
   (if length ss \<le> i then snd (merge_items n ds ss) ! i = ds ! i
    else if length ds \<le> i then snd (merge_items n ds ss) ! i = ss ! i
    else \<exists>n'. snd (merge_items n ds ss) ! i = snd (mergeOne n' (ds ! i) (ss ! i)))"
proof (induction ds arbitrary: n ss i)
  case Nil
  { case 1 then show ?case by (cases ss) auto }
  { case 2 then show ?case by (cases ss) auto }
next
  case (Cons d ds)
  { case 1 then show ?case using Cons.IH(1) by (cases ss) (auto simp: case_prod_beta Let_def) }
  { case 2
    show ?case
    proof (cases ss)
      case Nil then show ?thesis using 2 by simp
    next
      case (Cons v vs)
      then show ?thesis
        using 2 Cons.IH(2) [of "i - 1" vs "fst (mergeOne n d v)"]
        by (cases i) (auto simp: case_prod_beta Let_def nth_Cons')
    qed }
qed

lemma merge_leaf: "\<not> container src \<Longrightarrow> snd (mergeOne n dst src) = src"
  by (induction n dst src rule: mergeOne_merge_fields_merge_items.induct(1) [where Q = "\<lambda>n out sm. True" and R = "\<lambda>n ds ss. True"]) (simp_all add: container_def)

lemma merge_kinds:
  "(\<exists>a dm b sm. dst = Obj a dm \<and> src = Obj b sm) \<or> (\<exists>a ds b ss. dst = Arr AnySlice a ds \<and> src = Arr AnySlice b ss) \<or>
   snd (mergeOne n dst src) = src"
  by (induction n dst src rule: mergeOne_merge_fields_merge_items.induct(1) [where Q = "\<lambda>n out sm. True" and R = "\<lambda>n ds ss. True"]) simp_all

lemma jstep_cases:
  assumes "jstep v s = Some y"
  obtains (field) a m k where "v = Obj a m" "s = Key k" "map_of m k = Some y"
    | (item) a xs i where "v = Arr AnySlice a xs" "s = At i" "i < length xs" "y = xs ! i"
  using assms by (cases "(v, s)" rule: jstep.cases) (auto split: if_splits)

lemma tidy_step: "tidy v \<Longrightarrow> jstep v s = Some y \<Longrightarrow> tidy y"
  by (elim jstep_cases) (auto dest: map_of_SomeD)

lemma merge_src_path:
  assumes "tidy src" and "jpath src ss = Some x" and "\<not> container x"
  shows "jpath (snd (mergeOne n dst src)) ss = Some x"
  using assms
proof (induction ss arbitrary: n dst src)
  case Nil
  then show ?case by (simp add: merge_leaf)
next
  case (Cons s ss)
  obtain y where y: "jstep src s = Some y" "jpath y ss = Some x" using Cons.prems(2) by (auto split: option.splits)
  have ty: "tidy y" by (rule tidy_step [OF Cons.prems(1) y(1)])
  note ih = Cons.IH [OF ty y(2) Cons.prems(3)]
  have "\<exists>z. jstep (snd (mergeOne n dst src)) s = Some z \<and> jpath z ss = Some x"
    using y(1)
  proof (cases rule: jstep_cases)
    case (field b sm k)
    show ?thesis
    proof (cases "\<exists>a dm. dst = Obj a dm")
      case True
      then obtain a dm where d: "dst = Obj a dm" by blast
      show ?thesis
        using merge_fields_lookup [where sm = sm and k = k and n = "Suc n" and out = dm] Cons.prems(1) field ih y(2)
        by (auto simp: d case_prod_beta Let_def split: option.splits)
    qed (use merge_kinds [of dst src n] field y in auto)
  next
    case (item b vs i)
    show ?thesis
    proof (cases "\<exists>a ds. dst = Arr AnySlice a ds")
      case True
      then obtain a ds where d: "dst = Arr AnySlice a ds" by blast
      show ?thesis
        using merge_items_nth(2) [of i ds vs "Suc n"] merge_items_nth(1) [of "Suc n" ds vs] item ih y(2)
        by (auto simp: d case_prod_beta Let_def split: if_splits)
    qed (use merge_kinds [of dst src n] item y in auto)
  qed
  then show ?case by auto
qed

lemma merge_dst_path:
  assumes "tidy src" and "jpath dst ss = Some x" and "silent src ss"
  shows "jpath (snd (mergeOne n dst src)) ss = Some x"
  using assms
proof (induction ss arbitrary: n dst src)
  case (Cons s ss)
  obtain y where y: "jstep dst s = Some y" "jpath y ss = Some x" using Cons.prems(2) by (auto split: option.splits)
  have "\<exists>z. jstep (snd (mergeOne n dst src)) s = Some z \<and> jpath z ss = Some x"
    using y(1)
  proof (cases rule: jstep_cases)
    case (field a dm k)
    then obtain b sm where s: "src = Obj b sm" using Cons.prems(3) by (auto split: jval.splits)
    have "\<exists>z. jpath z ss = Some x \<and> snd (mergeOne n' y v) = z" if "map_of sm k = Some v" for v n'
      using Cons.IH [of v y n'] tidy_step [OF Cons.prems(1), of "Key k" v] that s field y(2) Cons.prems(3) by auto
    then show ?thesis
      using merge_fields_lookup [where sm = sm and k = k and n = "Suc n" and out = dm] Cons.prems(1) field y(2)
      by (fastforce simp: s case_prod_beta Let_def split: option.splits)
  next
    case (item a ds i)
    then obtain b vs where s: "src = Arr AnySlice b vs" using Cons.prems(3) by (auto split: jval.splits slice_type.splits)
    have "\<exists>z. jpath z ss = Some x \<and> snd (mergeOne n' y (vs ! i)) = z" if "i < length vs" for n'
      using Cons.IH [of "vs ! i" y n'] tidy_step [OF Cons.prems(1), of "At i" "vs ! i"] that s item y(2) Cons.prems(3) by auto
    then show ?thesis
      using merge_items_nth(2) [of i ds vs "Suc n"] merge_items_nth(1) [of "Suc n" ds vs] item y(2)
      by (fastforce simp: s case_prod_beta Let_def split: if_splits)
  qed
  then show ?case by auto
qed simp

text \<open>C37: \<^verbatim>\<open>Deep\<close> merges path by path: every value the source has at the end of a path of keys and
  indices is there in the result, and every value the base has at a path that the source leaves out (a
  missing key of one of its maps, an index past the end of one of its slices) stays.\<close>

theorem deep_merges_paths:
  assumes "tidy src"
  shows "(jpath src ss = Some x \<and> \<not> container x \<longrightarrow> jpath (snd (Deep n dst [src])) ss = Some x) \<and>
    (jpath dst ss = Some x \<and> silent src ss \<longrightarrow> jpath (snd (Deep n dst [src])) ss = Some x)"
  using merge_src_path [OF assms] merge_dst_path [OF assms] by (simp add: Deep_def)

theorem deep_merges_paths_witness:
  "jpath (snd (Deep 9 (Obj 1 [(''a'', Obj 2 [(''x'', GoInt 1), (''y'', GoInt 2)])]) [Obj 3 [(''a'', Obj 4 [(''x'', GoInt 7)])]]))
     [Key ''a'', Key ''y''] = Some (GoInt 2)"
  using deep_merges_paths [of "Obj 3 [(''a'', Obj 4 [(''x'', GoInt 7)])]" "[Key ''a'', Key ''y'']" "GoInt 2" 9
      "Obj 1 [(''a'', Obj 2 [(''x'', GoInt 1), (''y'', GoInt 2)])]"]
  by simp

end
