(* ===== verification/OptionsMap.thy ===== *)
theory OptionsMap
  imports Options Comp
begin

text \<open>
  The two other ways to make options (\<^verbatim>\<open>go/options.go\<close>): the \<^verbatim>\<open>WithX\<close> constructors, and decoding
  an untyped map (\<^verbatim>\<open>OptionsFromMap\<close>). \<open>oval\<close> is a value of such a map. The shape validator, the
  regexp compiler and what a model or meta map stands for as a reference are parameters.
\<close>

section \<open>Constructors\<close>

type_synonym 'x Option' = "'x Options \<Rightarrow> 'x Options"

definition WithFolder :: "string \<Rightarrow> 'x Option'" where "WithFolder s = (\<lambda>o'. o'\<lparr>op_Folder := s\<rparr>)"
definition WithModel :: "'x option \<Rightarrow> 'x Option'" where "WithModel m = (\<lambda>o'. o'\<lparr>op_Model := m\<rparr>)"
definition WithMeta :: "'x option \<Rightarrow> 'x Option'" where "WithMeta m = (\<lambda>o'. o'\<lparr>op_Meta := m\<rparr>)"
definition WithLog :: "'x option \<Rightarrow> 'x Option'" where "WithLog l = (\<lambda>o'. o'\<lparr>op_Log := l\<rparr>)"
definition WithDebug :: "string \<Rightarrow> 'x Option'" where "WithDebug s = (\<lambda>o'. o'\<lparr>op_Debug := s\<rparr>)"
definition WithMem :: "'x Option'" where "WithMem = (\<lambda>o'. o'\<lparr>op_Mem := Some True\<rparr>)"
definition WithoutMem :: "'x Option'" where "WithoutMem = (\<lambda>o'. o'\<lparr>op_Mem := Some False\<rparr>)"
definition WithVol :: "(string \<times> bytes option) list option \<Rightarrow> 'x Option'" where
  "WithVol v = (\<lambda>o'. o'\<lparr>op_Vol := v\<rparr>)"
definition WithFS :: "'x option \<Rightarrow> 'x Option'" where "WithFS f = (\<lambda>o'. o'\<lparr>op_FS := f\<rparr>)"
definition WithNow :: "'x option \<Rightarrow> 'x Option'" where "WithNow f = (\<lambda>o'. o'\<lparr>op_Now := f\<rparr>)"
definition WithExisting :: "Existing \<Rightarrow> 'x Option'" where "WithExisting e = (\<lambda>o'. o'\<lparr>op_Existing := e\<rparr>)"
definition WithControl :: "Control \<Rightarrow> 'x Option'" where "WithControl c = (\<lambda>o'. o'\<lparr>op_Control := c\<rparr>)"
definition WithBuild :: "bool \<Rightarrow> 'x Option'" where "WithBuild b = (\<lambda>o'. o'\<lparr>op_Build := Some b\<rparr>)"

definition applyOptions :: "'x Option' list \<Rightarrow> 'x Options" where
  "applyOptions opts = foldl (\<lambda>o' fn. fn o') noOptions opts"

section \<open>Untyped maps\<close>

text \<open>\<^verbatim>\<open>Host\<close> is a value that implements some of the host interfaces, or none; it carries its type's name.\<close>

datatype 'x oval =
    ONil
  | OBool bool
  | OStr string
  | OBytes bytes
  | OMap "(string \<times> 'x oval) list"
  | OVol "(string \<times> bytes option) list"       \<comment> \<open>a typed \<^verbatim>\<open>map[string][]byte\<close>\<close>
  | OList "'x oval list"
  | ORegex 'x
  | ONow 'x
  | OHost (oh_FS: bool) (oh_Log: bool) (oh_type: string) (oh_ref: 'x)

type_synonym 'x omap = "(string \<times> 'x oval) list"

text \<open>The type assertions of the source, and the text of \<^verbatim>\<open>%T\<close>.\<close>

definition as_str :: "'x oval option \<Rightarrow> string option" where "as_str v = (case v of Some (OStr s) \<Rightarrow> Some s | _ \<Rightarrow> None)"
definition as_bool :: "'x oval option \<Rightarrow> bool option" where "as_bool v = (case v of Some (OBool b) \<Rightarrow> Some b | _ \<Rightarrow> None)"
definition as_map :: "'x oval option \<Rightarrow> 'x omap option" where "as_map v = (case v of Some (OMap m) \<Rightarrow> Some m | _ \<Rightarrow> None)"
definition as_list :: "'x oval option \<Rightarrow> 'x oval list option" where "as_list v = (case v of Some (OList xs) \<Rightarrow> Some xs | _ \<Rightarrow> None)"

definition go_type :: "'x oval \<Rightarrow> string" where
  "go_type v = (case v of
     ONil \<Rightarrow> ''<nil>'' | OBool b \<Rightarrow> ''bool'' | OStr s \<Rightarrow> ''string'' | OBytes b \<Rightarrow> ''[]uint8''
   | OMap m \<Rightarrow> ''map[string]interface {}'' | OVol m \<Rightarrow> ''map[string][]uint8'' | OList xs \<Rightarrow> ''[]interface {}''
   | ORegex r \<Rightarrow> ''*regexp.Regexp'' | ONow f \<Rightarrow> ''func() int64'' | OHost f l t r \<Rightarrow> t)"

text \<open>The checks the schema calls back.\<close>

definition isLogOption :: "'x oval \<Rightarrow> bool" where
  "isLogOption v = (case v of ONil \<Rightarrow> True | OHost f l t r \<Rightarrow> l | _ \<Rightarrow> False)"

definition isIgnoreEntry :: "'x oval \<Rightarrow> bool" where
  "isIgnoreEntry v = (case v of OStr s \<Rightarrow> s \<noteq> [] | ORegex r \<Rightarrow> True | _ \<Rightarrow> False)"

definition isVolSeed :: "'x oval \<Rightarrow> bool" where
  "isVolSeed v = (case v of OStr s \<Rightarrow> True | OBytes b \<Rightarrow> True | ONil \<Rightarrow> True | _ \<Rightarrow> False)"

definition isNameExclude :: "'x oval \<Rightarrow> bool" where
  "isNameExclude v =
     (let one = (\<lambda>x. case x of OStr s \<Rightarrow> s \<noteq> [] | ORegex r \<Rightarrow> True | _ \<Rightarrow> False)
      in one v \<or> (case v of OList xs \<Rightarrow> list_all one xs | _ \<Rightarrow> False))"

text \<open>The two closed schemas, as the values they accept. \<open>closed\<close> is the shape library's object: no other
  keys; an object without keys is open; \<open>skip\<close> is a value that may be left out. Its \<^verbatim>\<open>String\<close> is never
  empty.\<close>

definition closed :: "string list \<Rightarrow> 'x omap \<Rightarrow> bool" where "closed ks m = (\<forall>k \<in> set (map fst m). k \<in> set ks)"

definition skip :: "('x oval \<Rightarrow> bool) \<Rightarrow> string \<Rightarrow> 'x omap \<Rightarrow> bool" where
  "skip P k m = (case map_of m k of None \<Rightarrow> True | Some v \<Rightarrow> P v)"

definition is_string :: "'x oval \<Rightarrow> bool" where "is_string v = (case v of OStr s \<Rightarrow> s \<noteq> [] | _ \<Rightarrow> False)"
definition is_boolean :: "'x oval \<Rightarrow> bool" where "is_boolean v = (case v of OBool b \<Rightarrow> True | _ \<Rightarrow> False)"
definition is_object :: "('x omap \<Rightarrow> bool) \<Rightarrow> 'x oval \<Rightarrow> bool" where
  "is_object P v = (case v of OMap m \<Rightarrow> P m | _ \<Rightarrow> False)"
definition is_function :: "'x oval \<Rightarrow> bool" where
  "is_function v = (case v of ONow f \<Rightarrow> True | OHost f l t r \<Rightarrow> has_prefix t ''func('' | _ \<Rightarrow> False)"

definition affixShape :: "'x omap \<Rightarrow> bool" where
  "affixShape m = (closed [''prefix'', ''suffix''] m \<and> skip is_string ''prefix'' m \<and> skip is_string ''suffix'' m)"

definition optionsShape :: "'x omap \<Rightarrow> bool" where
  "optionsShape m =
     (closed [''folder'', ''name'', ''meta'', ''fs'', ''now'', ''log'', ''debug'', ''exclude'', ''existing'', ''model'',
         ''build'', ''mem'', ''vol'', ''cmp'', ''control''] m \<and>
      skip is_string ''folder'' m \<and>
      skip (is_object (\<lambda>n. closed [''file'', ''folder'', ''exclude''] n \<and> skip (is_object affixShape) ''file'' n \<and>
        skip (is_object affixShape) ''folder'' n \<and> skip isNameExclude ''exclude'' n)) ''name'' m \<and>
      skip (is_object (\<lambda>x. True)) ''meta'' m \<and>
      skip is_function ''fs'' m \<and>
      skip (\<lambda>v. v = ONil \<or> is_function v) ''now'' m \<and>
      skip isLogOption ''log'' m \<and>
      skip is_string ''debug'' m \<and>
      skip is_boolean ''exclude'' m \<and>
      skip (is_object (\<lambda>e. closed [''txt'', ''bin''] e \<and> skip (is_object (\<lambda>x. True)) ''txt'' e \<and>
        skip (is_object (\<lambda>x. True)) ''bin'' e)) ''existing'' m \<and>
      skip (is_object (\<lambda>x. True)) ''model'' m \<and>
      skip is_boolean ''build'' m \<and>
      skip is_boolean ''mem'' m \<and>
      skip (is_object (\<lambda>vol. list_all (\<lambda>f. isVolSeed (snd f)) vol)) ''vol'' m \<and>
      skip (is_object (\<lambda>c. closed [''Copy''] c \<and> skip (is_object (\<lambda>cp. closed [''ignore''] cp \<and>
        skip (\<lambda>v. case v of OList xs \<Rightarrow> list_all isIgnoreEntry xs | _ \<Rightarrow> False) ''ignore'' cp)) ''Copy'' c)) ''cmp'' m \<and>
      skip (is_object (\<lambda>c. closed [''dryrun'', ''duplicate'', ''version''] c \<and> skip is_boolean ''dryrun'' c \<and>
        skip is_boolean ''duplicate'' c \<and> skip is_boolean ''version'' c)) ''control'' m)"

definition existingShape :: "'x omap \<Rightarrow> bool" where
  "existingShape m =
     (closed [''txt'', ''bin''] m \<and>
      skip (is_object (\<lambda>t. closed [''write'', ''preserve'', ''present'', ''diff'', ''merge'', ''conflict''] t \<and>
        skip is_boolean ''write'' t \<and> skip is_boolean ''preserve'' t \<and> skip is_boolean ''present'' t \<and>
        skip is_boolean ''diff'' t \<and> skip is_boolean ''merge'' t \<and>
        skip (\<lambda>v. v = OStr ConflictMarkers \<or> v = OStr ConflictFail) ''conflict'' t)) ''txt'' m \<and>
      skip (is_object (\<lambda>b. closed [''write'', ''preserve'', ''present''] b \<and>
        skip is_boolean ''write'' b \<and> skip is_boolean ''preserve'' b \<and> skip is_boolean ''present'' b)) ''bin'' m)"

definition volAsAny :: "'x omap \<Rightarrow> 'x omap" where
  "volAsAny m = (case map_of m ''vol'' of
     Some (OVol vol) \<Rightarrow> AList.update ''vol'' (OMap (map (\<lambda>(k, b). (k, case b of None \<Rightarrow> ONil | Some b \<Rightarrow> OBytes b)) vol)) m
   | _ \<Rightarrow> m)"

text \<open>\<open>fn\<close> is the function that stands in for an FS.\<close>

definition hostAsFunction :: "'x \<Rightarrow> 'x omap \<Rightarrow> 'x omap" where
  "hostAsFunction fn m = (case map_of m ''fs'' of
     Some (OHost True l t r) \<Rightarrow> AList.update ''fs'' (OHost False False ''func()'' fn) m
   | _ \<Rightarrow> m)"

section \<open>Decoding\<close>

definition boolPtrField :: "'x omap \<Rightarrow> string \<Rightarrow> bool option" where "boolPtrField m key = as_bool (map_of m key)"

definition decodeExisting :: "'x omap \<Rightarrow> Existing" where
  "decodeExisting m =
     \<lparr>ex_Txt =
        (case as_map (map_of m ''txt'') of
           None \<Rightarrow> ex_Txt noExisting
         | Some t \<Rightarrow>
             \<lparr>et_Write = boolPtrField t ''write'', et_Preserve = boolPtrField t ''preserve'',
              et_Present = boolPtrField t ''present'', et_Diff = boolPtrField t ''diff'',
              et_Merge = boolPtrField t ''merge'',
              et_Conflict = (case as_str (map_of t ''conflict'') of None \<Rightarrow> [] | Some c \<Rightarrow> c)\<rparr>),
      ex_Bin =
        (case as_map (map_of m ''bin'') of
           None \<Rightarrow> ex_Bin noExisting
         | Some b \<Rightarrow>
             \<lparr>eb_Write = boolPtrField b ''write'', eb_Preserve = boolPtrField b ''preserve'',
              eb_Present = boolPtrField b ''present''\<rparr>)\<rparr>"

definition decodeControl :: "'x omap \<Rightarrow> Control" where
  "decodeControl m =
     \<lparr>ct_Dryrun = (as_bool (map_of m ''dryrun'') = Some True),
      ct_NoDuplicate = (as_bool (map_of m ''duplicate'') = Some False),
      ct_Version = (as_bool (map_of m ''version'') = Some True)\<rparr>"

fun decode_ignore :: "(string \<Rightarrow> string + 'x) \<Rightarrow> 'x oval list \<Rightarrow> 'x list \<Rightarrow> error + 'x list" where
  "decode_ignore compile [] acc = Inr acc"
| "decode_ignore compile (p # ps) acc =
     (case p of
        ORegex re \<Rightarrow> decode_ignore compile ps (acc @ [re])
      | OStr pat \<Rightarrow>
          (case compile pat of
             Inl e \<Rightarrow> Inl (ErrMsg (''Jostraca Options: property '' @ [QUOTE] @ ''cmp.Copy.ignore'' @ [QUOTE] @ '': '' @ e))
           | Inr re \<Rightarrow> decode_ignore compile ps (acc @ [re]))
      | _ \<Rightarrow> Inl (ErrMsg (''Jostraca Options: property '' @ [QUOTE] @ ''cmp.Copy.ignore'' @ [QUOTE] @
              '' entries must be strings or regular expressions, got '' @ go_type p)))"

definition decodeCmp :: "(string \<Rightarrow> string + 'x) \<Rightarrow> 'x omap \<Rightarrow> error + 'x list" where
  "decodeCmp compile m =
     (let cm = (case as_map (map_of m ''Copy'') of None \<Rightarrow> [] | Some cm \<Rightarrow> cm);
          ig = (case as_list (map_of cm ''ignore'') of None \<Rightarrow> [] | Some xs \<Rightarrow> xs)
      in decode_ignore compile ig [])"

definition nameMatcher :: "'x oval \<Rightarrow> 'x NameMatcher" where
  "nameMatcher v = (case v of
     ORegex re \<Rightarrow> NameMatcher [] (Some re)
   | OStr s \<Rightarrow> NameMatcher s None
   | _ \<Rightarrow> NameMatcher [] None)"

definition decode_affix :: "'x oval option \<Rightarrow> NameAffix" where
  "decode_affix v =
     (let m = (case as_map v of None \<Rightarrow> [] | Some m \<Rightarrow> m);
          get = (\<lambda>k. case as_str (map_of m k) of None \<Rightarrow> [] | Some s \<Rightarrow> s)
      in \<lparr>na_Prefix = get ''prefix'', na_Suffix = get ''suffix''\<rparr>)"

definition decodeName :: "'x omap \<Rightarrow> 'x NameOptions" where
  "decodeName m =
     \<lparr>no_File = decode_affix (map_of m ''file''),
      no_Folder = decode_affix (map_of m ''folder''),
      no_Exclude =
        (case map_of m ''exclude'' of
           None \<Rightarrow> []
         | Some ONil \<Rightarrow> []
         | Some (OList l) \<Rightarrow> map nameMatcher l
         | Some v \<Rightarrow> [nameMatcher v])\<rparr>"

definition decode_vol :: "'x omap \<Rightarrow> (string \<times> bytes option) list" where
  "decode_vol vol = List.map_filter (\<lambda>(k, v). case v of
     OStr s \<Rightarrow> Some (k, Some s) | OBytes b \<Rightarrow> Some (k, Some b) | ONil \<Rightarrow> Some (k, None) | _ \<Rightarrow> None) vol"

text \<open>A host value under \<open>key\<close>: \<open>take\<close> is the type assertion, \<open>what\<close> the end of the message.\<close>

definition decode_host :: "string \<Rightarrow> string \<Rightarrow> ('x oval \<Rightarrow> 'x option) \<Rightarrow> 'x omap \<Rightarrow> error + 'x option" where
  "decode_host key what taken m = (case map_of m key of
     None \<Rightarrow> Inr None
   | Some ONil \<Rightarrow> Inr None
   | Some v \<Rightarrow>
       (case taken v of
          Some r \<Rightarrow> Inr (Some r)
        | None \<Rightarrow> Inl (ErrMsg (''Jostraca Options: property '' @ [QUOTE] @ key @ [QUOTE] @ '' must '' @ what @ '', got '' @ go_type v))))"

definition taken_fs :: "'x oval \<Rightarrow> 'x option" where "taken_fs v = (case v of OHost True l t r \<Rightarrow> Some r | _ \<Rightarrow> None)"
definition taken_log :: "'x oval \<Rightarrow> 'x option" where "taken_log v = (case v of OHost f True t r \<Rightarrow> Some r | _ \<Rightarrow> None)"
definition taken_now :: "'x oval \<Rightarrow> 'x option" where "taken_now v = (case v of ONow f \<Rightarrow> Some f | _ \<Rightarrow> None)"

text \<open>What is handed to the schema of \<^verbatim>\<open>existing\<close>.\<close>

definition existing_input :: "'x omap \<Rightarrow> 'x omap" where
  "existing_input ex =
     foldl (\<lambda>m k. case map_of ex k of None \<Rightarrow> m | Some v \<Rightarrow> AList.update k v m)
       [(''txt'', OMap []), (''bin'', OMap [])] [''txt'', ''bin'']"

text \<open>The decoding of a map that both schemas accept.\<close>

definition decode_options ::
  "('x omap \<Rightarrow> 'x) \<Rightarrow> (string \<Rightarrow> string + 'x) \<Rightarrow> 'x omap \<Rightarrow> error + 'x Options" where
  "decode_options box compile m =
     (let text_of = (\<lambda>k. case as_str (map_of m k) of None \<Rightarrow> [] | Some s \<Rightarrow> s);
          base = noOptions
            \<lparr>op_Folder := text_of ''folder'', op_Debug := text_of ''debug'',
             op_Mem := as_bool (map_of m ''mem''), op_Exclude := (as_bool (map_of m ''exclude'') = Some True),
             op_Build := as_bool (map_of m ''build''), op_Model := map_option box (as_map (map_of m ''model'')),
             op_Meta := map_option box (as_map (map_of m ''meta''))\<rparr>
      in (case decode_host ''fs'' ''implement FS'' taken_fs m of
            Inl e \<Rightarrow> Inl e
          | Inr f \<Rightarrow>
              (case decode_host ''now'' ''be a func() int64'' taken_now m of
                 Inl e \<Rightarrow> Inl e
               | Inr n \<Rightarrow>
                   (case decode_host ''log'' ''implement Log'' taken_log m of
                      Inl e \<Rightarrow> Inl e
                    | Inr l \<Rightarrow>
                        let opts = base\<lparr>op_FS := f, op_Now := n, op_Log := l,
                              op_Vol := map_option decode_vol (as_map (map_of m ''vol'')),
                              op_Existing := (case as_map (map_of m ''existing'') of None \<Rightarrow> noExisting | Some v \<Rightarrow> decodeExisting v),
                              op_Control := (case as_map (map_of m ''control'') of None \<Rightarrow> noControl | Some v \<Rightarrow> decodeControl v),
                              op_Name := (case as_map (map_of m ''name'') of None \<Rightarrow> op_Name noOptions | Some v \<Rightarrow> decodeName v)\<rparr>
                        in (case as_map (map_of m ''cmp'') of
                              None \<Rightarrow> Inr opts
                            | Some v \<Rightarrow>
                                (case decodeCmp compile v of
                                   Inl e \<Rightarrow> Inl e
                                 | Inr ig \<Rightarrow> Inr (opts\<lparr>op_Ignore := ig\<rparr>)))))))"

text \<open>\<^verbatim>\<open>OptionsFromMap\<close>; a nil map is None, and the two schemas answer with the text of their refusal.\<close>

definition OptionsFromMap ::
  "('x omap \<Rightarrow> string option) \<Rightarrow> ('x omap \<Rightarrow> string option) \<Rightarrow> 'x \<Rightarrow> ('x omap \<Rightarrow> 'x) \<Rightarrow> (string \<Rightarrow> string + 'x)
     \<Rightarrow> 'x omap option \<Rightarrow> error + 'x Options" where
  "OptionsFromMap schema existing fn box compile m0 =
     (case m0 of
        None \<Rightarrow> Inr noOptions
      | Some m1 \<Rightarrow>
          let m = volAsAny m1
          in (case schema (hostAsFunction fn m) of
                Some e \<Rightarrow> Inl (ErrMsg (''Jostraca Options: '' @ e))
              | None \<Rightarrow>
                  (case (case as_map (map_of m ''existing'') of None \<Rightarrow> None | Some ex \<Rightarrow> existing (existing_input ex)) of
                     Some e \<Rightarrow> Inl (ErrMsg (''Jostraca Options (`existing` property): '' @ e))
                   | None \<Rightarrow> decode_options box compile m)))"

section \<open>Options as a map\<close>

text \<open>The map that says what an Options value says, leaving out what is unset: the nil pointers and the
  empty strings. (A model and metadata are opaque here and left out.)\<close>

definition entry :: "string \<Rightarrow> 'x oval option \<Rightarrow> 'x omap" where
  "entry k v = (case v of None \<Rightarrow> [] | Some v \<Rightarrow> [(k, v)])"

lemma map_of_entry [simp]: "map_of (entry k v @ m) j = (if j = k \<and> v \<noteq> None then v else map_of m j)"
  "map_of (entry k v) j = (if j = k then v else None)"
  by (auto simp: entry_def split: option.split)

lemma map_add_entry [simp]: "(m ++ map_of (entry k v)) j = (if j = k \<and> v \<noteq> None then v else m j)"
  by (auto simp: map_add_def split: option.split)

definition unless_empty :: "string \<Rightarrow> 'x oval option" where
  "unless_empty s = (if s = [] then None else Some (OStr s))"

definition existing_map :: "Existing \<Rightarrow> 'x omap" where
  "existing_map e =
     [(''txt'', OMap (entry ''write'' (map_option OBool (et_Write (ex_Txt e))) @
         entry ''preserve'' (map_option OBool (et_Preserve (ex_Txt e))) @
         entry ''present'' (map_option OBool (et_Present (ex_Txt e))) @
         entry ''diff'' (map_option OBool (et_Diff (ex_Txt e))) @
         entry ''merge'' (map_option OBool (et_Merge (ex_Txt e))) @
         entry ''conflict'' (unless_empty (et_Conflict (ex_Txt e))))),
      (''bin'', OMap (entry ''write'' (map_option OBool (eb_Write (ex_Bin e))) @
         entry ''preserve'' (map_option OBool (eb_Preserve (ex_Bin e))) @
         entry ''present'' (map_option OBool (eb_Present (ex_Bin e)))))]"

definition control_map :: "Control \<Rightarrow> 'x omap" where
  "control_map c = [(''dryrun'', OBool (ct_Dryrun c)), (''duplicate'', OBool (Duplicate c)), (''version'', OBool (ct_Version c))]"

definition affix_map :: "NameAffix \<Rightarrow> 'x omap" where
  "affix_map a = entry ''prefix'' (unless_empty (na_Prefix a)) @ entry ''suffix'' (unless_empty (na_Suffix a))"

definition matcher_val :: "'x NameMatcher \<Rightarrow> 'x oval" where
  "matcher_val x = (case nm_RE x of Some re \<Rightarrow> ORegex re | None \<Rightarrow> OStr (nm_Literal x))"

definition name_map :: "'x NameOptions \<Rightarrow> 'x omap" where
  "name_map n =
     [(''file'', OMap (affix_map (no_File n))), (''folder'', OMap (affix_map (no_Folder n))),
      (''exclude'', OList (map matcher_val (no_Exclude n)))]"

definition vol_map :: "(string \<times> bytes option) list \<Rightarrow> 'x omap" where
  "vol_map vol = map (\<lambda>(k, b). (k, case b of None \<Rightarrow> ONil | Some b \<Rightarrow> OBytes b)) vol"

definition options_rest :: "'x Options \<Rightarrow> 'x omap" where
  "options_rest opts =
     entry ''mem'' (map_option OBool (op_Mem opts)) @
     entry ''build'' (map_option OBool (op_Build opts)) @
     entry ''log'' (map_option (OHost False True ''host'') (op_Log opts)) @
     entry ''now'' (map_option ONow (op_Now opts)) @
     entry ''vol'' (map_option (OMap \<circ> vol_map) (op_Vol opts)) @
     entry ''folder'' (unless_empty (op_Folder opts)) @
     entry ''debug'' (unless_empty (op_Debug opts)) @
     [(''exclude'', OBool (op_Exclude opts)),
      (''existing'', OMap (existing_map (op_Existing opts))), (''control'', OMap (control_map (op_Control opts))),
      (''name'', OMap (name_map (op_Name opts))),
      (''cmp'', OMap [(''Copy'', OMap [(''ignore'', OList (map ORegex (op_Ignore opts)))])])]"

definition options_map :: "'x Options \<Rightarrow> 'x omap" where
  "options_map opts = entry ''fs'' (map_option (OHost True False ''host'') (op_FS opts)) @ options_rest opts"

lemma as_simps [simp]:
  "as_bool (Some (OBool b)) = Some b" "as_bool None = None" "as_str (Some (OStr s)) = Some s" "as_str None = None"
  "as_map (Some (OMap m)) = Some m" "as_map None = None" "as_list (Some (OList xs)) = Some xs"
  by (simp_all add: as_bool_def as_str_def as_map_def as_list_def)

lemma as_bool_field [simp]: "as_bool (map_option OBool b) = b"
  by (cases b) simp_all

lemma if_Some_self [simp]: "(if \<exists>y. v = Some y then v else None) = v" "(if v \<noteq> None then v else None) = v"
  by (cases v; simp)+

lemma affix_lookup: "map_of (affix_map a) ''prefix'' = unless_empty (na_Prefix a)" "map_of (affix_map a) ''suffix'' = unless_empty (na_Suffix a)"
  by (simp_all add: affix_map_def)

lemma as_str_unless_empty [simp]: "(case as_str (unless_empty s) of None \<Rightarrow> [] | Some s \<Rightarrow> s) = s"
  by (simp add: unless_empty_def)

lemma decode_existing_map: "decodeExisting (existing_map e) = e"
  by (cases e, rename_tac t b, case_tac t, case_tac b)
    (auto simp: decodeExisting_def existing_map_def boolPtrField_def if_distrib [of as_bool] if_distrib [of as_str] cong: if_cong)

lemma decode_control_map: "decodeControl (control_map c) = c"
  by (cases c) (auto simp: decodeControl_def control_map_def Duplicate_def)

lemma decode_ignore_regexes: "decode_ignore compile (map ORegex rs) acc = Inr (acc @ rs)"
  by (induction rs arbitrary: acc) simp_all

lemma decode_cmp_map: "decodeCmp compile [(''Copy'', OMap [(''ignore'', OList (map ORegex rs))])] = Inr rs"
  by (simp add: decodeCmp_def Let_def decode_ignore_regexes)

lemma nameMatcher_val: "nm_RE x \<noteq> None \<longrightarrow> nm_Literal x = [] \<Longrightarrow> nameMatcher (matcher_val x) = x"
  by (cases x) (auto simp: matcher_val_def nameMatcher_def split: option.split)

lemma decode_affix_map: "decode_affix (Some (OMap (affix_map a))) = a"
  by (simp add: decode_affix_def affix_lookup Let_def)

lemma decode_name_map:
  assumes "\<forall>x \<in> set (no_Exclude n). nm_RE x \<noteq> None \<longrightarrow> nm_Literal x = []"
  shows "decodeName (name_map n) = n"
proof -
  have "map nameMatcher (map matcher_val (no_Exclude n)) = no_Exclude n"
    unfolding map_map comp_def by (rule map_idI, rule nameMatcher_val) (rule assms [THEN bspec])
  then show ?thesis
    by (cases n) (simp add: decodeName_def name_map_def decode_affix_map)
qed

lemma decode_vol_map: "decode_vol (vol_map vol) = vol"
proof (induction vol)
  case (Cons f vol)
  then show ?case by (cases f; cases "snd f") (simp_all add: decode_vol_def vol_map_def)
qed (simp add: decode_vol_def vol_map_def)

lemma decode_host_map:
  assumes "map_of m key = map_option con r" and "\<And>x. con x \<noteq> ONil \<and> taken (con x) = Some x"
  shows "decode_host key what taken m = Inr r"
proof (cases r)
  case (Some x)
  then show ?thesis using assms(1) assms(2) [of x] by (cases "con x") (simp_all add: decode_host_def)
qed (use assms(1) in \<open>simp add: decode_host_def\<close>)

text \<open>The map of an Options value is one the schemas accept.\<close>

definition plain_matcher :: "'x NameMatcher \<Rightarrow> bool" where
  "plain_matcher x = (nm_RE x = None \<longleftrightarrow> nm_Literal x \<noteq> [])"

lemma closed_simps [simp]:
  "closed ks []" "closed ks ((k, v) # m) = (k \<in> set ks \<and> closed ks m)" "closed ks (m @ n) = (closed ks m \<and> closed ks n)"
  "closed ks (entry k w) = (w = None \<or> k \<in> set ks)"
  by (auto simp: closed_def entry_def split: option.split)

lemma is_simps [simp]:
  "is_boolean (OBool b)" "is_object P (OMap m) = P m" "is_function (ONow f)" "is_function (OHost False False ''func()'' x)"
  by (simp_all add: is_boolean_def is_object_def is_function_def)

lemma skip_simps [simp]:
  "skip P k []" "skip P k ((j, v) # m) = (if j = k then P v else skip P k m)"
  "skip P k (entry j w @ m) = (if j = k \<and> w \<noteq> None then P (the w) else skip P k m)"
  "skip P k (entry j w) = (j = k \<and> w \<noteq> None \<longrightarrow> P (the w))"
  by (auto simp: skip_def entry_def split: option.split)

lemma set_fields [simp]:
  "b \<noteq> None \<Longrightarrow> is_boolean (the (map_option OBool b))" "unless_empty s \<noteq> None \<Longrightarrow> is_string (the (unless_empty s))"
  by (auto simp: unless_empty_def is_string_def split: if_splits)

lemma affix_shape [simp]: "affixShape (affix_map a)"
  by (auto simp: affixShape_def affix_map_def)

lemma existing_shape:
  assumes "et_Conflict (ex_Txt e) \<in> {[], ConflictMarkers, ConflictFail}"
  shows "existingShape (existing_map e)"
  using assms by (auto simp: existingShape_def existing_map_def unless_empty_def)

lemma existing_input_map: "existing_input (existing_map e) = existing_map e"
  by (simp add: existing_input_def existing_map_def)

lemma exclude_shape: "\<forall>x \<in> set xs. plain_matcher x \<Longrightarrow> isNameExclude (OList (map matcher_val xs))"
  by (auto simp: isNameExclude_def plain_matcher_def matcher_val_def list_all_iff Let_def split: option.split)

lemma vol_shape: "list_all (\<lambda>f. isVolSeed (snd f)) (vol_map vol)"
  by (auto simp: vol_map_def isVolSeed_def list_all_iff split: option.split)

lemma options_map_host:
  "hostAsFunction fn (options_map opts) =
    entry ''fs'' (map_option (\<lambda>r. OHost False False ''func()'' fn) (op_FS opts)) @ options_rest opts"
proof (cases "op_FS opts")
  case None
  have "map_of (options_rest opts) ''fs'' = None" by (simp add: options_rest_def)
  then show ?thesis using None by (simp add: hostAsFunction_def options_map_def)
next
  case (Some r)
  then show ?thesis by (simp add: hostAsFunction_def options_map_def entry_def)
qed

lemma options_shape:
  fixes opts :: "'x Options"
  assumes "\<forall>x \<in> set (no_Exclude (op_Name opts)). plain_matcher x"
  shows "optionsShape (hostAsFunction fn (options_map opts))"
proof -
  have "isLogOption (the (map_option (OHost False True ''host'') l))" if "l \<noteq> None" for l :: "'x option"
    using that by (auto simp: isLogOption_def)
  moreover have "is_function (the (map_option (\<lambda>r. OHost False False ''func()'' fn) f))" if "f \<noteq> None" for f :: "'x option"
    using that by auto
  moreover have "is_function (the (map_option ONow n))" if "n \<noteq> None" for n :: "'x option"
    using that by auto
  moreover have "is_object (\<lambda>vol. list_all (\<lambda>f. isVolSeed (snd f)) vol) (the (map_option (OMap \<circ> vol_map) v) :: 'x oval)" if "v \<noteq> None" for v
    using that vol_shape by auto
  moreover have "list_all isIgnoreEntry (map ORegex xs)" for xs :: "'x list" by (induction xs) (simp_all add: isIgnoreEntry_def)
  moreover note exclude_shape [OF assms]
  ultimately show ?thesis
    unfolding optionsShape_def options_map_host
    by (simp add: options_rest_def name_map_def control_map_def existing_map_def)
qed

text \<open>C38: decoding is faithful: the map that spells out an Options value, leaving out what is unset, is
  accepted by both schemas and decodes to that value, whatever it is: as long as its conflict mode is
  none or one of the two there are and its name exclusions are each a non-empty text or a pattern.
  (The opaque model and metadata are left out; the shape library is taken to accept what its schemas
  describe.)\<close>

theorem options_map_roundtrip:
  assumes "op_Model opts = None" and "op_Meta opts = None"
    and "et_Conflict (ex_Txt (op_Existing opts)) \<in> {[], ConflictMarkers, ConflictFail}"
    and "\<forall>x \<in> set (no_Exclude (op_Name opts)). plain_matcher x"
    and "\<forall>m. optionsShape m \<longrightarrow> schema m = None"
    and "\<forall>m. existingShape m \<longrightarrow> existing m = None"
  shows "OptionsFromMap schema existing fn box compile (Some (options_map opts)) = Inr opts"
proof -
  let ?m = "options_map opts"
  have excl: "\<forall>x \<in> set (no_Exclude (op_Name opts)). nm_RE x \<noteq> None \<longrightarrow> nm_Literal x = []"
    using assms(4) by (auto simp: plain_matcher_def)
  have accepted: "schema (hostAsFunction fn ?m) = None" using assms(5) options_shape [OF assms(4)] by blast
  have existing: "existing (existing_input (existing_map (op_Existing opts))) = None"
    unfolding existing_input_map by (rule assms(6) [rule_format, OF existing_shape [OF assms(3)]])
  have f: "map_of ?m ''folder'' = unless_empty (op_Folder opts)" "map_of ?m ''debug'' = unless_empty (op_Debug opts)"
    "map_of ?m ''exclude'' = Some (OBool (op_Exclude opts))" "map_of ?m ''mem'' = map_option OBool (op_Mem opts)"
    "map_of ?m ''build'' = map_option OBool (op_Build opts)" "map_of ?m ''model'' = None" "map_of ?m ''meta'' = None"
    "map_of ?m ''fs'' = map_option (OHost True False ''host'') (op_FS opts)"
    "map_of ?m ''log'' = map_option (OHost False True ''host'') (op_Log opts)"
    "map_of ?m ''now'' = map_option ONow (op_Now opts)" "map_of ?m ''vol'' = map_option (OMap \<circ> vol_map) (op_Vol opts)"
    "map_of ?m ''existing'' = Some (OMap (existing_map (op_Existing opts)))"
    "map_of ?m ''control'' = Some (OMap (control_map (op_Control opts)))"
    "map_of ?m ''name'' = Some (OMap (name_map (op_Name opts)))"
    "map_of ?m ''cmp'' = Some (OMap [(''Copy'', OMap [(''ignore'', OList (map ORegex (op_Ignore opts)))])])"
    by (auto simp: options_map_def options_rest_def)
  have v: "volAsAny ?m = ?m" using f(11) by (cases "op_Vol opts") (simp_all add: volAsAny_def)
  have h: "decode_host ''fs'' ''implement FS'' taken_fs ?m = Inr (op_FS opts)"
    "decode_host ''now'' ''be a func() int64'' taken_now ?m = Inr (op_Now opts)"
    "decode_host ''log'' ''implement Log'' taken_log ?m = Inr (op_Log opts)"
    by (rule decode_host_map [OF f(8)] decode_host_map [OF f(10)] decode_host_map [OF f(9)];
        simp add: taken_fs_def taken_now_def taken_log_def)+
  have vol: "map_option decode_vol (as_map (map_option (OMap \<circ> vol_map) (op_Vol opts))) = op_Vol opts"
    by (cases "op_Vol opts") (simp_all add: decode_vol_map)
  have "decode_options box compile ?m = Inr opts"
    unfolding decode_options_def Let_def h f sum.case as_simps option.case decode_cmp_map
      decode_existing_map decode_control_map decode_name_map [OF excl] vol as_bool_field
    using assms(1,2) by (cases opts) (simp add: noOptions_def)
  then show ?thesis using accepted existing by (simp add: OptionsFromMap_def Let_def v f(12))
qed

text \<open>Options that set some of everything, and schemas that refuse whatever their shape does not admit.\<close>

definition someOptions :: "unit Options" where
  "someOptions = noOptions\<lparr>op_Folder := ''out'', op_Mem := Some True, op_FS := Some (), op_Ignore := [()],
     op_Vol := Some [(''a'', Some ''x''), (''d'', None)], op_Control := noControl\<lparr>ct_NoDuplicate := True\<rparr>,
     op_Existing := noExisting\<lparr>ex_Txt := (ex_Txt noExisting)\<lparr>et_Merge := Some True, et_Conflict := ConflictFail\<rparr>\<rparr>\<rparr>"

definition strict :: "('x omap \<Rightarrow> bool) \<Rightarrow> 'x omap \<Rightarrow> string option" where
  "strict P m = (if P m then None else Some ''Validation failed'')"

lemma strict_refuses_empty: "strict optionsShape [(''folder'', OStr [])] \<noteq> None"
  by (simp add: strict_def optionsShape_def skip_def is_string_def)

theorem options_map_roundtrip_witness:
  "OptionsFromMap (strict optionsShape) (strict existingShape) () (\<lambda>m. ()) (\<lambda>s. Inl s) (Some (options_map someOptions))
    = Inr someOptions"
  by (rule options_map_roundtrip) (simp_all add: someOptions_def noOptions_def strict_def)

end
