(* ===== verification/ConsoleLog.thy ===== *)
theory ConsoleLog
  imports TimeFmt Prelude
begin

text \<open>
  The console logger of \<^verbatim>\<open>go/log.go\<close>. The console is the lines written so far, each with the stream
  it went to; \<open>out\<close> is the \<^verbatim>\<open>Out\<close> of the logger, and a nil logger is None. The arguments come as the
  texts that \<^verbatim>\<open>%v\<close> prints for them, and the clock as the time of the call.
\<close>

datatype 'w stream = Stdout | Stderr | Given 'w

definition log_line :: "int \<Rightarrow> string \<Rightarrow> string list \<Rightarrow> string" where
  "log_line now level args = iso_layout now @ '' '' @ level @ concat (map (\<lambda>a. '' '' @ a) args) @ [NL]"

definition log_write ::
  "'w option option \<Rightarrow> int \<Rightarrow> string \<Rightarrow> bool \<Rightarrow> string list \<Rightarrow> ('w stream \<times> string) list \<Rightarrow> ('w stream \<times> string) list" where
  "log_write logger now level diag args lines =
     (case logger of
        None \<Rightarrow> lines
      | Some out \<Rightarrow>
          let sink = (case out of Some w \<Rightarrow> Given w | None \<Rightarrow> if diag then Stderr else Stdout)
          in lines @ [(sink, log_line now level args)])"

definition Trace :: "'w option option \<Rightarrow> int \<Rightarrow> string list \<Rightarrow> ('w stream \<times> string) list \<Rightarrow> ('w stream \<times> string) list" where
  "Trace l now args = log_write l now ''TRACE'' False args"
definition Debug :: "'w option option \<Rightarrow> int \<Rightarrow> string list \<Rightarrow> ('w stream \<times> string) list \<Rightarrow> ('w stream \<times> string) list" where
  "Debug l now args = log_write l now ''DEBUG'' False args"
definition Info :: "'w option option \<Rightarrow> int \<Rightarrow> string list \<Rightarrow> ('w stream \<times> string) list \<Rightarrow> ('w stream \<times> string) list" where
  "Info l now args = log_write l now ''INFO'' False args"
definition Warn :: "'w option option \<Rightarrow> int \<Rightarrow> string list \<Rightarrow> ('w stream \<times> string) list \<Rightarrow> ('w stream \<times> string) list" where
  "Warn l now args = log_write l now ''WARN'' True args"
definition LogError :: "'w option option \<Rightarrow> int \<Rightarrow> string list \<Rightarrow> ('w stream \<times> string) list \<Rightarrow> ('w stream \<times> string) list" where
  "LogError l now args = log_write l now ''ERROR'' True args"
definition Fatal :: "'w option option \<Rightarrow> int \<Rightarrow> string list \<Rightarrow> ('w stream \<times> string) list \<Rightarrow> ('w stream \<times> string) list" where
  "Fatal l now args = log_write l now ''FATAL'' True args"

text \<open>A logger with no \<^verbatim>\<open>Out\<close> sends warnings and errors to the error stream and all else to the output
  stream, and never takes a line back.\<close>

lemma console_split:
  "Warn (Some None) now args ls = ls @ [(Stderr, log_line now ''WARN'' args)]"
  "LogError (Some None) now args ls = ls @ [(Stderr, log_line now ''ERROR'' args)]"
  "Fatal (Some None) now args ls = ls @ [(Stderr, log_line now ''FATAL'' args)]"
  "Info (Some None) now args ls = ls @ [(Stdout, log_line now ''INFO'' args)]"
  "Debug (Some None) now args ls = ls @ [(Stdout, log_line now ''DEBUG'' args)]"
  "Trace (Some None) now args ls = ls @ [(Stdout, log_line now ''TRACE'' args)]"
  by (simp_all add: Warn_def LogError_def Fatal_def Info_def Debug_def Trace_def log_write_def)

end
