(* ===== verification/Humanify.thy ===== *)
theory Humanify
  imports TimeFmt
begin

text \<open>
  The forms of a timestamp (\<^verbatim>\<open>Humanify\<close> of \<^verbatim>\<open>go/util.go\<close>): its digits, its parts, and the parts
  under short names. The map that \<^verbatim>\<open>Humanify\<close> returns for the parts is a record here.
\<close>

record HumanifyFlags =
  hf_Parts :: bool
  hf_Terse :: bool

record HumanifiedTerse =
  ht_TY :: int
  ht_TM :: int
  ht_TD :: int
  ht_TH :: int
  ht_TN :: int
  ht_TS :: int
  ht_TI :: int

definition terse_of :: "datetime \<Rightarrow> HumanifiedTerse" where
  "terse_of t =
     \<lparr>ht_TY = dt_year t, ht_TM = dt_month t, ht_TD = dt_day t, ht_TH = dt_hour t, ht_TN = dt_minute t,
      ht_TS = dt_second t, ht_TI = dt_milli t\<rparr>"

datatype humanified = HDigits int | HParts datetime | HTerse HumanifiedTerse

definition Humanify :: "int \<Rightarrow> HumanifyFlags \<Rightarrow> humanified" where
  "Humanify when flags =
     (if hf_Parts flags then
        let full = HumanifyParts when
        in if hf_Terse flags then HTerse (terse_of full) else HParts full
      else HDigits (HumanifyDigits when))"

text \<open>The assertion of the result's type fails, a panic, where the value is None.\<close>

definition HumanifyTerse :: "int \<Rightarrow> HumanifiedTerse option" where
  "HumanifyTerse when =
     (case Humanify when \<lparr>hf_Parts = True, hf_Terse = True\<rparr> of HTerse t \<Rightarrow> Some t | _ \<Rightarrow> None)"

text \<open>The short form is always there, and has the fields of the long one.\<close>

lemma HumanifyTerse_parts: "HumanifyTerse when = Some (terse_of (HumanifyParts when))"
  by (simp add: HumanifyTerse_def Humanify_def Let_def)

end
