(* ===== verification/Spec2Isabelle.thy ===== *)
theory Spec2Isabelle
  imports DiffProps SaveProps MemProps TextProps GenerateProps CheckProps BuildErr TemplateProps DefineProps Each Errors DLog CasingProps MapUtil OptionsMap OsFS ConsoleLog Humanify
begin

text \<open>
  A model of the Go implementation of jostraca (\<^verbatim>\<open>src/go\<close>), a code generator: a caller describes a
  tree of folders and files by nested component calls, and the module writes it, merging what it
  generates with what its user has edited in the files since.

  \<^bold>\<open>The program.\<close> A call of \<^verbatim>\<open>Generate\<close> (\<^verbatim>\<open>jostraca.go\<close>) merges the global and the call's options, picks
  a file system, and runs two phases. In the \<^emph>\<open>define phase\<close> (\<^verbatim>\<open>builder.go\<close>, \<^verbatim>\<open>fragment.go\<close>, and
  \<^verbatim>\<open>tree.go\<close> for trees that come as data) the caller's callback attaches nodes to a tree. In the
  \<^emph>\<open>build phase\<close> (\<^verbatim>\<open>build.go\<close>, \<^verbatim>\<open>buildctx.go\<close>) a walk over that tree computes paths and texts and
  hands them to the file handler (\<^verbatim>\<open>filehandler.go\<close>), which decides, by the existing-file modes, the
  previous log (\<^verbatim>\<open>buildmeta.go\<close>) and the three-way merge (\<^verbatim>\<open>diff.go\<close>), what to write through the
  provider interface (\<^verbatim>\<open>fs.go\<close>). Templates (\<^verbatim>\<open>template.go\<close>) and model paths (\<^verbatim>\<open>getx.go\<close>) fill in
  texts. \<^verbatim>\<open>Check\<close> (\<^verbatim>\<open>check.go\<close>) runs a call into a shadow in memory and compares with the
  committed tree.

  \<^bold>\<open>Conventions.\<close> Strings and byte slices are lists of characters that stand for bytes. A nil pointer,
  map, function or interface is None. Errors are values of \<open>error\<close> (\<open>Comp\<close>): a computation takes a state
  and gives the new state with \<open>Inl\<close> an error or \<open>Inr\<close> a value, so what was done before an error stays
  done. A panic is the error \<open>ErrPanic\<close> or, in functions without a state, None; it travels as errors do,
  so one in the walk reaches the end of a build inside the NodeError of its node, where Go unwinds past
  the wrapping. File modes are 32-bit
  words and the sequence counter of temporary names is a 64-bit word, both with wrap-around; other
  integers are within their range by construction. Go's maps are association lists, and what may not
  depend on Go's random iteration order is shown not to, where it is claimed.

  \<^bold>\<open>The theories, by component.\<close>

  \<^item> Shared: \<open>Prelude\<close> (the functions of Go's \<^verbatim>\<open>strings\<close> package, sorting, hints), \<open>Comp\<close> (errors and
    sequencing), \<open>Utf8\<close> (runes), \<open>GoPath\<close> (Go's \<^verbatim>\<open>path\<close> package), \<open>TimeFmt\<close> and \<open>Humanify\<close> (timestamps).
  \<^item> Merge and diff, \<^verbatim>\<open>diff.go\<close>: \<open>Lcs\<close> (lines, Hirschberg's algorithm, alignment) and \<open>Merge\<close>. \<open>LcsOptimal\<close>
    proves the common subsequence longest, \<open>Anchors\<close> what the alignment promises, \<open>MergeRule\<close> gives the
    loop rule of the merge as the locale \<open>merge_invariant\<close>, and \<open>MergeProps\<close> and \<open>DiffProps\<close> use it, one
    interpretation for each property.
  \<^item> Providers, \<^verbatim>\<open>fs.go\<close>: \<open>FsApi\<close> (the interface \<^verbatim>\<open>FS\<close> as a record, and the contract the file handler relies
    on as the locales \<open>fs_provider\<close> and \<open>fs_siblings\<close>), \<open>MemFS\<close> (the volume in memory), \<open>MemFSInv\<close> (its
    invariant, and that it meets the contract), \<open>MemProps\<close>, \<open>OsFS\<close>, \<open>LiftFS\<close> (a provider as a part of a
    larger state).
  \<^item> Paths, \<^verbatim>\<open>filehandler.go\<close>, \<^verbatim>\<open>build.go\<close>, \<^verbatim>\<open>util.go\<close>: \<open>OutPath\<close> and \<open>PathProps\<close>.
  \<^item> File handler, \<^verbatim>\<open>filehandler.go\<close>, \<^verbatim>\<open>buildmeta.go\<close>: \<open>BuildMeta\<close>, \<open>FhLow\<close> (the audited calls, the atomic
    write, the log), \<open>FileHandler\<close> (\<^verbatim>\<open>saveAs\<close> and \<^verbatim>\<open>saveMerge\<close>). \<open>FhFrame\<close>, \<open>FhSafe\<close>, \<open>FhProps\<close>, \<open>FhWrite\<close>,
    \<open>FhMerge\<close> and \<open>FhTarget\<close> show what a save can reach and which texts it can leave, over any provider of
    the contract (locale \<open>fh_run\<close>); \<open>SaveProps\<close> states the claims.
  \<^item> Build phase: \<open>Build\<close>; \<open>RunFrame\<close> lifts a relation from the single writes to the whole run (locales
    \<open>run_frame\<close> and \<open>api_frame\<close>); \<open>BuildProps\<close>, \<open>BuildWrite\<close> and \<open>BuildErr\<close> hold the claims.
  \<^item> Define phase: \<open>Define\<close>, with the nodes in an explicit store because components alias and mutate them;
    \<open>CmpTree\<close> for trees given as data; \<open>DefineStore\<close> (the store stays a tree) and \<open>DefineProps\<close>.
  \<^item> Entry points and check: \<open>Generate\<close> and \<open>GenerateProps\<close>; \<open>Check\<close>, \<open>GenWalk\<close> (the walk over the produced
    files) and \<open>CheckProps\<close>.
  \<^item> Options, \<^verbatim>\<open>options.go\<close>: \<open>Options\<close> (records and merging), \<open>OptionsMap\<close> (constructors, untyped maps
    and what their two schemas accept).
  \<^item> JavaScript's values, \<^verbatim>\<open>jsvalue.go\<close>, \<^verbatim>\<open>jscase.go\<close>: \<open>JsText\<close>, \<open>JsNumber\<close>, \<open>JsValue\<close>, \<open>Casing\<close> with
    \<open>CasingProps\<close>; \<open>TextProps\<close>.
  \<^item> Templates and models: \<open>Template\<close>, \<open>TemplateProps\<close>, \<open>Getx\<close>.
  \<^item> Helpers, \<^verbatim>\<open>util.go\<close>: \<open>Naming\<close>, \<open>Each\<close>, \<open>MapUtil\<close>. Texts of errors, \<^verbatim>\<open>errors.go\<close>: \<open>Errors\<close>. Logs,
    \<^verbatim>\<open>dlog.go\<close>, \<^verbatim>\<open>log.go\<close>: \<open>DLog\<close>, \<open>ConsoleLog\<close>.

  \<^bold>\<open>What is shown.\<close> The merge terminates, keeps the user's lines and the newly generated ones, and never
  runs over unresolved conflicts. A save changes nothing but its target and the files beside it, leaves
  the target with its old bytes or, whole, one of the two texts its modes call for even when it fails, respects the protect marker, and in merge mode keeps the user's
  lines on disk. A dry run writes nothing. Component names and trees given as data cannot place a file
  outside the output folder; no two Files share a path; every error of a build names its node. A build
  writes the text of each File, and an in-memory call delivers it in the volume it returns; a call
  touches the provider it picked and nothing else. A check changes nothing, always ends, and reports
  exactly the drift. The caches of the tokenizer and the template engine do not show. The text
  routines agree with their references: UTF-16 order, quoting, Unicode's lower case, the name
  conversions, \<^verbatim>\<open>Deep\<close> path by path, the decoding of options.

  \<^bold>\<open>Bounds.\<close> The copy walk recurses to the source's own depth limit of 64, by recursion on the levels left;
  \<^verbatim>\<open>tmpPathAttempts\<close>, the sizes of the caches, of the debug log and of the fingerprint history are the
  source's. The walk of a check takes fuel: a directory it enters is a recorded one, so its path is no
  longer than the longest of them, and each step makes the path longer; \<open>walk_fuel\<close> is that length and
  two, and \<open>gen_walk_takes\<close> shows that it is enough. All other recursion is structural or has a proof of
  termination.

  \<^bold>\<open>Parameters.\<close> The digest, the clock, the random source, \<^verbatim>\<open>json.Unmarshal\<close>, the engine of Go's
  \<^verbatim>\<open>regexp\<close>, the platform's \<^verbatim>\<open>filepath\<close>, the calls of Go's \<^verbatim>\<open>os\<close>, the tables of \<^verbatim>\<open>unicode\<close>, the
  engine of the external \<^verbatim>\<open>shape\<close> package, and the caller's callbacks. The template engine is
  modelled in \<open>Template\<close>, and a parameter of the build phase.

  \<^bold>\<open>Not modelled.\<close> Reflection over caller-defined structs and typed maps; the schema tables that
  \<^verbatim>\<open>cmpshape.go\<close> builds for the shape package; the difference between a nil and an empty map of a
  template's model; locks, since every locked operation is one
  step; the identity of error values beyond what the module itself asks of them; and the marks that
  \<^verbatim>\<open>Each\<close> leaves in the caller's own maps.
\<close>

end
